theory Spec2Isabelle
  imports Complex_Main
begin

section \<open>Data model (types.ts, constants.ts)\<close>

text \<open>
  The engine is a React component whose mutable state lives in refs. The embedding
  passes that state explicitly as one record. JavaScript numbers are modelled as exact
  reals: rounding errors of the double arithmetic are not modelled, and a real beyond
  \<open>Number.MAX_VALUE\<close> stands for an infinite double (see the section on JSON). Strings
  are HOL strings; an optional field is an \<open>option\<close>. Canvas drawing, particles, the
  trail and the death markers are rendering only and are left out.
\<close>

datatype ObjectType =
  DELETE | BLOCK | SPIKE | TOOL | PAD | ORB | DECO | PORTAL | TRIGGER | START_POS

datatype GameMode = EDITOR | PLAYTEST | PAUSED | VERIFY | VERIFY_PAUSED | COMPLETE

datatype VehicleMode = CUBE | SHIP

datatype TriggerTarget = T_bgColorTop | T_bgColorBottom | T_groundColor | T_lineColor

record LevelSettings =
  bgColorTop :: string
  bgColorBottom :: string
  groundColor :: string
  lineColor :: string
  startMode :: VehicleMode
  startReverseGravity :: "bool option"

text \<open>
  \<open>Partial<LevelSettings>\<close>, \<open>Partial<TriggerData>\<close> and \<open>Partial<StartPosData>\<close>:
  an absent key is \<open>None\<close>. The engine takes the trigger and start-pos updates as
  \<open>any\<close> and spreads them over whatever the object holds, so the data attached to an
  object may itself be partial at run time; \<open>TriggerData\<close> and \<open>StartPosData\<close> are
  therefore records of optional fields.
\<close>

record SettingsPatch =
  sp_bgColorTop :: "string option"
  sp_bgColorBottom :: "string option"
  sp_groundColor :: "string option"
  sp_lineColor :: "string option"
  sp_startMode :: "VehicleMode option"
  sp_startReverseGravity :: "bool option option"

record TriggerData =
  target :: "TriggerTarget option"
  color :: "string option"
  duration :: "real option"
  touchTrigger :: "bool option"

record StartPosData =
  spmode :: "VehicleMode option"
  reverseGravity :: "bool option"
  enabled :: "bool option"

record LevelObject =
  o_id :: string
  o_x :: real
  o_y :: real
  o_type :: ObjectType
  o_subtype :: int
  o_rotation :: "real option"
  o_triggerData :: "TriggerData option"
  o_startPosData :: "StartPosData option"

record LevelData =
  settings :: LevelSettings
  objects :: "LevelObject list"

record Player =
  p_x :: real
  p_y :: real
  p_w :: real
  p_h :: real
  p_vx :: real
  p_vy :: real
  p_rotation :: real
  p_onGround :: bool
  p_dead :: bool
  p_finished :: bool
  p_vehicle :: "VehicleMode option"
  p_gravityReversed :: bool

record Camera =
  cam_x :: real
  cam_y :: real
  zoom :: real

text \<open>
  An effect as a firing trigger pushes it. The data of the trigger may lack the target or
  the colour, and the display settings may lack the colour read as the start: the effect
  then holds \<open>undefined\<close> there, which is \<open>None\<close>.
\<close>

record ColorEffect =
  e_target :: "TriggerTarget option"
  e_startColor :: "string option"
  e_endColor :: "string option"
  e_startTime :: int
  e_duration :: real

text \<open>
  The display settings are a copy of the level settings that the triggers write to. A
  trigger writes under the key its data gives: without a target the write goes to the
  property named \<open>undefined\<close>, and without a colour it stores \<open>undefined\<close>. The display
  settings therefore hold optional colours and that extra property.
\<close>

record DisplaySettings =
  d_bgColorTop :: "string option"
  d_bgColorBottom :: "string option"
  d_groundColor :: "string option"
  d_lineColor :: "string option"
  d_startMode :: VehicleMode
  d_startReverseGravity :: "bool option"
  d_undefined :: "string option"

definition TILE_SIZE :: real where "TILE_SIZE = 40"
definition GRAVITY :: real where "GRAVITY = 95 / 100"
definition JUMP_FORCE :: real where "JUMP_FORCE = - (138 / 10)"
definition PLAYER_SPEED :: real where "PLAYER_SPEED = 64 / 10"
definition TERMINAL_VELOCITY :: real where "TERMINAL_VELOCITY = 18"
definition FLOOR_LEVEL_GRID :: real where "FLOOR_LEVEL_GRID = 12"
definition FLOOR_Y :: real where "FLOOR_Y = FLOOR_LEVEL_GRID * TILE_SIZE"
definition SHIP_GRAVITY :: real where "SHIP_GRAVITY = 4 / 10"
definition SHIP_THRUST :: real where "SHIP_THRUST = - (8 / 10)"
definition SHIP_TERMINAL_VELOCITY :: real where "SHIP_TERMINAL_VELOCITY = 10"
definition PAD_FORCE_PINK :: real where "PAD_FORCE_PINK = - 10"
definition PAD_FORCE_YELLOW :: real where "PAD_FORCE_YELLOW = - (165 / 10)"
definition PAD_FORCE_RED :: real where "PAD_FORCE_RED = - 22"
definition ORB_FORCE_PINK :: real where "ORB_FORCE_PINK = - 9"
definition ORB_FORCE_YELLOW :: real where "ORB_FORCE_YELLOW = - 15"
definition ORB_FORCE_RED :: real where "ORB_FORCE_RED = - 21"

definition DEFAULT_LEVEL_SETTINGS :: LevelSettings where
  "DEFAULT_LEVEL_SETTINGS =
     \<lparr> bgColorTop = ''#004e92'', bgColorBottom = ''#000428'', groundColor = ''#000000'',
       lineColor = ''#ffffff'', startMode = CUBE, startReverseGravity = Some False \<rparr>"

section \<open>JavaScript primitives\<close>

text \<open>\<open>Math.round\<close> rounds half up; \<open>%\<close> truncates toward zero and keeps the
  dividend's sign.\<close>

definition js_round :: "real \<Rightarrow> real" where
  "js_round v = of_int \<lfloor>v + 1 / 2\<rfloor>"

definition js_trunc :: "real \<Rightarrow> int" where
  "js_trunc v = (if 0 \<le> v then \<lfloor>v\<rfloor> else \<lceil>v\<rceil>)"

definition js_rem :: "real \<Rightarrow> real \<Rightarrow> real" where
  "js_rem a b = a - b * of_int (js_trunc (a / b))"

text \<open>\<open>xs.slice(0, e)\<close>: a negative end counts from the back, a large one is cut.\<close>

definition js_slice0 :: "'a list \<Rightarrow> int \<Rightarrow> 'a list" where
  "js_slice0 xs e =
     (let n = int (length xs);
          k = (if e < 0 then max (n + e) 0 else min e n)
      in take (nat k) xs)"

text \<open>\<open>xs[i]\<close>: \<open>undefined\<close> out of range.\<close>

definition js_index :: "'a list \<Rightarrow> int \<Rightarrow> 'a option" where
  "js_index xs i = (if 0 \<le> i \<and> i < int (length xs) then Some (xs ! nat i) else None)"

text \<open>A \<open>Set<string>\<close> keeps insertion order, which \<open>Array.from(set)[0]\<close> observes:
  a list without repetitions.\<close>

definition set_add :: "string list \<Rightarrow> string \<Rightarrow> string list" where
  "set_add xs a = (if a \<in> set xs then xs else xs @ [a])"

definition set_delete :: "string list \<Rightarrow> string \<Rightarrow> string list" where
  "set_delete xs a = filter (\<lambda>b. b \<noteq> a) xs"

definition set_first :: "string list \<Rightarrow> string option" where
  "set_first xs = (case xs of [] \<Rightarrow> None | a # _ \<Rightarrow> Some a)"

section \<open>JSON copies\<close>

text \<open>
  The history keeps \<open>JSON.stringify\<close> texts of the document and the clipboard is filled
  with \<open>JSON.parse(JSON.stringify(...))\<close>. A text is modelled by the value it denotes.
  JSON has no notation for a number that is not finite: \<open>JSON.stringify\<close> writes \<open>null\<close>
  for it. A double is finite up to \<open>Number.MAX_VALUE\<close>; in the model a real beyond that
  bound stands for an infinite double. A key whose value is \<open>undefined\<close> is left out and
  is \<open>undefined\<close> again after parsing. \<open>subtype\<close> is an integer and always finite.
\<close>

definition MAX_VALUE :: real where "MAX_VALUE = (2 - 1 / 2 ^ 52) * 2 ^ 1023"

definition MAX_SAFE_INTEGER :: real where "MAX_SAFE_INTEGER = 2 ^ 53 - 1"

definition isFinite :: "real \<Rightarrow> bool" where
  "isFinite v = (\<bar>v\<bar> \<le> MAX_VALUE)"

datatype JsonNumber = JNumber real | JNull

record JsonTriggerData =
  jt_target :: "TriggerTarget option"
  jt_color :: "string option"
  jt_duration :: "JsonNumber option"
  jt_touchTrigger :: "bool option"

record JsonObject =
  j_id :: string
  j_x :: JsonNumber
  j_y :: JsonNumber
  j_type :: ObjectType
  j_subtype :: int
  j_rotation :: "JsonNumber option"
  j_triggerData :: "JsonTriggerData option"
  j_startPosData :: "StartPosData option"

record Snapshot =
  snap_settings :: LevelSettings
  snap_objects :: "JsonObject list"

definition stringifyNumber :: "real \<Rightarrow> JsonNumber" where
  "stringifyNumber v = (if isFinite v then JNumber v else JNull)"

definition stringifyTrigger :: "TriggerData \<Rightarrow> JsonTriggerData" where
  "stringifyTrigger td =
     \<lparr> jt_target = target td, jt_color = color td,
       jt_duration = map_option stringifyNumber (duration td),
       jt_touchTrigger = touchTrigger td \<rparr>"

definition stringifyObject :: "LevelObject \<Rightarrow> JsonObject" where
  "stringifyObject ob =
     \<lparr> j_id = o_id ob, j_x = stringifyNumber (o_x ob), j_y = stringifyNumber (o_y ob),
       j_type = o_type ob, j_subtype = o_subtype ob,
       j_rotation = map_option stringifyNumber (o_rotation ob),
       j_triggerData = map_option stringifyTrigger (o_triggerData ob),
       j_startPosData = o_startPosData ob \<rparr>"

text \<open>
  Parsing gives \<open>null\<close> back where the text has \<open>null\<close>. The object types of the model
  have a number there. Every arithmetic use and every comparison by \<open><\<close> or \<open>>\<close> reads
  \<open>null\<close> as 0, and so does \<open>rotation || 0\<close> and \<open>duration || 0\<close>; the model stores that
  0. Only a strict equality test against a number tells \<open>null\<close> from 0. The theorems
  below about restored documents assume documents of finite numbers, for which no
  \<open>null\<close> is written.
\<close>

definition parseNumber :: "JsonNumber \<Rightarrow> real" where
  "parseNumber j = (case j of JNumber v \<Rightarrow> v | JNull \<Rightarrow> 0)"

definition parseTrigger :: "JsonTriggerData \<Rightarrow> TriggerData" where
  "parseTrigger jt =
     \<lparr> target = jt_target jt, color = jt_color jt,
       duration = map_option parseNumber (jt_duration jt),
       touchTrigger = jt_touchTrigger jt \<rparr>"

definition parseObject :: "JsonObject \<Rightarrow> LevelObject" where
  "parseObject j =
     \<lparr> o_id = j_id j, o_x = parseNumber (j_x j), o_y = parseNumber (j_y j),
       o_type = j_type j, o_subtype = j_subtype j,
       o_rotation = map_option parseNumber (j_rotation j),
       o_triggerData = map_option parseTrigger (j_triggerData j),
       o_startPosData = j_startPosData j \<rparr>"

text \<open>\<open>Math.round(v * 100) / 100\<close>. When the product leaves the range of the doubles it
  is infinite, and so are its rounding and the quotient; the model keeps the product, a
  real beyond \<open>MAX_VALUE\<close>, to stand for them.\<close>

definition roundCents :: "real \<Rightarrow> real" where
  "roundCents v = (if isFinite (v * 100) then js_round (v * 100) / 100 else v * 100)"

section \<open>Engine state\<close>

record Engine =
  levelData :: "LevelObject list"
  levelSettings :: LevelSettings
  displaySettings :: DisplaySettings
  selectedObjects :: "string list"
  isPastedSelection :: bool
  clipboard :: "LevelObject list"
  activeEffects :: "ColorEffect list"
  triggeredIds :: "string set"
  usedObjectIds :: "string set"
  history :: "Snapshot list"
  historyIndex :: int
  player :: Player
  activeFloorY :: real
  activeCeilingY :: real
  targetFloorY :: real
  targetCeilingY :: real
  camera :: Camera
  keySpace :: bool
  keyArrowUp :: bool
  keyW :: bool
  keyS :: bool
  keyA :: bool
  keyD :: bool
  mouseIsDown :: bool
  prevInputState :: bool
  hasInputUsed :: bool
  boxSelectStart :: "(real \<times> real) option"
  finishWallX :: real
  isSuckedIntoWall :: bool
  modeRef :: GameMode
  selectedToolRef :: "ObjectType \<times> int"
  frameCount :: int
  pendingReset :: bool
  lastToolRotation :: real
  lastDeletePos :: "(int \<times> int) option"
  modeRequests :: "GameMode list"

section \<open>History manager\<close>

text \<open>
  A history entry is the JSON text of \<open>{settings, objects}\<close>; an entry is never shared
  with the live document. The settings hold strings, an enumeration value and an
  optional boolean, which JSON keeps as they are.
\<close>

definition getCurrentState :: "Engine \<Rightarrow> Snapshot" where
  "getCurrentState s =
     \<lparr> snap_settings = levelSettings s, snap_objects = map stringifyObject (levelData s) \<rparr>"

definition addToHistory :: "Engine \<Rightarrow> Engine" where
  "addToHistory s =
     (let h0 = (if historyIndex s < int (length (history s)) - 1
                then js_slice0 (history s) (historyIndex s + 1) else history s);
          h1 = h0 @ [getCurrentState s];
          i1 = int (length h1) - 1
      in if length h1 > 50
         then s\<lparr> history := tl h1, historyIndex := i1 - 1 \<rparr>
         else s\<lparr> history := h1, historyIndex := i1 \<rparr>)"

text \<open>
  \<open>restoreState\<close> parses the entry. An entry written by \<open>getCurrentState\<close> is an object
  with \<open>objects\<close> and \<open>settings\<close>, so the second branch runs. Reading past the stack
  gives \<open>undefined\<close>, \<open>JSON.parse\<close> throws, and the \<open>catch\<close> leaves the state as it is.
\<close>

definition restoreState :: "Snapshot option \<Rightarrow> Engine \<Rightarrow> Engine" where
  "restoreState stateJson s =
     (case stateJson of
        None \<Rightarrow> s
      | Some state \<Rightarrow>
          s\<lparr> levelData := map parseObject (snap_objects state),
             levelSettings := snap_settings state,
             selectedObjects := [], isPastedSelection := False \<rparr>)"

definition undo :: "Engine \<Rightarrow> Engine" where
  "undo s =
     (if historyIndex s > 0
      then (let s1 = s\<lparr> historyIndex := historyIndex s - 1 \<rparr>
            in restoreState (js_index (history s1) (historyIndex s1)) s1)
      else s)"

definition redo :: "Engine \<Rightarrow> Engine" where
  "redo s =
     (if historyIndex s < int (length (history s)) - 1
      then (let s1 = s\<lparr> historyIndex := historyIndex s + 1 \<rparr>
            in restoreState (js_index (history s1) (historyIndex s1)) s1)
      else s)"

section \<open>Hitboxes and overlap tests\<close>

record Rect =
  r_x :: real
  r_y :: real
  r_w :: real
  r_h :: real

type_synonym Pt = "real \<times> real"

definition getLocalHitbox :: "ObjectType \<Rightarrow> int \<Rightarrow> Rect" where
  "getLocalHitbox t subtype =
     (if t = BLOCK then
        (if subtype = 3 then \<lparr> r_x = 0, r_y = 0, r_w = 40, r_h = 20 \<rparr>
         else \<lparr> r_x = 0, r_y = 0, r_w = 40, r_h = 40 \<rparr>)
      else if t = SPIKE then
        (if subtype = 2 then \<lparr> r_x = 16, r_y = 28, r_w = 8, r_h = 12 \<rparr>
         else if subtype = 3 then \<lparr> r_x = 12, r_y = 24, r_w = 16, r_h = 16 \<rparr>
         else \<lparr> r_x = 13, r_y = 16, r_w = 14, r_h = 24 \<rparr>)
      else if t = PAD then \<lparr> r_x = 5, r_y = 30, r_w = 30, r_h = 10 \<rparr>
      else if t = ORB then \<lparr> r_x = 5, r_y = 5, r_w = 30, r_h = 30 \<rparr>
      else if t = PORTAL then \<lparr> r_x = 5, r_y = - 40, r_w = 30, r_h = 120 \<rparr>
      else if t = DECO then \<lparr> r_x = 0, r_y = 0, r_w = 40, r_h = 40 \<rparr>
      else if t = TRIGGER then \<lparr> r_x = 0, r_y = 0, r_w = 30, r_h = 30 \<rparr>
      else if t = START_POS then \<lparr> r_x = 0, r_y = 0, r_w = 40, r_h = 40 \<rparr>
      else \<lparr> r_x = 0, r_y = 0, r_w = 40, r_h = 40 \<rparr>)"

text \<open>
  \<open>checkPolygonInteract\<close>: the separating-axis test over the edge normals of both
  polygons. The running minimum starts at \<open>Infinity\<close> and the maximum at \<open>-Infinity\<close>;
  \<open>None\<close> stands for the starting value.
\<close>

definition proj :: "Pt \<Rightarrow> Pt \<Rightarrow> real" where
  "proj n p = fst n * fst p + snd n * snd p"

definition minProj :: "Pt \<Rightarrow> Pt list \<Rightarrow> real option" where
  "minProj n poly =
     foldl (\<lambda>m p. case m of None \<Rightarrow> Some (proj n p)
                   | Some u \<Rightarrow> if proj n p < u then Some (proj n p) else Some u) None poly"

definition maxProj :: "Pt \<Rightarrow> Pt list \<Rightarrow> real option" where
  "maxProj n poly =
     foldl (\<lambda>m p. case m of None \<Rightarrow> Some (proj n p)
                   | Some u \<Rightarrow> if proj n p > u then Some (proj n p) else Some u) None poly"

text \<open>\<open>maxA < minB\<close> with \<open>maxA\<close> possibly \<open>-Infinity\<close> and \<open>minB\<close> possibly
  \<open>Infinity\<close>.\<close>

definition max_lt_min :: "real option \<Rightarrow> real option \<Rightarrow> bool" where
  "max_lt_min mx mn = (case mx of None \<Rightarrow> True
                       | Some a \<Rightarrow> (case mn of None \<Rightarrow> True | Some b \<Rightarrow> a < b))"

definition normals :: "Pt list \<Rightarrow> Pt list" where
  "normals polygon =
     map (\<lambda>(p1, p2). (snd p2 - snd p1, fst p1 - fst p2)) (zip polygon (rotate1 polygon))"

definition rectPoly :: "Rect \<Rightarrow> Pt list" where
  "rectPoly r = [(r_x r, r_y r), (r_x r + r_w r, r_y r),
                 (r_x r + r_w r, r_y r + r_h r), (r_x r, r_y r + r_h r)]"

definition checkPolygonInteract :: "Pt list \<Rightarrow> Rect \<Rightarrow> bool" where
  "checkPolygonInteract poly1 rect2 =
     (let poly2 = rectPoly rect2
      in list_all (\<lambda>n. \<not> (max_lt_min (maxProj n poly1) (minProj n poly2)
                          \<or> max_lt_min (maxProj n poly2) (minProj n poly1)))
           (normals poly1 @ normals poly2))"

text \<open>
  The overlap of a rectangle with an object's hitbox, as \<open>checkCollision\<close> computes it
  for the player and the delete tool computes it, with the same code, for the clicked
  cell: plain AABB for an unrotated object, the separating-axis test on the hitbox
  rotated about the tile centre otherwise.
\<close>

definition worldPoints :: "LevelObject \<Rightarrow> real \<Rightarrow> Pt list" where
  "worldPoints obj rot =
     (let hb = getLocalHitbox (o_type obj) (o_subtype obj);
          objX = o_x obj * TILE_SIZE; objY = o_y obj * TILE_SIZE;
          angle = rot * (pi / 180);
          rcx = TILE_SIZE / 2; rcy = TILE_SIZE / 2
      in map (\<lambda>pt. let lx = fst pt - rcx; ly = snd pt - rcy;
                        rx = lx * cos angle - ly * sin angle;
                        ry = lx * sin angle + ly * cos angle
                    in (objX + rcx + rx, objY + rcy + ry))
           (rectPoly hb))"

definition hitboxOverlaps :: "Rect \<Rightarrow> LevelObject \<Rightarrow> bool" where
  "hitboxOverlaps r obj =
     (let hb = getLocalHitbox (o_type obj) (o_subtype obj);
          objX = o_x obj * TILE_SIZE; objY = o_y obj * TILE_SIZE
      in case o_rotation obj of
           None \<Rightarrow> r_x r < objX + r_x hb + r_w hb \<and> r_x r + r_w r > objX + r_x hb
                   \<and> r_y r < objY + r_y hb + r_h hb \<and> r_y r + r_h r > objY + r_y hb
         | Some rot \<Rightarrow>
             if rot = 0
             then r_x r < objX + r_x hb + r_w hb \<and> r_x r + r_w r > objX + r_x hb
                  \<and> r_y r < objY + r_y hb + r_h hb \<and> r_y r + r_h r > objY + r_y hb
             else checkPolygonInteract (worldPoints obj rot) r)"

definition playerRect :: "Player \<Rightarrow> Rect" where
  "playerRect p = \<lparr> r_x = p_x p, r_y = p_y p, r_w = p_w p, r_h = p_h p \<rparr>"

definition checkCollision :: "Player \<Rightarrow> LevelObject \<Rightarrow> bool" where
  "checkCollision p obj = hitboxOverlaps (playerRect p) obj"

section \<open>Selection, clipboard and editing operations\<close>

text \<open>\<open>notifySelection\<close> and \<open>notifyHistory\<close> call back into the user interface and
  change nothing in the engine; they are not modelled. \<open>Math.random\<close> ids are
  supplied by the caller of the model.\<close>

definition copySelection :: "Engine \<Rightarrow> Engine" where
  "copySelection s =
     (if selectedObjects s = [] then s
      else s\<lparr> clipboard :=
               map (\<lambda>ob. parseObject (stringifyObject ob))
                 (filter (\<lambda>ob. o_id ob \<in> set (selectedObjects s)) (levelData s)) \<rparr>)"

definition pasteSelection :: "(nat \<Rightarrow> string) \<Rightarrow> Engine \<Rightarrow> Engine" where
  "pasteSelection newId s =
     (if clipboard s = [] then s
      else
        (let newObjs = map (\<lambda>(i, obj). obj\<lparr> o_id := newId i \<rparr>) (enumerate 0 (clipboard s));
             newIds = foldl set_add [] (map o_id newObjs)
         in addToHistory (s\<lparr> levelData := levelData s @ newObjs,
                              selectedObjects := newIds,
                              isPastedSelection := True \<rparr>)))"

text \<open>\<open>new Map(entries)\<close>: keys in order of first insertion, each with its last value.\<close>

definition map_set :: "(string \<times> LevelObject) list \<Rightarrow> string \<times> LevelObject
    \<Rightarrow> (string \<times> LevelObject) list" where
  "map_set m kv =
     (if fst kv \<in> fst ` set m
      then map (\<lambda>e. if fst e = fst kv then kv else e) m
      else m @ [kv])"

definition newIdMap :: "LevelObject list \<Rightarrow> (string \<times> LevelObject) list" where
  "newIdMap objs = foldl map_set [] (map (\<lambda>ob. (o_id ob, ob)) objs)"

definition clampStep :: "(string \<times> LevelObject) list \<Rightarrow> real \<Rightarrow> string \<Rightarrow> real" where
  "clampStep idMap adjustedDx i =
     (case map_of idMap i of
        None \<Rightarrow> adjustedDx
      | Some obj \<Rightarrow>
          if o_type obj = START_POS \<and> o_x obj + adjustedDx < 0 then - o_x obj
          else adjustedDx)"

definition adjustedDx :: "Engine \<Rightarrow> real \<Rightarrow> real" where
  "adjustedDx s dx = foldl (clampStep (newIdMap (levelData s))) dx (selectedObjects s)"

definition moveObj :: "real \<Rightarrow> real \<Rightarrow> LevelObject \<Rightarrow> LevelObject" where
  "moveObj adx dy obj =
     obj\<lparr> o_x := roundCents (o_x obj + adx), o_y := roundCents (o_y obj + dy) \<rparr>"

definition moveSelectionInternal :: "real \<Rightarrow> real \<Rightarrow> Engine \<Rightarrow> Engine" where
  "moveSelectionInternal dx dy s =
     (let idMap = newIdMap (levelData s);
          adx = adjustedDx s dx;
          moved = (\<exists>i \<in> set (selectedObjects s). map_of idMap i \<noteq> None)
      in if moved
         then addToHistory
                (s\<lparr> levelData :=
                      map (\<lambda>(k, obj). if k \<in> set (selectedObjects s)
                                       then moveObj adx dy obj else obj) idMap \<rparr>)
         else s)"

definition deleteSelection :: "Engine \<Rightarrow> Engine" where
  "deleteSelection s =
     addToHistory
       (s\<lparr> levelData := filter (\<lambda>ob. o_id ob \<notin> set (selectedObjects s)) (levelData s),
           selectedObjects := [] \<rparr>)"

definition deselectAll :: "Engine \<Rightarrow> Engine" where
  "deselectAll s = s\<lparr> selectedObjects := [], lastToolRotation := 0 \<rparr>"

definition clearLevel :: "Engine \<Rightarrow> Engine" where
  "clearLevel s = addToHistory (s\<lparr> levelData := [], selectedObjects := [] \<rparr>)"

definition duplicateSelection :: "(nat \<Rightarrow> string) \<Rightarrow> Engine \<Rightarrow> Engine" where
  "duplicateSelection newId s = pasteSelection newId (copySelection s)"

definition mergeSettings :: "LevelSettings \<Rightarrow> SettingsPatch \<Rightarrow> LevelSettings" where
  "mergeSettings base n =
     \<lparr> bgColorTop = (case sp_bgColorTop n of None \<Rightarrow> bgColorTop base | Some v \<Rightarrow> v),
       bgColorBottom = (case sp_bgColorBottom n of None \<Rightarrow> bgColorBottom base | Some v \<Rightarrow> v),
       groundColor = (case sp_groundColor n of None \<Rightarrow> groundColor base | Some v \<Rightarrow> v),
       lineColor = (case sp_lineColor n of None \<Rightarrow> lineColor base | Some v \<Rightarrow> v),
       startMode = (case sp_startMode n of None \<Rightarrow> startMode base | Some v \<Rightarrow> v),
       startReverseGravity =
         (case sp_startReverseGravity n of None \<Rightarrow> startReverseGravity base | Some v \<Rightarrow> v) \<rparr>"

text \<open>\<open>{ ...levelSettings.current }\<close> as the new display settings, and
  \<open>{ ...displaySettings.current, ...newSettings }\<close>.\<close>

definition displayOf :: "LevelSettings \<Rightarrow> DisplaySettings" where
  "displayOf st =
     \<lparr> d_bgColorTop = Some (bgColorTop st), d_bgColorBottom = Some (bgColorBottom st),
       d_groundColor = Some (groundColor st), d_lineColor = Some (lineColor st),
       d_startMode = startMode st, d_startReverseGravity = startReverseGravity st,
       d_undefined = None \<rparr>"

definition mergeDisplay :: "DisplaySettings \<Rightarrow> SettingsPatch \<Rightarrow> DisplaySettings" where
  "mergeDisplay base n =
     base\<lparr> d_bgColorTop := (case sp_bgColorTop n of None \<Rightarrow> d_bgColorTop base | Some v \<Rightarrow> Some v),
           d_bgColorBottom :=
             (case sp_bgColorBottom n of None \<Rightarrow> d_bgColorBottom base | Some v \<Rightarrow> Some v),
           d_groundColor := (case sp_groundColor n of None \<Rightarrow> d_groundColor base | Some v \<Rightarrow> Some v),
           d_lineColor := (case sp_lineColor n of None \<Rightarrow> d_lineColor base | Some v \<Rightarrow> Some v),
           d_startMode := (case sp_startMode n of None \<Rightarrow> d_startMode base | Some v \<Rightarrow> v),
           d_startReverseGravity :=
             (case sp_startReverseGravity n of None \<Rightarrow> d_startReverseGravity base
              | Some v \<Rightarrow> v) \<rparr>"

text \<open>What \<open>setLevel\<close> is given: an array of objects (the legacy format), an object with
  an \<open>objects\<close> array and possibly \<open>settings\<close>, or anything else.\<close>

datatype LevelInput =
  InArray "LevelObject list"
| InObject "LevelObject list" "SettingsPatch option"
| InOther

definition setLevel :: "LevelInput \<Rightarrow> bool \<Rightarrow> Engine \<Rightarrow> Engine" where
  "setLevel data keepHistory s =
     (let s1 = (case data of
                  InArray objs \<Rightarrow>
                    s\<lparr> levelData := objs, levelSettings := DEFAULT_LEVEL_SETTINGS \<rparr>
                | InObject objs st \<Rightarrow>
                    s\<lparr> levelData := objs,
                       levelSettings := (case st of None \<Rightarrow> DEFAULT_LEVEL_SETTINGS
                                         | Some n \<Rightarrow> mergeSettings DEFAULT_LEVEL_SETTINGS n) \<rparr>
                | InOther \<Rightarrow>
                    s\<lparr> levelData := [], levelSettings := DEFAULT_LEVEL_SETTINGS \<rparr>);
          s2 = s1\<lparr> displaySettings := displayOf (levelSettings s1), selectedObjects := [],
                  isPastedSelection := False \<rparr>
      in if keepHistory then addToHistory s2
         else s2\<lparr> history := [getCurrentState s2], historyIndex := 0 \<rparr>)"

definition updateSettings :: "SettingsPatch \<Rightarrow> Engine \<Rightarrow> Engine" where
  "updateSettings newSettings s =
     addToHistory (s\<lparr> levelSettings := mergeSettings (levelSettings s) newSettings,
                      displaySettings := mergeDisplay (displaySettings s) newSettings \<rparr>)"

text \<open>\<open>{ ...old, ...data }\<close>: spreading \<open>undefined\<close> contributes nothing, so an object
  without trigger data receives exactly the fields of \<open>data\<close>.\<close>

definition mergeTrigger :: "TriggerData option \<Rightarrow> TriggerData \<Rightarrow> TriggerData" where
  "mergeTrigger old d =
     (case old of
        None \<Rightarrow> d
      | Some t \<Rightarrow>
          \<lparr> target = (case target d of None \<Rightarrow> target t | Some v \<Rightarrow> Some v),
            color = (case color d of None \<Rightarrow> color t | Some v \<Rightarrow> Some v),
            duration = (case duration d of None \<Rightarrow> duration t | Some v \<Rightarrow> Some v),
            touchTrigger = (case touchTrigger d of None \<Rightarrow> touchTrigger t | Some v \<Rightarrow> Some v) \<rparr>)"

definition mergeStartPos :: "StartPosData option \<Rightarrow> StartPosData \<Rightarrow> StartPosData" where
  "mergeStartPos old d =
     (case old of
        None \<Rightarrow> d
      | Some t \<Rightarrow>
          \<lparr> spmode = (case spmode d of None \<Rightarrow> spmode t | Some v \<Rightarrow> Some v),
            reverseGravity = (case reverseGravity d of None \<Rightarrow> reverseGravity t | Some v \<Rightarrow> Some v),
            enabled = (case enabled d of None \<Rightarrow> enabled t | Some v \<Rightarrow> Some v) \<rparr>)"

text \<open>\<open>findIndex\<close>: the first position holding the id, if any.\<close>

fun findIndex :: "string option \<Rightarrow> LevelObject list \<Rightarrow> nat option" where
  "findIndex i [] = None"
| "findIndex i (o1 # os) =
     (if Some (o_id o1) = i then Some 0
      else (case findIndex i os of None \<Rightarrow> None | Some k \<Rightarrow> Some (Suc k)))"

definition updateSelectedTrigger :: "TriggerData \<Rightarrow> Engine \<Rightarrow> Engine" where
  "updateSelectedTrigger data s =
     (case findIndex (set_first (selectedObjects s)) (levelData s) of
        None \<Rightarrow> s
      | Some objIndex \<Rightarrow>
          addToHistory
            (s\<lparr> levelData := (levelData s)
                  [objIndex := (levelData s ! objIndex)
                     \<lparr> o_triggerData :=
                         Some (mergeTrigger (o_triggerData (levelData s ! objIndex)) data) \<rparr>] \<rparr>))"

definition updateSelectedStartPos :: "StartPosData \<Rightarrow> Engine \<Rightarrow> Engine" where
  "updateSelectedStartPos data s =
     (case findIndex (set_first (selectedObjects s)) (levelData s) of
        None \<Rightarrow> s
      | Some objIndex \<Rightarrow>
          addToHistory
            (s\<lparr> levelData := (levelData s)
                  [objIndex := (levelData s ! objIndex)
                     \<lparr> o_startPosData :=
                         Some (mergeStartPos (o_startPosData (levelData s ! objIndex)) data) \<rparr>] \<rparr>))"

text \<open>\<open>obj.rotation || 0\<close>.\<close>

definition rotationOr0 :: "LevelObject \<Rightarrow> real" where
  "rotationOr0 obj = (case o_rotation obj of None \<Rightarrow> 0 | Some r \<Rightarrow> r)"

text \<open>The new rotation of the single-selection path of \<open>rotateSelection\<close>.\<close>

definition singleRotation :: "LevelObject \<Rightarrow> real \<Rightarrow> bool \<Rightarrow> real" where
  "singleRotation obj angle relative =
     (let newRot0 = (if relative then rotationOr0 obj + angle else angle);
          newRot1 = js_rem newRot0 360;
          newRot2 = (if newRot1 < 0 then newRot1 + 360 else newRot1)
      in if o_type obj = BLOCK then js_round (newRot2 / 90) * 90 else newRot2)"

definition multiRotate :: "real \<Rightarrow> real \<Rightarrow> real \<Rightarrow> LevelObject \<Rightarrow> LevelObject" where
  "multiRotate centerX centerY angle obj =
     (let rad = (angle * pi) / 180;
          dx = (o_x obj + 1 / 2) - centerX;
          dy = (o_y obj + 1 / 2) - centerY;
          rDx = dx * cos rad - dy * sin rad;
          rDy = dx * sin rad + dy * cos rad;
          newX = (centerX + rDx) - 1 / 2;
          newY = (centerY + rDy) - 1 / 2;
          newRot1 = js_rem (rotationOr0 obj + angle) 360;
          newRot2 = (if newRot1 < 0 then newRot1 + 360 else newRot1)
      in obj\<lparr> o_x := roundCents newX,
              o_y := roundCents newY,
              o_rotation := Some newRot2 \<rparr>)"

definition rotateSelection :: "real \<Rightarrow> bool \<Rightarrow> Engine \<Rightarrow> Engine" where
  "rotateSelection angle relative s =
     (let ids = selectedObjects s
      in if length ids = 0 then s
         else if length ids = 1 then
           (let s1 = (case find (\<lambda>ob. Some (o_id ob) = set_first ids) (levelData s) of
                        None \<Rightarrow> s
                      | Some obj \<Rightarrow> s\<lparr> lastToolRotation := singleRotation obj angle relative \<rparr>)
            in addToHistory
                 (s1\<lparr> levelData :=
                        map (\<lambda>obj. if o_id obj \<in> set ids
                                    then obj\<lparr> o_rotation := Some (singleRotation obj angle relative) \<rparr>
                                    else obj) (levelData s1) \<rparr>))
         else
           (case filter (\<lambda>ob. o_id ob \<in> set ids) (levelData s) of
              [] \<Rightarrow> addToHistory s
            | c # cs \<Rightarrow>
                (let minX = foldl min (o_x c + 1 / 2) (map (\<lambda>ob. o_x ob + 1 / 2) cs);
                     maxX = foldl max (o_x c + 1 / 2) (map (\<lambda>ob. o_x ob + 1 / 2) cs);
                     minY = foldl min (o_y c + 1 / 2) (map (\<lambda>ob. o_y ob + 1 / 2) cs);
                     maxY = foldl max (o_y c + 1 / 2) (map (\<lambda>ob. o_y ob + 1 / 2) cs);
                     centerX = (minX + maxX) / 2;
                     centerY = (minY + maxY) / 2
                 in addToHistory
                      (s\<lparr> levelData :=
                            map (\<lambda>obj. if o_id obj \<in> set ids
                                        then multiRotate centerX centerY angle obj else obj)
                              (levelData s) \<rparr>))))"

subsection \<open>The editor click handler\<close>

text \<open>The selection tool: a short drag is a click on the plain grid cell, a longer one
  selects every object whose cell centre lies in the rectangle.\<close>

definition selectRelease :: "real \<Rightarrow> real \<Rightarrow> bool \<Rightarrow> Engine \<Rightarrow> Engine" where
  "selectRelease worldX worldY shiftKey s =
     (case boxSelectStart s of
        None \<Rightarrow> s
      | Some (startX, startY) \<Rightarrow>
          (let minX = min startX worldX; maxX = max startX worldX;
               minY = min startY worldY; maxY = max startY worldY;
               sel0 = (if \<not> shiftKey then [] else selectedObjects s);
               sel1 =
                 (if \<bar>worldX - startX\<bar> < 10 \<and> \<bar>worldY - startY\<bar> < 10
                  then
                    (case find (\<lambda>ob. worldX \<ge> o_x ob * TILE_SIZE \<and> worldX < (o_x ob + 1) * TILE_SIZE
                                    \<and> worldY \<ge> o_y ob * TILE_SIZE \<and> worldY < (o_y ob + 1) * TILE_SIZE)
                            (levelData s) of
                       None \<Rightarrow> sel0
                     | Some clickedObj \<Rightarrow>
                         if o_id clickedObj \<in> set sel0 then set_delete sel0 (o_id clickedObj)
                         else set_add sel0 (o_id clickedObj))
                  else
                    foldl (\<lambda>acc ob.
                             let ox = o_x ob * TILE_SIZE + TILE_SIZE / 2;
                                 oy = o_y ob * TILE_SIZE + TILE_SIZE / 2
                             in if ox \<ge> minX \<and> ox \<le> maxX \<and> oy \<ge> minY \<and> oy \<le> maxY
                                then set_add acc (o_id ob) else acc)
                      sel0 (levelData s))
           in s\<lparr> selectedObjects := sel1, boxSelectStart := None \<rparr>))"

text \<open>The delete tool walks the objects from the last placed to the first and removes
  the first one whose hitbox overlaps the clicked cell.\<close>

fun deleteTopmost :: "Rect \<Rightarrow> LevelObject list \<Rightarrow> LevelObject list option" where
  "deleteTopmost r [] = None"
| "deleteTopmost r (obj # rest) =
     (case deleteTopmost r rest of
        Some rest' \<Rightarrow> Some (obj # rest')
      | None \<Rightarrow> if hitboxOverlaps r obj then Some rest else None)"

definition deleteClick :: "int \<Rightarrow> int \<Rightarrow> bool \<Rightarrow> Engine \<Rightarrow> Engine" where
  "deleteClick gridX gridY isDrag s =
     (if isDrag \<and> lastDeletePos s = Some (gridX, gridY) then s
      else
        (let clickRect = \<lparr> r_x = of_int gridX * TILE_SIZE, r_y = of_int gridY * TILE_SIZE,
                           r_w = TILE_SIZE, r_h = TILE_SIZE \<rparr>
         in case deleteTopmost clickRect (levelData s) of
              None \<Rightarrow> s
            | Some objs \<Rightarrow>
                (addToHistory (s\<lparr> levelData := objs \<rparr>))\<lparr> lastDeletePos := Some (gridX, gridY) \<rparr>))"

definition defaultTriggerData :: TriggerData where
  "defaultTriggerData =
     \<lparr> target = Some T_bgColorTop, color = Some ''#ff0000'', duration = Some (1 / 2),
       touchTrigger = Some False \<rparr>"

definition defaultStartPosData :: StartPosData where
  "defaultStartPosData = \<lparr> spmode = Some CUBE, reverseGravity = Some False, enabled = Some True \<rparr>"

definition placeClick :: "int \<Rightarrow> int \<Rightarrow> string \<Rightarrow> Engine \<Rightarrow> Engine" where
  "placeClick gridX gridY newId s =
     (let existing = find (\<lambda>ob. o_x ob = of_int gridX \<and> o_y ob = of_int gridY) (levelData s);
          tool = selectedToolRef s
      in if fst tool = START_POS \<and> gridX < 0 then s
         else if existing = None \<or> fst tool = START_POS then
           addToHistory
             (s\<lparr> levelData := levelData s @
                    [\<lparr> o_id = newId, o_x = of_int gridX, o_y = of_int gridY,
                       o_type = fst tool, o_subtype = snd tool,
                       o_rotation = Some (lastToolRotation s),
                       o_triggerData = (if fst tool = TRIGGER then Some defaultTriggerData else None),
                       o_startPosData =
                         (if fst tool = START_POS then Some defaultStartPosData else None) \<rparr>],
                 selectedObjects := [newId] \<rparr>)
         else s)"

text \<open>\<open>handleEditorClick(e, isDrag)\<close>; of the event it reads \<open>clientX\<close>, \<open>clientY\<close> and
  \<open>shiftKey\<close>. \<open>newId\<close> is the id \<open>Math.random\<close> would give a placed object.\<close>

definition handleEditorClick :: "real \<Rightarrow> real \<Rightarrow> bool \<Rightarrow> bool \<Rightarrow> string \<Rightarrow> Engine \<Rightarrow> Engine" where
  "handleEditorClick clientX clientY shiftKey isDrag newId s =
     (let s0 = (if isPastedSelection s then s\<lparr> isPastedSelection := False \<rparr> else s);
          worldX = clientX / zoom (camera s0) + cam_x (camera s0);
          worldY = clientY / zoom (camera s0) + cam_y (camera s0);
          gridX = \<lfloor>worldX / TILE_SIZE\<rfloor>;
          gridY = \<lfloor>worldY / TILE_SIZE\<rfloor>
      in if fst (selectedToolRef s0) = TOOL then selectRelease worldX worldY shiftKey s0
         else if fst (selectedToolRef s0) = DELETE then deleteClick gridX gridY isDrag s0
         else placeClick gridX gridY newId s0)"

text \<open>The effects that copy the \<open>selectedTool\<close> and \<open>mode\<close> props into the refs.\<close>

definition syncSelectedTool :: "ObjectType \<times> int \<Rightarrow> Engine \<Rightarrow> Engine" where
  "syncSelectedTool tool s = s\<lparr> selectedToolRef := tool, lastToolRotation := 0 \<rparr>"

definition syncMode :: "GameMode \<Rightarrow> Engine \<Rightarrow> Engine" where
  "syncMode m s =
     s\<lparr> modeRef := m, keySpace := False, keyArrowUp := False, mouseIsDown := False,
        prevInputState := False, hasInputUsed := False \<rparr>"

section \<open>Player reset\<close>

text \<open>
  \<open>Array.prototype.sort\<close> with a comparator. For a comparator that orders the elements
  consistently the result is fixed by the language: the stable sorted arrangement.
  Insertion from left to right computes it; for an inconsistent comparator the language
  leaves the order to the implementation, and the model is then one admissible choice.
\<close>

fun insert_by :: "('a \<Rightarrow> 'a \<Rightarrow> real) \<Rightarrow> 'a \<Rightarrow> 'a list \<Rightarrow> 'a list" where
  "insert_by cmp a [] = [a]"
| "insert_by cmp a (b # bs) = (if cmp a b < 0 then a # b # bs else b # insert_by cmp a bs)"

definition js_sort :: "('a \<Rightarrow> 'a \<Rightarrow> real) \<Rightarrow> 'a list \<Rightarrow> 'a list" where
  "js_sort cmp xs = foldl (\<lambda>acc a. insert_by cmp a acc) [] xs"

definition startPosCompare :: "LevelObject \<times> nat \<Rightarrow> LevelObject \<times> nat \<Rightarrow> real" where
  "startPosCompare a b =
     (if \<bar>o_x (fst a) - o_x (fst b)\<bar> > 1 / 100 then o_x (fst a) - o_x (fst b)
      else real_of_int (int (snd b) - int (snd a)))"

definition isEnabledStartPos :: "LevelObject \<Rightarrow> bool" where
  "isEnabledStartPos obj =
     (o_type obj = START_POS \<and>
      (case o_startPosData obj of None \<Rightarrow> False | Some d \<Rightarrow> enabled d = Some True))"

definition startPositions :: "LevelObject list \<Rightarrow> (LevelObject \<times> nat) list" where
  "startPositions objs =
     filter (\<lambda>item. isEnabledStartPos (fst item)) (zip objs [0 ..< length objs])"

text \<open>The start position a playtest reset spawns at, \<open>None\<close> for the default spawn.\<close>

definition bestStartPos :: "LevelObject list \<Rightarrow> LevelObject option" where
  "bestStartPos objs =
     (case js_sort startPosCompare (startPositions objs) of
        [] \<Rightarrow> None
      | best # _ \<Rightarrow> Some (fst best))"

definition resetPlayerInternal :: "real \<Rightarrow> bool \<Rightarrow> Engine \<Rightarrow> Engine" where
  "resetPlayerInternal innerWidth forVerify s =
     (let best = (if forVerify then None else bestStartPos (levelData s));
          startX = (case best of None \<Rightarrow> 0 | Some b \<Rightarrow> o_x b * TILE_SIZE);
          startY = (case best of None \<Rightarrow> 11 * TILE_SIZE | Some b \<Rightarrow> o_y b * TILE_SIZE);
          startVehicle =
            (case best of None \<Rightarrow> Some (startMode (levelSettings s))
             | Some b \<Rightarrow> (case o_startPosData b of None \<Rightarrow> None | Some d \<Rightarrow> spmode d));
          startGravityReversed =
            (case best of None \<Rightarrow> (startReverseGravity (levelSettings s) = Some True)
             | Some b \<Rightarrow> (case o_startPosData b of None \<Rightarrow> False
                          | Some d \<Rightarrow> reverseGravity d = Some True));
          ceil = (if startVehicle = Some SHIP then FLOOR_Y - 10 * TILE_SIZE else - 99999);
          maxX = foldl (\<lambda>m b. max m (o_x b * TILE_SIZE)) 0 (levelData s)
      in s\<lparr> selectedObjects := [],
            player := \<lparr> p_x = startX, p_y = startY, p_w = 36, p_h = 36,
                        p_vx = PLAYER_SPEED, p_vy = 0, p_rotation = 0,
                        p_onGround = True, p_dead = False, p_finished = False,
                        p_vehicle = startVehicle, p_gravityReversed = startGravityReversed \<rparr>,
            usedObjectIds := {},
            camera := (camera s)\<lparr> cam_x := (if forVerify then 0 else startX - 200) \<rparr>,
            isSuckedIntoWall := False,
            activeFloorY := FLOOR_Y, targetFloorY := FLOOR_Y,
            displaySettings := displayOf (levelSettings s),
            activeEffects := [], triggeredIds := {}, frameCount := 0,
            activeCeilingY := ceil, targetCeilingY := ceil,
            keySpace := False, keyArrowUp := False, keyW := False, keyS := False,
            keyA := False, keyD := False, mouseIsDown := False,
            prevInputState := False, hasInputUsed := False,
            finishWallX := max (maxX + 800) (innerWidth * (3 / 2)) \<rparr>)"

section \<open>Colour interpolation\<close>

text \<open>
  \<open>parseInt(str, 16)\<close>: leading white space, an optional sign and an optional \<open>0x\<close>
  are skipped, then the longest run of hexadecimal digits is read; \<open>None\<close> is \<open>NaN\<close>.
\<close>

definition hexDigit :: "char \<Rightarrow> int option" where
  "hexDigit c = map_of
     [(CHR ''0'', 0), (CHR ''1'', 1), (CHR ''2'', 2), (CHR ''3'', 3), (CHR ''4'', 4),
      (CHR ''5'', 5), (CHR ''6'', 6), (CHR ''7'', 7), (CHR ''8'', 8), (CHR ''9'', 9),
      (CHR ''a'', 10), (CHR ''b'', 11), (CHR ''c'', 12), (CHR ''d'', 13), (CHR ''e'', 14),
      (CHR ''f'', 15), (CHR ''A'', 10), (CHR ''B'', 11), (CHR ''C'', 12), (CHR ''D'', 13),
      (CHR ''E'', 14), (CHR ''F'', 15)] c"

definition isWhite :: "char \<Rightarrow> bool" where
  "isWhite c = (c \<in> set [CHR '' '', CHR 0x09, CHR 0x0A, CHR 0x0B, CHR 0x0C, CHR 0x0D])"

definition hexDigits :: "string \<Rightarrow> int option" where
  "hexDigits str =
     (case takeWhile (\<lambda>c. hexDigit c \<noteq> None) str of
        [] \<Rightarrow> None
      | ds \<Rightarrow> Some (foldl (\<lambda>acc c. 16 * acc + (case hexDigit c of None \<Rightarrow> 0 | Some d \<Rightarrow> d)) 0 ds))"

definition strip0x :: "string \<Rightarrow> string" where
  "strip0x str =
     (case str of
        a # b # rest \<Rightarrow> if a = CHR ''0'' \<and> (b = CHR ''x'' \<or> b = CHR ''X'') then rest else str
      | _ \<Rightarrow> str)"

definition parseInt16 :: "string \<Rightarrow> int option" where
  "parseInt16 str =
     (case dropWhile isWhite str of
        [] \<Rightarrow> None
      | c # rest \<Rightarrow>
          if c = CHR ''-'' then map_option uminus (hexDigits (strip0x rest))
          else if c = CHR ''+'' then hexDigits (strip0x rest)
          else hexDigits (strip0x (c # rest)))"

text \<open>\<open>n.toString(16)\<close> for an integer and \<open>padStart(2, '0')\<close>.\<close>

definition digitChar :: "nat \<Rightarrow> char" where
  "digitChar d = ''0123456789abcdef'' ! d"

fun natToHex :: "nat \<Rightarrow> string" where
  "natToHex n = (if n < 16 then [digitChar n] else natToHex (n div 16) @ [digitChar (n mod 16)])"

declare natToHex.simps [simp del]

definition toString16 :: "int \<Rightarrow> string" where
  "toString16 n = (if n < 0 then CHR ''-'' # natToHex (nat (- n)) else natToHex (nat n))"

definition padStart2 :: "string \<Rightarrow> string" where
  "padStart2 str = replicate (2 - length str) CHR ''0'' @ str"

definition substring :: "string \<Rightarrow> nat \<Rightarrow> nat \<Rightarrow> string" where
  "substring str a b = take (b - a) (drop a str)"

text \<open>One colour component: \<open>Math.round(r1 + (r2 - r1) * factor)\<close> printed in base 16;
  \<open>NaN\<close> prints as \<open>NaN\<close>.\<close>

definition mixComponent :: "int option \<Rightarrow> int option \<Rightarrow> real \<Rightarrow> string" where
  "mixComponent c1 c2 factor =
     (case c1 of
        None \<Rightarrow> ''NaN''
      | Some r1 \<Rightarrow>
          (case c2 of
             None \<Rightarrow> ''NaN''
           | Some r2 \<Rightarrow>
               padStart2 (toString16 \<lfloor>of_int r1 + (of_int r2 - of_int r1) * factor + 1 / 2\<rfloor>)))"

definition hexOf :: "string \<Rightarrow> string" where
  "hexOf c = (case c of [] \<Rightarrow> ''#000000'' | a # _ \<Rightarrow> if a = CHR ''#'' then c else ''#000000'')"

definition interpolateColor :: "string \<Rightarrow> string \<Rightarrow> real \<Rightarrow> string" where
  "interpolateColor color1 color2 factor =
     (let c1 = hexOf color1; c2 = hexOf color2
      in CHR ''#'' #
         mixComponent (parseInt16 (substring c1 1 3)) (parseInt16 (substring c2 1 3)) factor @
         mixComponent (parseInt16 (substring c1 3 5)) (parseInt16 (substring c2 3 5)) factor @
         mixComponent (parseInt16 (substring c1 5 7)) (parseInt16 (substring c2 5 7)) factor)"

text \<open>\<open>interpolateColor\<close> called with a colour that may be \<open>undefined\<close>: the helper
  \<open>hex\<close> calls \<open>startsWith\<close> on it, which throws a \<open>TypeError\<close>. \<open>None\<close> is the throw.\<close>

definition interpolateColorCall :: "string option \<Rightarrow> string option \<Rightarrow> real \<Rightarrow> string option" where
  "interpolateColorCall color1 color2 factor =
     (case color1 of
        None \<Rightarrow> None
      | Some c1 \<Rightarrow> (case color2 of None \<Rightarrow> None | Some c2 \<Rightarrow> Some (interpolateColor c1 c2 factor)))"

text \<open>\<open>settings[key]\<close> and \<open>{ ...settings, [key]: value }\<close>; the key \<open>None\<close> is the
  property named \<open>undefined\<close>.\<close>

definition getChannel :: "TriggerTarget option \<Rightarrow> DisplaySettings \<Rightarrow> string option" where
  "getChannel k st =
     (case k of
        None \<Rightarrow> d_undefined st
      | Some T_bgColorTop \<Rightarrow> d_bgColorTop st
      | Some T_bgColorBottom \<Rightarrow> d_bgColorBottom st
      | Some T_groundColor \<Rightarrow> d_groundColor st
      | Some T_lineColor \<Rightarrow> d_lineColor st)"

definition setChannel :: "TriggerTarget option \<Rightarrow> string option \<Rightarrow> DisplaySettings \<Rightarrow> DisplaySettings" where
  "setChannel k c st =
     (case k of
        None \<Rightarrow> st\<lparr> d_undefined := c \<rparr>
      | Some T_bgColorTop \<Rightarrow> st\<lparr> d_bgColorTop := c \<rparr>
      | Some T_bgColorBottom \<Rightarrow> st\<lparr> d_bgColorBottom := c \<rparr>
      | Some T_groundColor \<Rightarrow> st\<lparr> d_groundColor := c \<rparr>
      | Some T_lineColor \<Rightarrow> st\<lparr> d_lineColor := c \<rparr>)"

text \<open>A trigger fires: it joins the fired set and, with \<open>(duration || 0) * 60\<close> frames
  of duration, either writes its colour at once or pushes an effect that starts from the
  colour now shown.\<close>

definition activateTrigger :: "LevelObject \<Rightarrow> TriggerData \<Rightarrow> Engine \<Rightarrow> Engine" where
  "activateTrigger obj td s =
     (let s1 = s\<lparr> triggeredIds := insert (o_id obj) (triggeredIds s) \<rparr>;
          durationFrames = (case duration td of None \<Rightarrow> 0 | Some d \<Rightarrow> d) * 60
      in if durationFrames = 0
         then s1\<lparr> displaySettings := setChannel (target td) (color td) (displaySettings s1) \<rparr>
         else s1\<lparr> activeEffects := activeEffects s1 @
                   [\<lparr> e_target = target td,
                      e_startColor = getChannel (target td) (displaySettings s1),
                      e_endColor = color td,
                      e_startTime = frameCount s1,
                      e_duration = durationFrames \<rparr>] \<rparr>)"

text \<open>A callback that runs to its end, or is left by an exception with the engine in the
  given state.\<close>

datatype 'a Outcome = Done 'a | Throws 'a

text \<open>One live effect writes its colour; \<open>None\<close> when \<open>interpolateColor\<close> throws. The loop
  over the live effects stops at the first throw and keeps the colours written before.\<close>

definition applyEffect :: "int \<Rightarrow> DisplaySettings \<Rightarrow> ColorEffect \<Rightarrow> DisplaySettings option" where
  "applyEffect fc ds eff =
     (let progress = (of_int fc - of_int (e_startTime eff)) / e_duration eff;
          clampedProgress = min 1 (max 0 progress)
      in case interpolateColorCall (e_startColor eff) (e_endColor eff) clampedProgress of
           None \<Rightarrow> None
         | Some newColor \<Rightarrow> Some (setChannel (e_target eff) (Some newColor) ds))"

fun applyEffects :: "int \<Rightarrow> DisplaySettings \<Rightarrow> ColorEffect list \<Rightarrow> DisplaySettings Outcome" where
  "applyEffects fc ds [] = Done ds"
| "applyEffects fc ds (eff # effs) =
     (case applyEffect fc ds eff of
        None \<Rightarrow> Throws ds
      | Some ds' \<Rightarrow> applyEffects fc ds' effs)"

text \<open>The editor preview: the colours at the camera centre, from the positional triggers
  to its left in ascending x. A trigger without a duration has a fade length of \<open>NaN\<close>,
  which is not above 0. \<open>None\<close> when \<open>interpolateColor\<close> throws.\<close>

definition previewStep :: "real \<Rightarrow> DisplaySettings \<Rightarrow> LevelObject \<Rightarrow> DisplaySettings option" where
  "previewStep centerX sim t =
     (case o_triggerData t of
        None \<Rightarrow> Some sim
      | Some td \<Rightarrow>
          if touchTrigger td = Some True then Some sim
          else
            (let triggerX = o_x t * TILE_SIZE + TILE_SIZE / 2;
                 distance = centerX - triggerX;
                 progress =
                   (case duration td of
                      None \<Rightarrow> 1
                    | Some d \<Rightarrow>
                        if d * 60 * PLAYER_SPEED > 0
                        then min 1 (max 0 (distance / (d * 60 * PLAYER_SPEED))) else 1)
             in case interpolateColorCall (getChannel (target td) sim) (color td) progress of
                  None \<Rightarrow> None
                | Some c \<Rightarrow> Some (setChannel (target td) (Some c) sim)))"

fun previewLoop :: "real \<Rightarrow> DisplaySettings \<Rightarrow> LevelObject list \<Rightarrow> DisplaySettings option" where
  "previewLoop centerX sim [] = Some sim"
| "previewLoop centerX sim (t # ts) =
     (case previewStep centerX sim t of
        None \<Rightarrow> None
      | Some sim' \<Rightarrow> previewLoop centerX sim' ts)"

definition previewColors :: "real \<Rightarrow> Engine \<Rightarrow> DisplaySettings option" where
  "previewColors width s =
     (let centerX = cam_x (camera s) + (width / zoom (camera s)) / 2;
          relevantTriggers =
            js_sort (\<lambda>a b. o_x a - o_x b)
              (filter (\<lambda>ob. o_type ob = TRIGGER \<and> o_triggerData ob \<noteq> None
                             \<and> o_x ob * TILE_SIZE < centerX) (levelData s))
      in previewLoop centerX (displayOf (levelSettings s)) relevantTriggers)"

text \<open>The colour block of the frame callback \<open>update\<close>; it runs before \<open>updatePhysics\<close>
  in the same frame. (The preview divides by the zoom read at the top of the callback;
  in the editor nothing changes the zoom in between.) The preview assigns the display
  settings after its loop, so a throw leaves them as they were.\<close>

definition updateColors :: "real \<Rightarrow> Engine \<Rightarrow> Engine Outcome" where
  "updateColors width s =
     (if modeRef s = PAUSED \<or> modeRef s = VERIFY_PAUSED then Done s
      else if modeRef s = EDITOR then
        (case previewColors width s of
           None \<Rightarrow> Throws s
         | Some sim \<Rightarrow> Done (s\<lparr> displaySettings := sim \<rparr>))
      else if \<not> p_dead (player s) then
        (let fc = frameCount s + 1;
             effs = filter (\<lambda>eff. of_int fc < of_int (e_startTime eff) + e_duration eff)
                      (activeEffects s);
             s1 = s\<lparr> frameCount := fc, activeEffects := effs \<rparr>
         in case applyEffects fc (displaySettings s) effs of
              Done ds \<Rightarrow> Done (s1\<lparr> displaySettings := ds \<rparr>)
            | Throws ds \<Rightarrow> Throws (s1\<lparr> displaySettings := ds \<rparr>))
      else Done s)"

section \<open>Physics and collision\<close>

text \<open>The outcome of a part of \<open>updatePhysics\<close>: it goes on (\<open>Next\<close>) or the function
  returns (\<open>Return\<close>).\<close>

datatype 'a Flow = Next 'a | Return 'a

text \<open>\<open>die\<close>; its timer callback is \<open>dieTimeout\<close>, which runs later.\<close>

definition die :: "Engine \<Rightarrow> Engine" where
  "die s =
     (if p_dead (player s) then s
      else s\<lparr> player := (player s)\<lparr> p_dead := True \<rparr>,
              activeEffects := (if modeRef s = VERIFY then [] else activeEffects s) \<rparr>)"

definition dieTimeout :: "real \<Rightarrow> Engine \<Rightarrow> Engine" where
  "dieTimeout innerWidth s =
     (if modeRef s = VERIFY then resetPlayerInternal innerWidth True s
      else if modeRef s = PLAYTEST then s\<lparr> modeRequests := modeRequests s @ [EDITOR] \<rparr>
      else if modeRef s = VERIFY_PAUSED then s\<lparr> pendingReset := True \<rparr>
      else s)"

definition jump :: "Player \<Rightarrow> Player" where
  "jump p = p\<lparr> p_vy := (if p_gravityReversed p then - JUMP_FORCE else JUMP_FORCE),
              p_onGround := False \<rparr>"

definition cubeMotion :: "Engine \<Rightarrow> Engine Flow" where
  "cubeMotion s =
     (let p = player s;
          vy1 = (if p_gravityReversed p
                 then (if p_vy p - GRAVITY < - TERMINAL_VELOCITY then - TERMINAL_VELOCITY
                       else p_vy p - GRAVITY)
                 else (if p_vy p + GRAVITY > TERMINAL_VELOCITY then TERMINAL_VELOCITY
                       else p_vy p + GRAVITY));
          rot1 = (if \<not> p_onGround p then p_rotation p + (pi / 2) * (15 / 100)
                  else js_round (p_rotation p / (pi / 2)) * (pi / 2));
          p1 = p\<lparr> p_vy := vy1, p_y := p_y p + vy1, p_rotation := rot1 \<rparr>
      in if \<not> p_gravityReversed p1 then
           (if p_y p1 + p_h p1 \<ge> activeFloorY s
            then Next (s\<lparr> player := p1\<lparr> p_y := activeFloorY s - p_h p1, p_vy := 0,
                                        p_onGround := True, p_rotation := 0 \<rparr> \<rparr>)
            else Next (s\<lparr> player := p1\<lparr> p_onGround := False \<rparr> \<rparr>))
         else if activeCeilingY s > - 90000 \<and> p_y p1 \<le> activeCeilingY s
         then Next (s\<lparr> player := p1\<lparr> p_y := activeCeilingY s, p_vy := 0,
                                     p_onGround := True, p_rotation := 0 \<rparr> \<rparr>)
         else if p_y p1 + p_h p1 > activeFloorY s
         then Return (die (s\<lparr> player := p1\<lparr> p_onGround := False \<rparr> \<rparr>))
         else Next (s\<lparr> player := p1\<lparr> p_onGround := False \<rparr> \<rparr>))"

definition shipMotion :: "bool \<Rightarrow> Engine \<Rightarrow> Engine" where
  "shipMotion isInputDown s =
     (let p = player s;
          vy1 = (if p_gravityReversed p
                 then p_vy p - SHIP_GRAVITY - (if isInputDown then SHIP_THRUST else 0)
                 else p_vy p + SHIP_GRAVITY + (if isInputDown then SHIP_THRUST else 0));
          vy2 = (if vy1 > SHIP_TERMINAL_VELOCITY then SHIP_TERMINAL_VELOCITY else vy1);
          vy3 = (if vy2 < - SHIP_TERMINAL_VELOCITY then - SHIP_TERMINAL_VELOCITY else vy2);
          p1 = p\<lparr> p_vy := vy3, p_y := p_y p + vy3,
                  p_rotation := arctan (vy3 / (PLAYER_SPEED * (3 / 2))) \<rparr>;
          ceil = activeCeilingY s;
          flr = activeFloorY s
      in if p_y p1 < ceil
         then s\<lparr> player := p1\<lparr> p_y := ceil, p_vy := (if p_vy p1 < 0 then 0 else p_vy p1),
                               p_onGround := (if p_gravityReversed p1 then True else p_onGround p1) \<rparr> \<rparr>
         else if p_y p1 + p_h p1 > flr
         then s\<lparr> player := p1\<lparr> p_y := flr - p_h p1, p_vy := (if p_vy p1 > 0 then 0 else p_vy p1),
                               p_onGround := (if \<not> p_gravityReversed p1 then True else p_onGround p1) \<rparr> \<rparr>
         else s\<lparr> player := p1\<lparr> p_onGround := False \<rparr> \<rparr>)"

text \<open>Resolution of a collision with a Block.\<close>

definition resolveBlock :: "LevelObject \<Rightarrow> Engine \<Rightarrow> Engine Flow" where
  "resolveBlock obj s =
     (let p = player s;
          prevY = p_y p - p_vy p;
          blockTop = o_y obj * TILE_SIZE;
          blockBottom = (o_y obj + 1) * TILE_SIZE;
          rot = js_rem (rotationOr0 obj) 360;
          isBottomSlab = (\<bar>rot - 180\<bar> < 10);
          sTop = (if isBottomSlab then o_y obj * TILE_SIZE + 20 else o_y obj * TILE_SIZE);
          sBot = (if isBottomSlab then o_y obj * TILE_SIZE + 40 else o_y obj * TILE_SIZE + 20)
      in if p_vehicle p = Some SHIP then
           (if o_subtype obj = 3 then
              (if prevY + p_h p \<le> sTop + 15 \<and> p_vy p \<ge> 0
               then Next (s\<lparr> player := p\<lparr> p_y := sTop - p_h p, p_vy := 0 \<rparr> \<rparr>)
               else if prevY \<ge> sBot - 15 \<and> p_vy p \<le> 0
               then Next (s\<lparr> player := p\<lparr> p_y := sBot, p_vy := 0 \<rparr> \<rparr>)
               else Return (die s))
            else
              (if prevY + p_h p \<le> blockTop + 15 \<and> p_vy p \<ge> 0
               then Next (s\<lparr> player := p\<lparr> p_y := blockTop - p_h p, p_vy := 0 \<rparr> \<rparr>)
               else if prevY \<ge> blockBottom - 15 \<and> p_vy p \<le> 0
               then Next (s\<lparr> player := p\<lparr> p_y := blockBottom, p_vy := 0 \<rparr> \<rparr>)
               else Return (die s)))
         else if o_subtype obj = 3 then
           (if \<not> p_gravityReversed p then
              (if prevY + p_h p \<le> sTop + max \<bar>p_vy p\<bar> 5 \<and> p_vy p \<ge> 0
               then Next (s\<lparr> player := p\<lparr> p_y := sTop - p_h p, p_vy := 0,
                                          p_onGround := True, p_rotation := 0 \<rparr> \<rparr>)
               else Return (die s))
            else
              (if prevY \<ge> sBot - max \<bar>p_vy p\<bar> 5 \<and> p_vy p \<le> 0
               then Next (s\<lparr> player := p\<lparr> p_y := sBot, p_vy := 0,
                                          p_onGround := True, p_rotation := 0 \<rparr> \<rparr>)
               else Return (die s)))
         else
           (if \<not> p_gravityReversed p then
              (if prevY + p_h p \<le> blockTop + max \<bar>p_vy p\<bar> 5 \<and> p_vy p \<ge> 0
               then Next (s\<lparr> player := p\<lparr> p_y := blockTop - p_h p, p_vy := 0,
                                          p_onGround := True, p_rotation := 0 \<rparr> \<rparr>)
               else Return (die s))
            else
              (if prevY \<ge> blockBottom - max \<bar>p_vy p\<bar> 5 \<and> p_vy p \<le> 0
               then Next (s\<lparr> player := p\<lparr> p_y := blockBottom, p_vy := 0,
                                          p_onGround := True, p_rotation := 0 \<rparr> \<rparr>)
               else Return (die s))))"

definition usePad :: "LevelObject \<Rightarrow> Engine \<Rightarrow> Engine" where
  "usePad obj s =
     (if o_id obj \<in> usedObjectIds s then s
      else
        (let s1 = s\<lparr> usedObjectIds := insert (o_id obj) (usedObjectIds s) \<rparr>;
             p = player s1
         in if o_subtype obj = 4 then
              s1\<lparr> player := p\<lparr> p_gravityReversed := \<not> p_gravityReversed p, p_onGround := False,
                               p_vy := (if \<not> p_gravityReversed p then - 9 else 9) \<rparr> \<rparr>
            else
              (let force = (if o_subtype obj = 3 then PAD_FORCE_RED
                            else if o_subtype obj = 1 then PAD_FORCE_PINK else PAD_FORCE_YELLOW)
               in s1\<lparr> player := p\<lparr> p_vy := (if p_gravityReversed p then - force else force),
                                   p_onGround := False \<rparr> \<rparr>)))"

definition useOrb :: "bool \<Rightarrow> bool \<Rightarrow> LevelObject \<Rightarrow> Engine \<Rightarrow> Engine" where
  "useOrb isInputDown inputJustPressed obj s =
     (if o_id obj \<in> usedObjectIds s then s
      else
        (let p = player s;
             canActivate = (if p_vehicle p = Some SHIP then inputJustPressed
                            else (isInputDown \<and> \<not> hasInputUsed s))
         in if \<not> canActivate then s
            else
              (let s1 = s\<lparr> usedObjectIds := insert (o_id obj) (usedObjectIds s),
                           hasInputUsed := True \<rparr>
               in if o_subtype obj = 4 then
                    (let magnitude = (if p_vehicle p = Some SHIP then 4 else 8)
                     in s1\<lparr> player := p\<lparr> p_gravityReversed := \<not> p_gravityReversed p,
                                         p_onGround := False,
                                         p_vy := (if \<not> p_gravityReversed p then - magnitude
                                                  else magnitude) \<rparr> \<rparr>)
                  else
                    (let force = (if o_subtype obj = 3 then ORB_FORCE_RED
                                  else if o_subtype obj = 1 then ORB_FORCE_PINK
                                  else ORB_FORCE_YELLOW)
                     in s1\<lparr> player := p\<lparr> p_vy := (if p_gravityReversed p then - force else force),
                                         p_onGround := False \<rparr> \<rparr>))))"

definition usePortal :: "LevelObject \<Rightarrow> Engine \<Rightarrow> Engine" where
  "usePortal obj s =
     (if o_id obj \<in> usedObjectIds s then s
      else
        (let s1 = s\<lparr> usedObjectIds := insert (o_id obj) (usedObjectIds s) \<rparr>;
             p = player s1;
             s2 =
               (if o_subtype obj = 1 \<and> p_vehicle p \<noteq> Some CUBE then
                  s1\<lparr> player := p\<lparr> p_vehicle := Some CUBE,
                                   p_rotation := js_round (p_rotation p / (pi / 2)) * (pi / 2) \<rparr>,
                      targetFloorY := FLOOR_Y, targetCeilingY := - 99999 \<rparr>
                else if o_subtype obj = 2 then
                  (let s1a = (if o_y obj \<le> 6
                              then s1\<lparr> targetFloorY := (o_y obj + 5) * TILE_SIZE,
                                      targetCeilingY := (o_y obj - 5) * TILE_SIZE \<rparr>
                              else s1\<lparr> targetFloorY := FLOOR_Y,
                                      targetCeilingY := FLOOR_Y - 10 * TILE_SIZE \<rparr>)
                   in if p_vehicle p \<noteq> Some SHIP
                      then s1a\<lparr> player := p\<lparr> p_vehicle := Some SHIP, p_vy := 0 \<rparr> \<rparr>
                      else s1a)
                else s1);
             q = player s2
         in if o_subtype obj = 3 then s2\<lparr> player := q\<lparr> p_gravityReversed := True \<rparr> \<rparr>
            else if o_subtype obj = 4 then s2\<lparr> player := q\<lparr> p_gravityReversed := False \<rparr> \<rparr>
            else if o_subtype obj = 5
            then s2\<lparr> player := q\<lparr> p_gravityReversed := \<not> p_gravityReversed q \<rparr> \<rparr>
            else s2))"

text \<open>One pass of the loop over the level's objects.\<close>

definition processObject :: "bool \<Rightarrow> bool \<Rightarrow> LevelObject \<Rightarrow> Engine \<Rightarrow> Engine Flow" where
  "processObject isInputDown inputJustPressed obj s =
     (let p = player s;
          margin = TILE_SIZE * 2;
          pRight = p_x p + p_w p;
          pCx = p_x p + p_w p / 2;
          bx = o_x obj * TILE_SIZE
      in case (if o_type obj = TRIGGER then o_triggerData obj else None) of
           Some td \<Rightarrow>
             if o_id obj \<in> triggeredIds s then Next s
             else if (if touchTrigger td = Some True then checkCollision p obj
                      else pCx \<ge> o_x obj * TILE_SIZE + TILE_SIZE / 2
                           \<and> pCx - PLAYER_SPEED < o_x obj * TILE_SIZE + TILE_SIZE / 2)
             then Next (activateTrigger obj td s)
             else Next s
         | None \<Rightarrow>
             if o_type obj = DECO \<or> o_type obj = START_POS then Next s
             else if bx > pRight + margin \<or> bx + TILE_SIZE < p_x p - margin then Next s
             else if \<not> checkCollision p obj then Next s
             else if o_type obj = SPIKE then Return (die s)
             else if o_type obj = BLOCK then resolveBlock obj s
             else if o_type obj = PAD then Next (usePad obj s)
             else if o_type obj = ORB then Next (useOrb isInputDown inputJustPressed obj s)
             else if o_type obj = PORTAL then Next (usePortal obj s)
             else Next s)"

fun objectLoop :: "bool \<Rightarrow> bool \<Rightarrow> LevelObject list \<Rightarrow> Engine \<Rightarrow> Engine Flow" where
  "objectLoop isInputDown inputJustPressed [] s = Next s"
| "objectLoop isInputDown inputJustPressed (obj # rest) s =
     (case processObject isInputDown inputJustPressed obj s of
        Return s' \<Rightarrow> Return s'
      | Next s' \<Rightarrow> objectLoop isInputDown inputJustPressed rest s')"

text \<open>After the loop: the cube's jump and the death boundary.\<close>

definition finishStep :: "bool \<Rightarrow> Engine \<Rightarrow> Engine" where
  "finishStep isInputDown s =
     (let s1 = (if p_vehicle (player s) = Some CUBE \<and> p_onGround (player s) \<and> isInputDown
                then s\<lparr> player := jump (player s), hasInputUsed := True \<rparr> else s)
      in if \<not> p_gravityReversed (player s1)
         then (if p_y (player s1) > FLOOR_Y + 500 then die s1 else s1)
         else (if p_y (player s1) < - 2000 then die s1 else s1))"

text \<open>The jump input, and the start of a step up to the loop over the objects: input
  bookkeeping, the horizontal advance and the vehicle's vertical motion.\<close>

definition inputDown :: "Engine \<Rightarrow> bool" where
  "inputDown s = (keySpace s \<or> keyArrowUp s \<or> mouseIsDown s)"

definition preLoop :: "Engine \<Rightarrow> Engine Flow" where
  "preLoop s =
     (let isInputDown = inputDown s;
          inputJustPressed = (isInputDown \<and> \<not> prevInputState s);
          s1 = s\<lparr> prevInputState := isInputDown,
                  hasInputUsed := (if inputJustPressed \<or> \<not> isInputDown then False
                                   else hasInputUsed s),
                  player := (player s)\<lparr> p_x := p_x (player s) + PLAYER_SPEED \<rparr> \<rparr>
      in if p_vehicle (player s) = Some CUBE then cubeMotion s1
         else Next (shipMotion isInputDown s1))"

definition updatePhysics :: "Engine \<Rightarrow> Engine" where
  "updatePhysics s =
     (let p = player s
      in if p_dead p then s
         else if p_finished p \<and> modeRef s = VERIFY then
           (if isSuckedIntoWall s then
              (let p1 = p\<lparr> p_x := p_x p + (finishWallX s + 50 - p_x p) * (1 / 10),
                           p_w := p_w p * (9 / 10), p_h := p_h p * (9 / 10),
                           p_rotation := p_rotation p + 1 / 2 \<rparr>
               in if p_w p1 < 1
                  then s\<lparr> player := p1, isSuckedIntoWall := False,
                          modeRequests := modeRequests s @ [COMPLETE] \<rparr>
                  else s\<lparr> player := p1 \<rparr>)
            else s)
         else if modeRef s = VERIFY \<and> p_x p > finishWallX s
         then s\<lparr> player := p\<lparr> p_finished := True \<rparr>, isSuckedIntoWall := True \<rparr>
         else
           (case preLoop s of
              Return s2 \<Rightarrow> s2
            | Next s2 \<Rightarrow>
                (case objectLoop (inputDown s) (inputDown s \<and> \<not> prevInputState s)
                        (levelData s2) s2 of
                   Return s3 \<Rightarrow> s3
                 | Next s3 \<Rightarrow> finishStep (inputDown s) s3)))"

section \<open>The frame callback\<close>

text \<open>
  \<open>update\<close> without drawing and particles. The canvas is kept at the window's size, so
  its width also stands for \<open>window.innerWidth\<close>. \<open>zoom0\<close> is the zoom read at the top
  of the callback. An exception in the colour block leaves the callback before the
  physics step, the camera and the request for the next frame.
\<close>

definition easeCeiling :: "Engine \<Rightarrow> Engine" where
  "easeCeiling s =
     (if targetCeilingY s < - 90000 then
        (if activeCeilingY s > - 90000 then
           (if activeCeilingY s < cam_y (camera s) - 1000 + 50
            then s\<lparr> activeCeilingY := - 99999 \<rparr>
            else s\<lparr> activeCeilingY := activeCeilingY s
                       + (cam_y (camera s) - 1000 - activeCeilingY s) * (1 / 10) \<rparr>)
         else s)
      else
        (let a = (if activeCeilingY s < - 90000 then cam_y (camera s) - 1000
                  else activeCeilingY s)
         in s\<lparr> activeCeilingY := a + (targetCeilingY s - a) * (1 / 10) \<rparr>))"

definition moveCamera :: "GameMode \<Rightarrow> real \<Rightarrow> real \<Rightarrow> real \<Rightarrow> Engine \<Rightarrow> Engine" where
  "moveCamera currentMode zoom0 width height s =
     (if currentMode = EDITOR \<or> currentMode = PAUSED \<or> currentMode = VERIFY_PAUSED then
        (let camSpeed = 15 / zoom (camera s);
             c = camera s;
             c1 = (if keyW s then c\<lparr> cam_y := cam_y c - camSpeed \<rparr> else c);
             c2 = (if keyS s then c1\<lparr> cam_y := cam_y c1 + camSpeed \<rparr> else c1);
             c3 = (if keyA s then c2\<lparr> cam_x := cam_x c2 - camSpeed \<rparr> else c2);
             c4 = (if keyD s then c3\<lparr> cam_x := cam_x c3 + camSpeed \<rparr> else c3)
         in s\<lparr> camera := c4 \<rparr>)
      else
        (let p = player s;
             cam = camera s;
             targetX = p_x p - (width / zoom0) / 3;
             visibleHeight = height / zoom0;
             targetY =
               (if p_vehicle p = Some SHIP \<and> targetCeilingY s > - 90000
                then (targetFloorY s + targetCeilingY s) / 2 - visibleHeight * (1 / 2)
                else (if p_y p - visibleHeight * (55 / 100) > FLOOR_Y - visibleHeight + 150
                      then FLOOR_Y - visibleHeight + 150
                      else p_y p - visibleHeight * (55 / 100)));
             nextCamX =
               (if currentMode = VERIFY \<and> targetX > finishWallX s - (width / zoom0) + 300
                then finishWallX s - (width / zoom0) + 300 else targetX)
         in s\<lparr> camera := cam\<lparr> cam_x := cam_x cam + (nextCamX - cam_x cam) * (1 / 10),
                                cam_y := cam_y cam + (targetY - cam_y cam) * (1 / 10) \<rparr> \<rparr>))"

definition update :: "real \<Rightarrow> real \<Rightarrow> Engine \<Rightarrow> Engine Outcome" where
  "update width height s =
     (let currentMode = modeRef s;
          zoom0 = zoom (camera s);
          s1 = (if currentMode = PLAYTEST \<or> currentMode = VERIFY
                then s\<lparr> camera := (camera s)\<lparr> zoom := 12 / 10 \<rparr> \<rparr> else s);
          s2 = (if currentMode = VERIFY \<and> pendingReset s1
                then resetPlayerInternal width True (s1\<lparr> pendingReset := False \<rparr>) else s1);
          s3 = s2\<lparr> activeFloorY := activeFloorY s2
                      + (targetFloorY s2 - activeFloorY s2) * (1 / 10) \<rparr>;
          s4 = easeCeiling s3
      in case updateColors width s4 of
           Throws s5 \<Rightarrow> Throws s5
         | Done s5 \<Rightarrow>
             Done (moveCamera currentMode zoom0 width height
                     (if currentMode = PLAYTEST \<or> currentMode = VERIFY
                      then updatePhysics s5 else s5)))"

section \<open>The engine's operations as a transition system\<close>

text \<open>
  \<open>onMouseDown\<close> with the left button in the editor: the selection tool remembers where
  the box starts, every other tool acts at once.
\<close>

definition onMouseDown :: "real \<Rightarrow> real \<Rightarrow> bool \<Rightarrow> string \<Rightarrow> Engine \<Rightarrow> Engine" where
  "onMouseDown clientX clientY shiftKey newId s =
     (let s1 = s\<lparr> mouseIsDown := True, lastDeletePos := None \<rparr>
      in if modeRef s1 = EDITOR \<or> modeRef s1 = PAUSED then
           (if fst (selectedToolRef s1) = TOOL
            then s1\<lparr> boxSelectStart :=
                       Some (clientX / zoom (camera s1) + cam_x (camera s1),
                             clientY / zoom (camera s1) + cam_y (camera s1)) \<rparr>
            else handleEditorClick clientX clientY shiftKey False newId s1)
         else s1)"

datatype Op =
    MouseDown real real bool string
  | EditorClick real real bool bool string
  | SelectTool "ObjectType \<times> int"
  | SetMode GameMode
  | MoveSelection real real
  | RotateSelection real bool
  | DeleteSelection
  | DeselectAll
  | ClearLevel
  | CopySelection
  | PasteSelection "nat \<Rightarrow> string"
  | DuplicateSelection "nat \<Rightarrow> string"
  | SetLevel LevelInput bool
  | UpdateSettings SettingsPatch
  | UpdateSelectedTrigger TriggerData
  | UpdateSelectedStartPos StartPosData
  | ResetPlayer real bool
  | Undo
  | Redo

fun step :: "Op \<Rightarrow> Engine \<Rightarrow> Engine" where
  "step (MouseDown cx cy sh nid) s = onMouseDown cx cy sh nid s"
| "step (EditorClick cx cy sh dr nid) s = handleEditorClick cx cy sh dr nid s"
| "step (SelectTool tool) s = syncSelectedTool tool s"
| "step (SetMode m) s = syncMode m s"
| "step (MoveSelection dx dy) s = moveSelectionInternal dx dy s"
| "step (RotateSelection angle relative) s = rotateSelection angle relative s"
| "step DeleteSelection s = deleteSelection s"
| "step DeselectAll s = deselectAll s"
| "step ClearLevel s = clearLevel s"
| "step CopySelection s = copySelection s"
| "step (PasteSelection g) s = pasteSelection g s"
| "step (DuplicateSelection g) s = duplicateSelection g s"
| "step (SetLevel data keep) s = setLevel data keep s"
| "step (UpdateSettings n) s = updateSettings n s"
| "step (UpdateSelectedTrigger d) s = updateSelectedTrigger d s"
| "step (UpdateSelectedStartPos d) s = updateSelectedStartPos d s"
| "step (ResetPlayer w v) s = resetPlayerInternal w v s"
| "step Undo s = undo s"
| "step Redo s = redo s"

definition run :: "Op list \<Rightarrow> Engine \<Rightarrow> Engine" where
  "run ops s = foldl (\<lambda>t op. step op t) s ops"

text \<open>The engine once mounted: the refs hold their initial values and the mount effect
  has pushed the first snapshot.\<close>

definition initialEngine :: Engine where
  "initialEngine =
     \<lparr> levelData = [], levelSettings = DEFAULT_LEVEL_SETTINGS,
       displaySettings = displayOf DEFAULT_LEVEL_SETTINGS,
       selectedObjects = [], isPastedSelection = False, clipboard = [],
       activeEffects = [], triggeredIds = {}, usedObjectIds = {},
       history = [\<lparr> snap_settings = DEFAULT_LEVEL_SETTINGS, snap_objects = [] \<rparr>],
       historyIndex = 0,
       player = \<lparr> p_x = 0, p_y = 0, p_w = 36, p_h = 36, p_vx = 0, p_vy = 0, p_rotation = 0,
                  p_onGround = False, p_dead = False, p_finished = False,
                  p_vehicle = Some CUBE, p_gravityReversed = False \<rparr>,
       activeFloorY = FLOOR_Y, activeCeilingY = - 99999,
       targetFloorY = FLOOR_Y, targetCeilingY = - 99999,
       camera = \<lparr> cam_x = 0, cam_y = 0, zoom = 12 / 10 \<rparr>,
       keySpace = False, keyArrowUp = False, keyW = False, keyS = False, keyA = False,
       keyD = False, mouseIsDown = False,
       prevInputState = False, hasInputUsed = False, boxSelectStart = None,
       finishWallX = 999999, isSuckedIntoWall = False, modeRef = EDITOR,
       selectedToolRef = (BLOCK, 1), frameCount = 0, pendingReset = False,
       lastToolRotation = 0, lastDeletePos = None, modeRequests = [] \<rparr>"

definition isUndoRedo :: "Op \<Rightarrow> bool" where
  "isUndoRedo op = (op = Undo \<or> op = Redo)"

text \<open>The index is at the tip of the stack and the tip is the current document.\<close>

definition at_tip :: "Engine \<Rightarrow> bool" where
  "at_tip s =
     (history s \<noteq> [] \<and> length (history s) \<le> 50
      \<and> historyIndex s = int (length (history s)) - 1
      \<and> last (history s) = getCurrentState s)"

definition tipP :: "Snapshot list \<Rightarrow> int \<Rightarrow> LevelSettings \<Rightarrow> LevelObject list \<Rightarrow> bool" where
  "tipP h i st d = (h \<noteq> [] \<and> length h \<le> 50 \<and> i = int (length h) - 1
                    \<and> last h = \<lparr> snap_settings = st, snap_objects = map stringifyObject d \<rparr>)"

text \<open>The engine shows the document and the settings that a history entry denotes.\<close>

definition holdsEntry :: "Engine \<Rightarrow> Snapshot \<Rightarrow> bool" where
  "holdsEntry s e =
     (levelData s = map parseObject (snap_objects e) \<and> levelSettings s = snap_settings e)"

text \<open>
  The numbers a document holds, and a document all of whose numbers are finite doubles:
  its JSON text loses nothing. The arithmetic of the engine is modelled on exact reals,
  which agrees with the doubles only while nothing overflows. A run is called safe when
  the numeric arguments of its operations are finite and the numbers of the document
  stay within \<open>Number.MAX_SAFE_INTEGER\<close> before and after each operation; no
  intermediate result of the engine's arithmetic then leaves the range of the doubles.
\<close>

definition objectNumbers :: "LevelObject \<Rightarrow> real list" where
  "objectNumbers ob =
     [o_x ob, o_y ob]
     @ (case o_rotation ob of None \<Rightarrow> [] | Some r \<Rightarrow> [r])
     @ (case o_triggerData ob of
          None \<Rightarrow> []
        | Some td \<Rightarrow> (case duration td of None \<Rightarrow> [] | Some d \<Rightarrow> [d]))"

definition finiteDoc :: "LevelObject list \<Rightarrow> bool" where
  "finiteDoc objs = list_all (\<lambda>ob. list_all isFinite (objectNumbers ob)) objs"

definition safeDoc :: "LevelObject list \<Rightarrow> bool" where
  "safeDoc objs =
     list_all (\<lambda>ob. list_all (\<lambda>v. \<bar>v\<bar> \<le> MAX_SAFE_INTEGER) (objectNumbers ob)) objs"

fun opNumbers :: "Op \<Rightarrow> real list" where
  "opNumbers (MouseDown cx cy sh nid) = [cx, cy]"
| "opNumbers (EditorClick cx cy sh dr nid) = [cx, cy]"
| "opNumbers (MoveSelection dx dy) = [dx, dy]"
| "opNumbers (RotateSelection angle relative) = [angle]"
| "opNumbers (UpdateSelectedTrigger d) = (case duration d of None \<Rightarrow> [] | Some v \<Rightarrow> [v])"
| "opNumbers (ResetPlayer w v) = [w]"
| "opNumbers (SetLevel data keep) =
     (case data of
        InArray objs \<Rightarrow> concat (map objectNumbers objs)
      | InObject objs st \<Rightarrow> concat (map objectNumbers objs)
      | InOther \<Rightarrow> [])"
| "opNumbers _ = []"

fun safeRun :: "Op list \<Rightarrow> Engine \<Rightarrow> bool" where
  "safeRun [] s = safeDoc (levelData s)"
| "safeRun (op # ops) s =
     (safeDoc (levelData s) \<and> list_all isFinite (opNumbers op) \<and> safeRun ops (step op s))"

text \<open>Sample data for the concrete instances below.\<close>

definition sampleBlock :: "string \<Rightarrow> real \<Rightarrow> real \<Rightarrow> LevelObject" where
  "sampleBlock i gx gy =
     \<lparr> o_id = i, o_x = gx, o_y = gy, o_type = BLOCK, o_subtype = 1, o_rotation = Some 0,
       o_triggerData = None, o_startPosData = None \<rparr>"

definition fullStack :: Engine where
  "fullStack =
     initialEngine\<lparr> history := map (\<lambda>n. \<lparr> snap_settings = DEFAULT_LEVEL_SETTINGS,
                                          snap_objects =
                                            replicate n (stringifyObject (sampleBlock ''a'' 0 0)) \<rparr>)
                                   [0 ..< 50],
                    historyIndex := 49 \<rparr>"

text \<open>Two short editing sessions: a Block is placed (and thereby selected) at cell (0, 0)
  and moved, by 3 cells and by \<open>1e307\<close> cells.\<close>

definition sampleEdit :: "Op list" where
  "sampleEdit = [EditorClick 10 10 False False ''a'', MoveSelection 3 0]"

definition overflowEdit :: "Op list" where
  "overflowEdit = [EditorClick 10 10 False False ''a'', MoveSelection (10 ^ 307) 0]"

text \<open>The grid cell a click falls in, and whether an object sits exactly on a cell.\<close>

definition clickCell :: "real \<Rightarrow> real \<Rightarrow> Engine \<Rightarrow> int \<times> int" where
  "clickCell clientX clientY s =
     (\<lfloor>(clientX / zoom (camera s) + cam_x (camera s)) / TILE_SIZE\<rfloor>,
      \<lfloor>(clientY / zoom (camera s) + cam_y (camera s)) / TILE_SIZE\<rfloor>)"

definition occupied :: "Engine \<Rightarrow> int \<times> int \<Rightarrow> bool" where
  "occupied s c =
     (\<exists>ob \<in> set (levelData s). o_x ob = of_int (fst c) \<and> o_y ob = of_int (snd c))"

definition newObject :: "string \<Rightarrow> int \<times> int \<Rightarrow> Engine \<Rightarrow> LevelObject" where
  "newObject newId c s =
     \<lparr> o_id = newId, o_x = of_int (fst c), o_y = of_int (snd c),
       o_type = fst (selectedToolRef s), o_subtype = snd (selectedToolRef s),
       o_rotation = Some (lastToolRotation s),
       o_triggerData = (if fst (selectedToolRef s) = TRIGGER then Some defaultTriggerData else None),
       o_startPosData =
         (if fst (selectedToolRef s) = START_POS then Some defaultStartPosData else None) \<rparr>"

definition occupiedSample :: Engine where
  "occupiedSample = initialEngine\<lparr> levelData := [sampleBlock ''a'' 0 0], selectedObjects := [''a''] \<rparr>"

text \<open>A selected StartPos of the document.\<close>

definition selStartPos :: "Engine \<Rightarrow> LevelObject \<Rightarrow> bool" where
  "selStartPos s sp =
     (sp \<in> set (levelData s) \<and> o_id sp \<in> set (selectedObjects s) \<and> o_type sp = START_POS)"

definition sampleStartPos :: "string \<Rightarrow> real \<Rightarrow> real \<Rightarrow> LevelObject" where
  "sampleStartPos i gx gy =
     \<lparr> o_id = i, o_x = gx, o_y = gy, o_type = START_POS, o_subtype = 1, o_rotation = Some 0,
       o_triggerData = None, o_startPosData = Some defaultStartPosData \<rparr>"

definition twoStartPos :: Engine where
  "twoStartPos =
     initialEngine\<lparr> levelData := [sampleStartPos ''a'' 1 5, sampleStartPos ''b'' 2 5],
                    selectedObjects := [''a'', ''b''] \<rparr>"

text \<open>A document in which a StartPos and a later Block share the id that is selected.\<close>

definition sharedId :: Engine where
  "sharedId =
     initialEngine\<lparr> levelData := [sampleStartPos ''a'' 1 5, sampleBlock ''a'' 5 5],
                    selectedObjects := [''a''] \<rparr>"

text \<open>A StartPos for a ship in reversed gravity; two enabled StartPos objects on one
  cell, and two with x values 0.005 apart, the later one a ship start in both.\<close>

definition sampleShipStart :: "string \<Rightarrow> real \<Rightarrow> real \<Rightarrow> LevelObject" where
  "sampleShipStart i gx gy =
     \<lparr> o_id = i, o_x = gx, o_y = gy, o_type = START_POS, o_subtype = 1, o_rotation = Some 0,
       o_triggerData = None,
       o_startPosData =
         Some \<lparr> spmode = Some SHIP, reverseGravity = Some True, enabled = Some True \<rparr> \<rparr>"

definition twoStartTie :: Engine where
  "twoStartTie =
     initialEngine\<lparr> levelData := [sampleStartPos ''a'' 3 5, sampleShipStart ''b'' 3 5] \<rparr>"

definition twoStartNear :: Engine where
  "twoStartNear =
     initialEngine\<lparr> levelData := [sampleStartPos ''a'' 3 5, sampleShipStart ''b'' (601 / 200) 5] \<rparr>"

text \<open>
  The x values of any two enabled StartPos objects are equal or more than 0.01 apart, so
  that the comparator of the reset orders them consistently. The enabled StartPos at
  index \<open>j\<close> has the least x among the enabled ones and, among those at that x, the
  largest index.
\<close>

definition separated :: "LevelObject list \<Rightarrow> bool" where
  "separated objs =
     list_all (\<lambda>a. list_all (\<lambda>b. o_x a = o_x b \<or> \<bar>o_x a - o_x b\<bar> > 1 / 100)
                       (filter isEnabledStartPos objs))
       (filter isEnabledStartPos objs)"

definition leftmostLatest :: "LevelObject list \<Rightarrow> nat \<Rightarrow> bool" where
  "leftmostLatest objs j =
     (j < length objs \<and> isEnabledStartPos (objs ! j)
      \<and> list_all (\<lambda>i. o_x (objs ! j) < o_x (objs ! i)
                        \<or> (o_x (objs ! j) = o_x (objs ! i) \<and> i \<le> j))
           (filter (\<lambda>i. isEnabledStartPos (objs ! i)) [0 ..< length objs]))"

section \<open>Where trigger data may sit\<close>

definition triggerDataOk :: "LevelObject \<Rightarrow> bool" where
  "triggerDataOk ob = (o_triggerData ob \<noteq> None \<longrightarrow> o_type ob = TRIGGER)"

definition triggersOnly :: "LevelObject list \<Rightarrow> bool" where
  "triggersOnly objs = (\<forall>ob \<in> set objs. triggerDataOk ob)"

text \<open>The document, the clipboard and every history entry hold trigger data on Trigger
  objects only.\<close>

definition storeTriggersOnly :: "Engine \<Rightarrow> bool" where
  "storeTriggersOnly s =
     (triggersOnly (levelData s) \<and> triggersOnly (clipboard s)
      \<and> (\<forall>e \<in> set (history s). triggersOnly (map parseObject (snap_objects e))))"

text \<open>
  What the engine leaves to its callers: a loaded document is taken as it comes, and
  \<open>updateSelectedTrigger\<close> writes to the first selected object whatever its type. The
  user interface offers the trigger fields only while a single Trigger is selected.
\<close>

definition opAllowed :: "Op \<Rightarrow> Engine \<Rightarrow> bool" where
  "opAllowed op s =
     (case op of
        SetLevel data keep \<Rightarrow>
          (case data of InArray objs \<Rightarrow> triggersOnly objs
           | InObject objs st \<Rightarrow> triggersOnly objs
           | InOther \<Rightarrow> True)
      | UpdateSelectedTrigger d \<Rightarrow>
          (case findIndex (set_first (selectedObjects s)) (levelData s) of
             None \<Rightarrow> True
           | Some k \<Rightarrow> o_type (levelData s ! k) = TRIGGER)
      | _ \<Rightarrow> True)"

fun runAllowed :: "Op list \<Rightarrow> Engine \<Rightarrow> bool" where
  "runAllowed [] s = True"
| "runAllowed (op # ops) s = (opAllowed op s \<and> runAllowed ops (step op s))"

definition colorPatch :: "string \<Rightarrow> TriggerData" where
  "colorPatch c = \<lparr> target = None, color = Some c, duration = None, touchTrigger = None \<rparr>"

definition histTriggersOnly :: "Snapshot list \<Rightarrow> bool" where
  "histTriggersOnly h = (\<forall>e \<in> set h. triggersOnly (map parseObject (snap_objects e)))"

section \<open>Landing on a block\<close>

text \<open>The approach that counts as landing on the top face: the bottom edge of the
  previous frame lies at most the tolerance below the top, and the player is not rising.\<close>

definition landsOn :: "Player \<Rightarrow> LevelObject \<Rightarrow> bool" where
  "landsOn p obj =
     (p_y p - p_vy p + p_h p \<le> o_y obj * TILE_SIZE + max \<bar>p_vy p\<bar> 5 \<and> 0 \<le> p_vy p)"

definition landed :: "Player \<Rightarrow> LevelObject \<Rightarrow> Player" where
  "landed p obj = p\<lparr> p_y := o_y obj * TILE_SIZE - p_h p, p_vy := 0,
                      p_onGround := True, p_rotation := 0 \<rparr>"

text \<open>An object that leaves the player as it is in this pass of the loop: it has no
  gameplay effect on the player, lies outside the horizontal margin, or does not touch
  the player.\<close>

definition inert :: "Player \<Rightarrow> LevelObject \<Rightarrow> bool" where
  "inert p ob =
     (o_type ob \<notin> {SPIKE, BLOCK, PAD, ORB, PORTAL}
      \<or> o_x ob * TILE_SIZE > p_x p + p_w p + TILE_SIZE * 2
      \<or> o_x ob * TILE_SIZE + TILE_SIZE < p_x p - TILE_SIZE * 2
      \<or> \<not> checkCollision p ob)"

definition inertAll :: "Player \<Rightarrow> LevelObject list \<Rightarrow> bool" where
  "inertAll p objs = list_all (inert p) objs"

text \<open>A cube falling onto the Block at cell (2, 11), without and with the jump key held,
  and a cube running on the floor into the side of that Block.\<close>

definition fallingCube :: Engine where
  "fallingCube =
     initialEngine
       \<lparr> levelData := [sampleBlock ''b'' 2 11], modeRef := PLAYTEST,
         player := \<lparr> p_x = 70, p_y = 396, p_w = 36, p_h = 36, p_vx = PLAYER_SPEED, p_vy = 8,
                     p_rotation = 0, p_onGround = False, p_dead = False, p_finished = False,
                     p_vehicle = Some CUBE, p_gravityReversed = False \<rparr> \<rparr>"

definition fallingCubeHeld :: Engine where
  "fallingCubeHeld = fallingCube\<lparr> keySpace := True \<rparr>"

definition runningCube :: Engine where
  "runningCube =
     initialEngine
       \<lparr> levelData := [sampleBlock ''b'' 2 11], modeRef := PLAYTEST,
         player := \<lparr> p_x = 70, p_y = 444, p_w = 36, p_h = 36, p_vx = PLAYER_SPEED, p_vy = 0,
                     p_rotation = 0, p_onGround = True, p_dead = False, p_finished = False,
                     p_vehicle = Some CUBE, p_gravityReversed = False \<rparr> \<rparr>"

text \<open>The state at the start of the loop over the objects.\<close>

definition afterMotion :: "Engine \<Rightarrow> Engine" where
  "afterMotion s = (case preLoop s of Next t \<Rightarrow> t | Return t \<Rightarrow> t)"

section \<open>History: invariants and round trip\<close>

lemma js_slice0_length: "length (js_slice0 xs e) \<le> length xs"
  by (simp add: js_slice0_def Let_def)

lemma addToHistory_fields [simp]:
  "levelData (addToHistory s) = levelData s"
  "levelSettings (addToHistory s) = levelSettings s"
  "selectedObjects (addToHistory s) = selectedObjects s"
  "clipboard (addToHistory s) = clipboard s"
  "selectedToolRef (addToHistory s) = selectedToolRef s"
  "lastToolRotation (addToHistory s) = lastToolRotation s"
  "camera (addToHistory s) = camera s"
  "modeRef (addToHistory s) = modeRef s"
  "boxSelectStart (addToHistory s) = boxSelectStart s"
  by (simp_all add: addToHistory_def Let_def)

lemma getCurrentState_addToHistory [simp]:
  "getCurrentState (addToHistory s) = getCurrentState s"
  by (simp add: getCurrentState_def)

lemma addToHistory_length:
  "length (history s) \<le> 50 \<Longrightarrow> length (history (addToHistory s)) \<le> 50"
  using js_slice0_length [of "history s" "historyIndex s + 1"]
  by (auto simp: addToHistory_def Let_def)

lemma at_tip_addToHistory:
  assumes "length (history s) \<le> 50"
  shows "at_tip (addToHistory s)"
proof -
  define h0 where "h0 = (if historyIndex s < int (length (history s)) - 1
                then js_slice0 (history s) (historyIndex s + 1) else history s)"
  define h1 where "h1 = h0 @ [getCurrentState s]"
  have l0: "length h0 \<le> 50"
    using assms js_slice0_length [of "history s" "historyIndex s + 1"] by (auto simp: h0_def)
  have eq: "addToHistory s = (if length h1 > 50
         then s\<lparr> history := tl h1, historyIndex := int (length h1) - 1 - 1 \<rparr>
         else s\<lparr> history := h1, historyIndex := int (length h1) - 1 \<rparr>)"
    by (simp add: addToHistory_def Let_def h0_def h1_def)
  show ?thesis
  proof (cases "length h1 > 50")
    case True
    then have "h0 \<noteq> []" by (auto simp: h1_def)
    then have "tl h1 = tl h0 @ [getCurrentState s]" by (simp add: h1_def)
    with True l0 show ?thesis
      by (simp add: eq at_tip_def getCurrentState_def h1_def)
  next
    case False
    then show ?thesis by (simp add: eq at_tip_def getCurrentState_def h1_def)
  qed
qed

lemma at_tip_length: "at_tip s \<Longrightarrow> length (history s) \<le> 50"
  by (simp add: at_tip_def)

lemma parse_stringify_number: "isFinite v \<Longrightarrow> parseNumber (stringifyNumber v) = v"
  by (simp add: parseNumber_def stringifyNumber_def)

lemma parse_stringify_object:
  assumes "list_all isFinite (objectNumbers ob)"
  shows "parseObject (stringifyObject ob) = ob"
proof -
  from assms have x: "isFinite (o_x ob)" "isFinite (o_y ob)"
    by (simp_all add: objectNumbers_def)
  have r: "map_option parseNumber (map_option stringifyNumber (o_rotation ob)) = o_rotation ob"
    using assms by (cases "o_rotation ob") (simp_all add: objectNumbers_def parse_stringify_number)
  have t: "map_option parseTrigger (map_option stringifyTrigger (o_triggerData ob))
           = o_triggerData ob"
  proof (cases "o_triggerData ob")
    case None
    then show ?thesis by simp
  next
    case (Some td)
    have "map_option parseNumber (map_option stringifyNumber (duration td)) = duration td"
      using assms Some
      by (cases "duration td") (simp_all add: objectNumbers_def parse_stringify_number)
    then show ?thesis using Some by (simp add: parseTrigger_def stringifyTrigger_def)
  qed
  show ?thesis
    using x r t by (simp add: parseObject_def stringifyObject_def parse_stringify_number)
qed

lemma parse_stringify_doc:
  "finiteDoc objs \<Longrightarrow> map (parseObject \<circ> stringifyObject) objs = objs"
  by (induction objs) (simp_all add: finiteDoc_def parse_stringify_object)

lemma safe_isFinite: "\<bar>v\<bar> \<le> MAX_SAFE_INTEGER \<Longrightarrow> isFinite v"
proof -
  have "MAX_SAFE_INTEGER \<le> (2::real) ^ 53" by (simp add: MAX_SAFE_INTEGER_def)
  also have "(2::real) ^ 53 \<le> 2 ^ 1023" by (rule power_increasing) simp_all
  also have "\<dots> \<le> MAX_VALUE"
  proof -
    have "(1::real) \<le> 2 - 1 / 2 ^ 52" by simp
    then have "1 * (2::real) ^ 1023 \<le> (2 - 1 / 2 ^ 52) * 2 ^ 1023"
      by (rule mult_right_mono) simp
    then show ?thesis by (simp add: MAX_VALUE_def)
  qed
  finally show "\<bar>v\<bar> \<le> MAX_SAFE_INTEGER \<Longrightarrow> isFinite v" by (simp add: isFinite_def)
qed

lemma safeDoc_finiteDoc: "safeDoc objs \<Longrightarrow> finiteDoc objs"
  by (auto simp: safeDoc_def finiteDoc_def list_all_iff safe_isFinite)

lemma undo_redo_at_tip:
  assumes "at_tip s" and "finiteDoc (levelData s)"
  shows "levelData (redo (undo s)) = levelData s
         \<and> levelSettings (redo (undo s)) = levelSettings s"
proof (cases "historyIndex s > 0")
  case False
  with assms show ?thesis by (simp add: undo_def redo_def at_tip_def)
next
  case True
  define n where "n = length (history s)"
  from True assms have n: "n \<ge> 2" and ne: "history s \<noteq> []"
    and i: "historyIndex s = int n - 1"
    by (auto simp: at_tip_def n_def)
  have l: "history s ! (n - 1) = getCurrentState s"
    using assms ne unfolding at_tip_def n_def by (metis last_conv_nth)
  have u: "history (undo s) = history s" "historyIndex (undo s) = int n - 2"
    using True n i
    by (auto simp: undo_def Let_def js_index_def restoreState_def n_def split: option.splits)
  have "js_index (history s) (int n - 1) = Some (getCurrentState s)"
    using n l ne by (simp add: js_index_def n_def nat_diff_distrib)
  with u n ne show ?thesis
    by (simp add: redo_def Let_def restoreState_def getCurrentState_def n_def
          parse_stringify_doc [OF assms(2)])
qed

lemma history_restoreState [simp]:
  "history (restoreState e s) = history s" "historyIndex (restoreState e s) = historyIndex s"
  by (simp_all add: restoreState_def split: option.splits)

lemma tip_addToHistory:
  assumes "length (history t) \<le> 50"
  shows "history (addToHistory t) \<noteq> []"
    and "length (history (addToHistory t)) \<le> 50"
    and "historyIndex (addToHistory t) = int (length (history (addToHistory t))) - 1"
    and "last (history (addToHistory t))
         = \<lparr> snap_settings = levelSettings t, snap_objects = map stringifyObject (levelData t) \<rparr>"
  using at_tip_addToHistory [OF assms] by (simp_all add: at_tip_def getCurrentState_def)

lemmas op_defs =
  onMouseDown_def handleEditorClick_def selectRelease_def deleteClick_def placeClick_def
  syncSelectedTool_def syncMode_def moveSelectionInternal_def rotateSelection_def
  deleteSelection_def deselectAll_def clearLevel_def copySelection_def pasteSelection_def
  duplicateSelection_def setLevel_def updateSettings_def updateSelectedTrigger_def
  updateSelectedStartPos_def resetPlayerInternal_def

lemma step_length:
  "length (history s) \<le> 50 \<Longrightarrow> length (history (step op s)) \<le> 50"
  by (cases op)
     (auto simp: op_defs undo_def redo_def Let_def addToHistory_length
           split: option.splits list.splits LevelInput.splits prod.splits)

lemma at_tip_tipP: "at_tip s = tipP (history s) (historyIndex s) (levelSettings s) (levelData s)"
  by (simp add: at_tip_def tipP_def getCurrentState_def)

lemma tipP_addToHistory:
  "length (history t) \<le> 50 \<Longrightarrow> st = levelSettings t \<Longrightarrow> d = levelData t \<Longrightarrow>
   tipP (history (addToHistory t)) (historyIndex (addToHistory t)) st d"
  using tip_addToHistory [of t] by (simp add: tipP_def)

lemma tipP_single:
  "tipP [\<lparr> snap_settings = st, snap_objects = map stringifyObject d \<rparr>] 0 st d"
  by (simp add: tipP_def)

lemma step_at_tip:
  assumes "\<not> isUndoRedo op" and "at_tip s"
  shows "at_tip (step op s)"
proof -
  have l: "length (history s) \<le> 50" using assms(2) by (rule at_tip_length)
  have t: "tipP (history s) (historyIndex s) (levelSettings s) (levelData s)"
    using assms(2) by (simp add: at_tip_tipP)
  show ?thesis
    unfolding at_tip_tipP using assms(1) l t
    by (cases op)
       (simp_all add: op_defs isUndoRedo_def Let_def tipP_addToHistory tipP_single
             getCurrentState_def
             split: option.splits list.splits LevelInput.splits prod.splits)
qed

lemma run_Nil [simp]: "run [] s = s"
  by (simp add: run_def)

lemma run_snoc [simp]: "run (ops @ [op]) s = step op (run ops s)"
  by (simp add: run_def)

lemma run_Cons: "run (op # ops) s = run ops (step op s)"
  by (simp add: run_def)

lemma run_length: "length (history s) \<le> 50 \<Longrightarrow> length (history (run ops s)) \<le> 50"
  by (induction ops rule: rev_induct) (simp_all add: step_length)

lemma run_at_tip: "\<forall>op \<in> set ops. \<not> isUndoRedo op \<Longrightarrow> at_tip s \<Longrightarrow> at_tip (run ops s)"
  by (induction ops rule: rev_induct) (simp_all add: step_at_tip)

lemma at_tip_initial: "at_tip initialEngine"
  by (simp add: at_tip_def initialEngine_def getCurrentState_def)

lemma safeRun_final: "safeRun ops s \<Longrightarrow> safeDoc (levelData (run ops s))"
  by (induction ops arbitrary: s) (simp_all add: run_Cons)

lemma undo_redo_restored:
  assumes "at_tip s" and "0 < historyIndex s"
  shows "levelData (redo (undo s)) = map (parseObject \<circ> stringifyObject) (levelData s)"
proof -
  define n where "n = length (history s)"
  from assms have n: "n \<ge> 2" and ne: "history s \<noteq> []"
    and i: "historyIndex s = int n - 1"
    by (auto simp: at_tip_def n_def)
  have l: "history s ! (n - 1) = getCurrentState s"
    using assms ne unfolding at_tip_def n_def by (metis last_conv_nth)
  have u: "history (undo s) = history s" "historyIndex (undo s) = int n - 2"
    using assms(2) n i
    by (auto simp: undo_def Let_def js_index_def restoreState_def n_def split: option.splits)
  have "js_index (history s) (int n - 1) = Some (getCurrentState s)"
    using n l ne by (simp add: js_index_def n_def nat_diff_distrib)
  with u n ne show ?thesis
    by (simp add: redo_def Let_def restoreState_def getCurrentState_def n_def)
qed

lemma undo_restored:
  assumes "historyIndex s = int (Suc i)" and "Suc i < length (history s)"
  shows "levelData (undo s) = map parseObject (snap_objects (history s ! i))"
  using assms by (simp add: undo_def Let_def js_index_def restoreState_def)

lemma move_single:
  assumes "levelData s = [ob]" and "selectedObjects s = [o_id ob]" and "o_type ob \<noteq> START_POS"
  shows "moveSelectionInternal dx dy s = addToHistory (s\<lparr> levelData := [moveObj dx dy ob] \<rparr>)"
  using assms
  by (simp add: moveSelectionInternal_def Let_def newIdMap_def map_set_def adjustedDx_def
        clampStep_def)

lemma addToHistory_tip:
  assumes "historyIndex s = int (length (history s)) - 1" and "length (history s) < 50"
  shows "history (addToHistory s) = history s @ [getCurrentState s]"
    and "historyIndex (addToHistory s) = int (length (history s))"
  using assms by (simp_all add: addToHistory_def Let_def)

lemmas eval_defs =
  run_def initialEngine_def op_defs Let_def TILE_SIZE_def addToHistory_def js_slice0_def
  getCurrentState_def undo_def redo_def js_index_def restoreState_def

lemmas json_defs =
  stringifyObject_def stringifyNumber_def stringifyTrigger_def parseObject_def parseNumber_def
  parseTrigger_def

lemmas safe_defs =
  safeDoc_def objectNumbers_def MAX_SAFE_INTEGER_def isFinite_def MAX_VALUE_def

lemma first_click:
  "levelData (handleEditorClick 10 10 False False ''a'' initialEngine) = [sampleBlock ''a'' 0 0]"
  "selectedObjects (handleEditorClick 10 10 False False ''a'' initialEngine) = [''a'']"
  "history (handleEditorClick 10 10 False False ''a'' initialEngine)
     = [\<lparr> snap_settings = DEFAULT_LEVEL_SETTINGS, snap_objects = [] \<rparr>,
        \<lparr> snap_settings = DEFAULT_LEVEL_SETTINGS,
          snap_objects = [stringifyObject (sampleBlock ''a'' 0 0)] \<rparr>]"
  "historyIndex (handleEditorClick 10 10 False False ''a'' initialEngine) = 1"
  by (simp_all add: eval_defs sampleBlock_def defaultTriggerData_def set_add_def)

lemma click_then_move:
  "run [EditorClick 10 10 False False ''a'', MoveSelection dx 0] initialEngine
     = addToHistory ((handleEditorClick 10 10 False False ''a'' initialEngine)
                       \<lparr> levelData := [moveObj dx 0 (sampleBlock ''a'' 0 0)] \<rparr>)"
  by (simp add: run_Cons move_single [of _ "sampleBlock ''a'' 0 0"] first_click sampleBlock_def)

lemma click_then_move_fields:
  "levelData (run [EditorClick 10 10 False False ''a'', MoveSelection dx 0] initialEngine)
     = [moveObj dx 0 (sampleBlock ''a'' 0 0)]"
  "historyIndex (run [EditorClick 10 10 False False ''a'', MoveSelection dx 0] initialEngine) = 2"
  "history (run [EditorClick 10 10 False False ''a'', MoveSelection dx 0] initialEngine) ! 1
     = \<lparr> snap_settings = DEFAULT_LEVEL_SETTINGS,
         snap_objects = [stringifyObject (sampleBlock ''a'' 0 0)] \<rparr>"
  "length (history (run [EditorClick 10 10 False False ''a'', MoveSelection dx 0] initialEngine))
     = 3"
  unfolding click_then_move
  by (simp_all add: addToHistory_tip first_click)

section \<open>Undo followed by redo\<close>




section \<open>The cap of 50 entries\<close>

lemma undo_funpow:
  assumes "historyIndex s = int i" and "i < length (history s)" and "k \<le> i"
  shows "history ((undo ^^ k) s) = history s
         \<and> historyIndex ((undo ^^ k) s) = int i - int k
         \<and> (0 < k \<longrightarrow> holdsEntry ((undo ^^ k) s) (history s ! (i - k)))"
  using assms(3)
proof (induction k)
  case 0
  then show ?case using assms(1) by simp
next
  case (Suc k)
  define t where "t = (undo ^^ k) s"
  from Suc have h: "history t = history s" and ix: "historyIndex t = int i - int k"
    by (simp_all add: t_def)
  from Suc.prems assms(2) have r: "js_index (history s) (int i - int k - 1) = Some (history s ! (i - Suc k))"
    by (simp add: js_index_def nat_diff_distrib)
  have "historyIndex t > 0" using ix Suc.prems by simp
  then have "undo t = restoreState (Some (history s ! (i - Suc k))) (t\<lparr> historyIndex := int i - int k - 1 \<rparr>)"
    using h ix r by (simp add: undo_def Let_def)
  then show ?case
    using h by (simp add: t_def [symmetric] restoreState_def holdsEntry_def)
qed

lemma redo_funpow:
  assumes "historyIndex s = int i" and "i + j < length (history s)"
  shows "history ((redo ^^ j) s) = history s
         \<and> historyIndex ((redo ^^ j) s) = int i + int j
         \<and> (0 < j \<longrightarrow> holdsEntry ((redo ^^ j) s) (history s ! (i + j)))"
  using assms(2)
proof (induction j)
  case 0
  then show ?case using assms(1) by simp
next
  case (Suc j)
  define t where "t = (redo ^^ j) s"
  from Suc have h: "history t = history s" and ix: "historyIndex t = int i + int j"
    by (simp_all add: t_def)
  from Suc.prems have r: "js_index (history s) (int i + int j + 1) = Some (history s ! (i + Suc j))"
    by (simp add: js_index_def nat_add_distrib)
  have "historyIndex t < int (length (history t)) - 1" using ix h Suc.prems by simp
  then have "redo t = restoreState (Some (history s ! (i + Suc j))) (t\<lparr> historyIndex := int i + int j + 1 \<rparr>)"
    using h ix r by (simp add: redo_def Let_def)
  then show ?case
    using h by (simp add: t_def [symmetric] restoreState_def holdsEntry_def)
qed

lemma undo_redo_funpow:
  assumes "historyIndex s = int i" and "i < length (history s)" and "k \<le> i" and "j \<le> k"
  shows "history ((redo ^^ j) ((undo ^^ k) s)) = history s"
    and "historyIndex ((redo ^^ j) ((undo ^^ k) s)) = int i - int k + int j"
    and "0 < k \<Longrightarrow> holdsEntry ((redo ^^ j) ((undo ^^ k) s)) (history s ! (i - k + j))"
proof -
  define t where "t = (undo ^^ k) s"
  from undo_funpow [OF assms(1-3)] have
    u: "history t = history s" "historyIndex t = int (i - k)"
       "0 < k \<longrightarrow> holdsEntry t (history s ! (i - k))"
    using assms(3) by (simp_all add: t_def)
  have "i - k + j < length (history t)" using assms u(1) by simp
  from redo_funpow [OF u(2) this] have
    r: "history ((redo ^^ j) t) = history s"
       "historyIndex ((redo ^^ j) t) = int (i - k) + int j"
       "0 < j \<longrightarrow> holdsEntry ((redo ^^ j) t) (history s ! (i - k + j))"
    using u(1) by simp_all
  show "history ((redo ^^ j) ((undo ^^ k) s)) = history s" using r(1) by (simp add: t_def)
  show "historyIndex ((redo ^^ j) ((undo ^^ k) s)) = int i - int k + int j"
    using r(2) assms(3) by (simp add: t_def)
  show "holdsEntry ((redo ^^ j) ((undo ^^ k) s)) (history s ! (i - k + j))" if "0 < k"
  proof (cases "j = 0")
    case True
    with u(3) that show ?thesis by (simp add: t_def)
  next
    case False
    with r(3) show ?thesis by (simp add: t_def)
  qed
qed

lemma addToHistory_evict:
  assumes "length (history s) = 50" and "historyIndex s = 49"
  shows "history (addToHistory s) = tl (history s) @ [getCurrentState s]"
    and "historyIndex (addToHistory s) = 49"
proof -
  from assms have "history s \<noteq> []" by auto
  with assms show "history (addToHistory s) = tl (history s) @ [getCurrentState s]"
    and "historyIndex (addToHistory s) = 49"
    by (simp_all add: addToHistory_def Let_def)
qed

text \<open>
  Claim C3. After every sequence of operations the history stack holds at most 50
  entries. Recording a snapshot on a full stack at its tip drops the oldest entry, appends
  the current document and leaves the index at 49. From there \<open>k\<close> undos (for \<open>k\<close> up to
  49) followed by \<open>j\<close> redos (for \<open>j\<close> up to \<open>k\<close>) leave the stack as it is, put the index
  at \<open>49 - k + j\<close> and show the entry at that index: every entry that was kept and the
  new one stay reachable by undo and by redo, in their order. When the numbers of the
  recorded document are finite, \<open>k\<close> undos and \<open>k\<close> redos lead back to it.
\<close>

theorem history_capped:
  "length (history (run ops initialEngine)) \<le> 50
   \<and> (length (history s) = 50 \<and> historyIndex s = 49 \<longrightarrow>
        history (addToHistory s) = tl (history s) @ [getCurrentState s]
        \<and> historyIndex (addToHistory s) = 49
        \<and> (\<forall>k j. k \<le> 49 \<and> j \<le> k \<longrightarrow>
              history ((redo ^^ j) ((undo ^^ k) (addToHistory s))) = history (addToHistory s)
              \<and> historyIndex ((redo ^^ j) ((undo ^^ k) (addToHistory s)))
                  = 49 - int k + int j
              \<and> (0 < k \<longrightarrow>
                   holdsEntry ((redo ^^ j) ((undo ^^ k) (addToHistory s)))
                     (history (addToHistory s) ! (49 - k + j))))
        \<and> (finiteDoc (levelData s) \<longrightarrow>
             (\<forall>k. 0 < k \<and> k \<le> 49 \<longrightarrow>
                levelData ((redo ^^ k) ((undo ^^ k) (addToHistory s))) = levelData s
                \<and> levelSettings ((redo ^^ k) ((undo ^^ k) (addToHistory s)))
                    = levelSettings s)))"
proof (intro impI conjI allI)
  show "length (history (run ops initialEngine)) \<le> 50"
    by (rule run_length) (simp add: initialEngine_def)
next
  assume a: "length (history s) = 50 \<and> historyIndex s = 49"
  then show e1: "history (addToHistory s) = tl (history s) @ [getCurrentState s]"
    and e2: "historyIndex (addToHistory s) = 49"
    by (simp_all add: addToHistory_evict)
  have ix: "historyIndex (addToHistory s) = int 49" using e2 by simp
  have len: "49 < length (history (addToHistory s))" using e1 a by simp
  {
    fix k j :: nat
    assume kj: "k \<le> 49 \<and> j \<le> k"
    then have k: "k \<le> 49" and j: "j \<le> k" by simp_all
    show "history ((redo ^^ j) ((undo ^^ k) (addToHistory s))) = history (addToHistory s)"
      by (rule undo_redo_funpow(1) [OF ix len k j])
    show "historyIndex ((redo ^^ j) ((undo ^^ k) (addToHistory s))) = 49 - int k + int j"
      using undo_redo_funpow(2) [OF ix len k j] by simp
    show "holdsEntry ((redo ^^ j) ((undo ^^ k) (addToHistory s)))
            (history (addToHistory s) ! (49 - k + j))" if "0 < k"
      by (rule undo_redo_funpow(3) [OF ix len k j that])
  }
  {
    fix k :: nat
    assume f: "finiteDoc (levelData s)" and k: "0 < k \<and> k \<le> 49"
    then have "holdsEntry ((redo ^^ k) ((undo ^^ k) (addToHistory s)))
                 (history (addToHistory s) ! (49 - k + k))"
      by (intro undo_redo_funpow(3) [OF ix len]) simp_all
    moreover have "history (addToHistory s) ! (49 - k + k) = getCurrentState s"
      using k e1 a by (simp add: nth_append)
    ultimately show "levelData ((redo ^^ k) ((undo ^^ k) (addToHistory s))) = levelData s"
      and "levelSettings ((redo ^^ k) ((undo ^^ k) (addToHistory s))) = levelSettings s"
      using parse_stringify_doc [OF f] by (simp_all add: holdsEntry_def getCurrentState_def)
  }
qed

theorem history_capped_witness:
  "length (history fullStack) = 50 \<and> historyIndex fullStack = 49
   \<and> finiteDoc (levelData fullStack)
   \<and> length (history (run [ClearLevel, Undo] initialEngine)) \<le> 50
   \<and> history (addToHistory fullStack) = tl (history fullStack) @ [getCurrentState fullStack]
   \<and> historyIndex (addToHistory fullStack) = 49
   \<and> historyIndex ((redo ^^ 2) ((undo ^^ 3) (addToHistory fullStack))) = 48
   \<and> holdsEntry ((redo ^^ 2) ((undo ^^ 3) (addToHistory fullStack)))
        (history (addToHistory fullStack) ! 48)
   \<and> length (levelData ((redo ^^ 2) ((undo ^^ 3) (addToHistory fullStack)))) = 49
   \<and> levelData ((redo ^^ 3) ((undo ^^ 3) (addToHistory fullStack))) = levelData fullStack"
proof -
  have h: "length (history fullStack) = 50 \<and> historyIndex fullStack = 49"
    by (simp add: fullStack_def)
  have f: "finiteDoc (levelData fullStack)"
    by (simp add: fullStack_def initialEngine_def finiteDoc_def)
  note t = history_capped [of "[ClearLevel, Undo]" fullStack]
  from t h have e: "history (addToHistory fullStack) = tl (history fullStack) @ [getCurrentState fullStack]"
    by blast
  have kj: "(3::nat) \<le> 49 \<and> (2::nat) \<le> 3" "0 < (3::nat)" "0 < (3::nat) \<and> (3::nat) \<le> 49"
    by simp_all
  from t h kj have
    i: "historyIndex ((redo ^^ 2) ((undo ^^ 3) (addToHistory fullStack))) = 49 - int 3 + int 2"
    and he: "holdsEntry ((redo ^^ 2) ((undo ^^ 3) (addToHistory fullStack)))
               (history (addToHistory fullStack) ! (49 - 3 + 2))"
    by blast+
  from t h f kj have
    rt: "levelData ((redo ^^ 3) ((undo ^^ 3) (addToHistory fullStack))) = levelData fullStack"
    by blast
  have n: "length (snap_objects (history (addToHistory fullStack) ! 48)) = 49"
    unfolding e by (simp add: fullStack_def nth_append nth_tl)
  from he have he': "holdsEntry ((redo ^^ 2) ((undo ^^ 3) (addToHistory fullStack)))
               (history (addToHistory fullStack) ! 48)" by simp
  then have len: "length (levelData ((redo ^^ 2) ((undo ^^ 3) (addToHistory fullStack)))) = 49"
    using n by (simp add: holdsEntry_def)
  from t h have "historyIndex (addToHistory fullStack) = 49"
    and "length (history (run [ClearLevel, Undo] initialEngine)) \<le> 50" by blast+
  with h f e i he' len rt show ?thesis by simp
qed

section \<open>Placement\<close>

lemma find_None_occupied:
  "(find (\<lambda>ob. o_x ob = of_int gx \<and> o_y ob = of_int gy) (levelData s) = None) = (\<not> occupied s (gx, gy))"
  by (auto simp: find_None_iff occupied_def)

text \<open>
  Claim C4. With a placing tool selected (any tool but the selection and delete markers),
  a click on a cell that already holds an object at exactly that cell is rejected for
  every tool type except StartPos: the engine state is the same but for the pasted flag,
  so no object is added and no snapshot is recorded. A StartPos click at grid-x below 0
  is rejected in the same way, and a StartPos click at grid-x of at least 0 places the
  object whether or not the cell is occupied. The handler is a total function: nothing is
  raised.
\<close>

theorem placement_on_occupied_cell:
  assumes "fst (selectedToolRef s) \<noteq> TOOL" and "fst (selectedToolRef s) \<noteq> DELETE"
  shows "(fst (selectedToolRef s) \<noteq> START_POS \<and> occupied s (clickCell cx cy s)
            \<longrightarrow> handleEditorClick cx cy sh dr newId s = s\<lparr> isPastedSelection := False \<rparr>)
       \<and> (fst (selectedToolRef s) = START_POS \<and> fst (clickCell cx cy s) < 0
            \<longrightarrow> handleEditorClick cx cy sh dr newId s = s\<lparr> isPastedSelection := False \<rparr>)
       \<and> (fst (selectedToolRef s) = START_POS \<and> 0 \<le> fst (clickCell cx cy s)
            \<longrightarrow> levelData (handleEditorClick cx cy sh dr newId s)
                  = levelData s @ [newObject newId (clickCell cx cy s) s]
                \<and> selectedObjects (handleEditorClick cx cy sh dr newId s) = [newId])"
proof -
  have e: "s\<lparr> isPastedSelection := False \<rparr> = s" if "\<not> isPastedSelection s"
    using that by simp
  show ?thesis
    using assms
    by (auto simp: handleEditorClick_def placeClick_def Let_def clickCell_def newObject_def
                   find_None_occupied e)
qed

theorem placement_on_occupied_cell_witness:
  "occupied (syncSelectedTool (SPIKE, 1) occupiedSample)
     (clickCell 10 10 (syncSelectedTool (SPIKE, 1) occupiedSample))
   \<and> handleEditorClick 10 10 False False ''b'' (syncSelectedTool (SPIKE, 1) occupiedSample)
     = (syncSelectedTool (SPIKE, 1) occupiedSample)\<lparr> isPastedSelection := False \<rparr>
   \<and> handleEditorClick (- 10) 10 False False ''b'' (syncSelectedTool (START_POS, 1) occupiedSample)
     = (syncSelectedTool (START_POS, 1) occupiedSample)\<lparr> isPastedSelection := False \<rparr>
   \<and> map o_type (levelData (handleEditorClick 10 10 False False ''b''
                               (syncSelectedTool (START_POS, 1) occupiedSample)))
     = [BLOCK, START_POS]"
proof -
  let ?s = "syncSelectedTool (SPIKE, 1) occupiedSample"
  let ?t = "syncSelectedTool (START_POS, 1) occupiedSample"
  have c1: "clickCell 10 10 ?s = (0, 0)" "clickCell 10 10 ?t = (0, 0)" "clickCell (- 10) 10 ?t = (- 1, 0)"
    by (simp_all add: clickCell_def syncSelectedTool_def occupiedSample_def initialEngine_def TILE_SIZE_def)
  have o1: "occupied ?s (clickCell 10 10 ?s)"
    by (simp add: c1) (simp add: occupied_def syncSelectedTool_def occupiedSample_def sampleBlock_def)
  have t1: "fst (selectedToolRef ?s) = SPIKE" "fst (selectedToolRef ?t) = START_POS"
    by (simp_all add: syncSelectedTool_def)
  have l: "levelData ?t = [sampleBlock ''a'' 0 0]"
    by (simp add: syncSelectedTool_def occupiedSample_def)
  show ?thesis
    using placement_on_occupied_cell [of ?s 10 10 False False "''b''"]
          placement_on_occupied_cell [of ?t "- 10" 10 False False "''b''"]
          placement_on_occupied_cell [of ?t 10 10 False False "''b''"]
          o1 t1 c1
    by (simp add: l newObject_def sampleBlock_def)
qed

section \<open>Rotation of a single selection\<close>

lemma floor_times:
  fixes a b :: real
  assumes "0 < b"
  shows "b * of_int \<lfloor>a / b\<rfloor> \<le> a" and "a < b * of_int \<lfloor>a / b\<rfloor> + b"
proof -
  have e: "b * (a / b) = a" using assms by simp
  have "b * of_int \<lfloor>a / b\<rfloor> \<le> b * (a / b)"
    using assms by (intro mult_left_mono) simp_all
  then show "b * of_int \<lfloor>a / b\<rfloor> \<le> a" using e by simp
  have "a / b < of_int \<lfloor>a / b\<rfloor> + 1" by linarith
  then have "b * (a / b) < b * (of_int \<lfloor>a / b\<rfloor> + 1)"
    using assms by (intro mult_strict_left_mono) simp_all
  then show "a < b * of_int \<lfloor>a / b\<rfloor> + b" using e by (simp add: distrib_left)
qed

lemma ceiling_times:
  fixes a b :: real
  assumes "0 < b"
  shows "a \<le> b * of_int \<lceil>a / b\<rceil>" and "b * of_int \<lceil>a / b\<rceil> < a + b"
proof -
  have e: "b * (a / b) = a" using assms by simp
  have "b * (a / b) \<le> b * of_int \<lceil>a / b\<rceil>"
    using assms by (intro mult_left_mono) simp_all
  then show "a \<le> b * of_int \<lceil>a / b\<rceil>" using e by simp
  have "of_int \<lceil>a / b\<rceil> < a / b + 1" by linarith
  then have "b * of_int \<lceil>a / b\<rceil> < b * (a / b + 1)"
    using assms by (intro mult_strict_left_mono) simp_all
  then show "b * of_int \<lceil>a / b\<rceil> < a + b" using e by (simp add: distrib_left)
qed

lemma js_rem_range:
  assumes "0 < b"
  shows "- b < js_rem a b" and "js_rem a b < b" and "0 \<le> a \<Longrightarrow> 0 \<le> js_rem a b"
proof -
  note fm = floor_times [OF assms, of a] and cm = ceiling_times [OF assms, of a]
  have s: "0 \<le> a / b \<longleftrightarrow> 0 \<le> a" using assms by (simp add: zero_le_divide_iff)
  show "- b < js_rem a b" using fm cm assms by (auto simp: js_rem_def js_trunc_def)
  show "js_rem a b < b" using fm cm assms by (auto simp: js_rem_def js_trunc_def)
  show "0 \<le> a \<Longrightarrow> 0 \<le> js_rem a b" using fm s by (auto simp: js_rem_def js_trunc_def)
qed

lemma blockRotation_cases:
  assumes "o_type obj = BLOCK"
  shows "singleRotation obj angle relative \<in> {0, 90, 180, 270, 360}"
proof -
  define a where "a = (if relative then rotationOr0 obj + angle else angle)"
  define n where "n = (if js_rem a 360 < 0 then js_rem a 360 + 360 else js_rem a 360)"
  have r: "0 \<le> n" "n < 360"
    using js_rem_range(1,2) [of 360 a] by (auto simp: n_def)
  define k where "k = \<lfloor>n / 90 + 1 / 2\<rfloor>"
  have "0 \<le> k" "k \<le> 4" using r unfolding k_def by (simp_all add: le_floor_iff floor_le_iff)
  then have "k \<in> {0, 1, 2, 3, 4}" by auto
  moreover have "singleRotation obj angle relative = of_int k * 90"
    using assms by (simp add: singleRotation_def Let_def js_round_def a_def n_def k_def)
  ultimately show ?thesis by auto
qed


lemma js_rem_small:
  assumes "0 \<le> a" and "a < b"
  shows "js_rem a b = a"
proof -
  have "\<lfloor>a / b\<rfloor> = 0" using assms by (simp add: floor_eq_iff)
  moreover have "0 \<le> a / b" using assms by simp
  ultimately show ?thesis by (simp add: js_rem_def js_trunc_def)
qed

lemma blockRotation_360:
  assumes "o_type obj = BLOCK" and "315 \<le> angle" and "angle < 360"
  shows "singleRotation obj angle False = 360"
proof -
  have r: "js_rem angle 360 = angle" using assms by (intro js_rem_small) simp_all
  have "\<lfloor>angle / 90 + 1 / 2\<rfloor> = 4" using assms by (simp add: floor_eq_iff)
  then show ?thesis
    using assms by (simp add: singleRotation_def Let_def js_round_def r)
qed

lemma rotateSelection_single:
  assumes "length (selectedObjects s) = 1"
  shows "levelData (rotateSelection angle relative s)
        = map (\<lambda>obj. if o_id obj \<in> set (selectedObjects s)
                      then obj\<lparr> o_rotation := Some (singleRotation obj angle relative) \<rparr>
                      else obj) (levelData s)"
  using assms by (simp add: rotateSelection_def Let_def split: option.splits)

text \<open>
  The single-selection path of \<open>rotateSelection\<close> brings the angle into the interval from
  0 up to but excluding 360 and only then snaps a Block to the nearest multiple of 90:
  the stored rotation of a Block is one of 0, 90, 180, 270 and 360, and every absolute
  angle from 315 up to 360 is stored as 360.
\<close>

lemma rotateSelection_block_values:
  assumes "length (selectedObjects s) = 1"
  shows "\<forall>ob \<in> set (levelData (rotateSelection angle relative s)).
           o_id ob \<in> set (selectedObjects s) \<and> o_type ob = BLOCK
           \<longrightarrow> o_rotation ob \<in> Some ` {0, 90, 180, 270, 360}"
proof (intro ballI impI)
  fix ob
  assume m: "ob \<in> set (levelData (rotateSelection angle relative s))"
    and c: "o_id ob \<in> set (selectedObjects s) \<and> o_type ob = BLOCK"
  note eq = rotateSelection_single [OF assms, of angle relative]
  let ?f = "\<lambda>obj. if o_id obj \<in> set (selectedObjects s)
                   then obj\<lparr> o_rotation := Some (singleRotation obj angle relative) \<rparr>
                   else obj"
  from m have "ob \<in> ?f ` set (levelData s)" unfolding eq set_map .
  then obtain obj where ob: "ob = ?f obj" by (rule imageE)
  with c have b: "o_type obj = BLOCK"
    and r: "o_rotation ob = Some (singleRotation obj angle relative)"
    by (auto split: if_splits)
  show "o_rotation ob \<in> Some ` {0, 90, 180, 270, 360}"
    unfolding r by (rule imageI) (rule blockRotation_cases [OF b])
qed

lemma rotateSelection_block_360:
  assumes "length (selectedObjects s) = 1" and "315 \<le> angle" and "angle < 360"
  shows "\<forall>ob \<in> set (levelData (rotateSelection angle False s)).
           o_id ob \<in> set (selectedObjects s) \<and> o_type ob = BLOCK
           \<longrightarrow> o_rotation ob = Some 360"
proof (intro ballI impI)
  fix ob
  assume m: "ob \<in> set (levelData (rotateSelection angle False s))"
    and c: "o_id ob \<in> set (selectedObjects s) \<and> o_type ob = BLOCK"
  note eq = rotateSelection_single [OF assms(1), of angle False]
  let ?f = "\<lambda>obj. if o_id obj \<in> set (selectedObjects s)
                   then obj\<lparr> o_rotation := Some (singleRotation obj angle False) \<rparr>
                   else obj"
  from m have "ob \<in> ?f ` set (levelData s)" unfolding eq set_map .
  then obtain obj where ob: "ob = ?f obj" by (rule imageE)
  with c have b: "o_type obj = BLOCK"
    and r: "o_rotation ob = Some (singleRotation obj angle False)"
    by (auto split: if_splits)
  show "o_rotation ob = Some 360"
    unfolding r by (simp add: blockRotation_360 [OF b assms(2,3)])
qed

text \<open>
  Claim C6 fails in the code. With one Block selected, an absolute rotation by 350 or by
  315 degrees, and a relative rotation by -10 degrees of an unrotated Block, store the
  rotation 360, which lies outside the interval from 0 up to but excluding 360; the tool
  rotation remembered for the next placement becomes 360 as well. A relative rotation by
  90 degrees stores 90.
\<close>

theorem block_rotation_reaches_360:
  "length (selectedObjects occupiedSample) = 1
   \<and> map o_type (levelData occupiedSample) = [BLOCK]
   \<and> map o_rotation (levelData occupiedSample) = [Some 0]
   \<and> map o_rotation (levelData (rotateSelection 350 False occupiedSample)) = [Some 360]
   \<and> map o_rotation (levelData (rotateSelection 315 False occupiedSample)) = [Some 360]
   \<and> map o_rotation (levelData (rotateSelection (- 10) True occupiedSample)) = [Some 360]
   \<and> lastToolRotation (rotateSelection 350 False occupiedSample) = 360
   \<and> map o_rotation (levelData (rotateSelection 90 True occupiedSample)) = [Some 90]"
proof -
  have c: "\<lceil>- (1 / 36 :: real)\<rceil> = 0" by (simp add: ceiling_eq_iff)
  show ?thesis
    by (simp add: rotateSelection_def Let_def occupiedSample_def sampleBlock_def set_first_def
          singleRotation_def rotationOr0_def js_rem_def js_trunc_def js_round_def c)
qed

section \<open>Moving the selection\<close>

lemma newIdMap_distinct:
  "distinct (map o_id objs) \<Longrightarrow> newIdMap objs = map (\<lambda>ob. (o_id ob, ob)) objs"
proof (induction objs rule: rev_induct)
  case Nil
  then show ?case by (simp add: newIdMap_def)
next
  case (snoc ob objs)
  then have ih: "newIdMap objs = map (\<lambda>ob. (o_id ob, ob)) objs"
    and fresh: "o_id ob \<notin> o_id ` set objs" by auto
  have "newIdMap (objs @ [ob]) = map_set (newIdMap objs) (o_id ob, ob)"
    by (simp add: newIdMap_def)
  also have "\<dots> = map (\<lambda>ob. (o_id ob, ob)) objs @ [(o_id ob, ob)]"
    using fresh by (simp add: ih map_set_def image_image)
  finally show ?case by simp
qed

lemma map_of_idMap:
  assumes "distinct (map o_id objs)"
  shows "(map_of (map (\<lambda>ob. (o_id ob, ob)) objs) i = Some sp) = (sp \<in> set objs \<and> o_id sp = i)"
proof -
  have "distinct (map fst (map (\<lambda>ob. (o_id ob, ob)) objs))"
    using assms by (simp add: comp_def)
  then show ?thesis by (auto simp: map_of_eq_Some_iff)
qed

lemma clamp_fold:
  fixes m :: "(string \<times> LevelObject) list"
  defines "S \<equiv> \<lambda>ids. {sp. o_type sp = START_POS \<and> (\<exists>i \<in> set ids. map_of m i = Some sp)}"
  shows "dx \<le> foldl (clampStep m) dx ids
         \<and> (\<forall>sp \<in> S ids. 0 \<le> o_x sp + foldl (clampStep m) dx ids)
         \<and> (foldl (clampStep m) dx ids = dx \<or> (\<exists>sp \<in> S ids. foldl (clampStep m) dx ids = - o_x sp))"
proof (induction ids rule: rev_induct)
  case Nil
  then show ?case by (simp add: S_def)
next
  case (snoc i ids)
  define r where "r = foldl (clampStep m) dx ids"
  define r' where "r' = clampStep m r i"
  have f: "foldl (clampStep m) dx (ids @ [i]) = r'" by (simp add: r_def r'_def)
  have mono: "r \<le> r'" by (auto simp: r'_def clampStep_def split: option.splits)
  have sub: "S ids \<subseteq> S (ids @ [i])" by (auto simp: S_def)
  have new: "sp \<in> S (ids @ [i]) \<Longrightarrow> sp \<notin> S ids \<Longrightarrow> map_of m i = Some sp \<and> o_type sp = START_POS" for sp
    by (auto simp: S_def)
  have p1: "dx \<le> r'" using snoc mono by (simp add: r_def)
  have p2: "\<forall>sp \<in> S (ids @ [i]). 0 \<le> o_x sp + r'"
  proof
    fix sp assume a: "sp \<in> S (ids @ [i])"
    show "0 \<le> o_x sp + r'"
    proof (cases "sp \<in> S ids")
      case True
      with snoc have "0 \<le> o_x sp + r" by (simp add: r_def)
      with mono show ?thesis by simp
    next
      case False
      from new [OF a False] show ?thesis by (auto simp: r'_def clampStep_def)
    qed
  qed
  have p3: "r' = dx \<or> (\<exists>sp \<in> S (ids @ [i]). r' = - o_x sp)"
  proof (cases "r' = r")
    case True
    with snoc sub show ?thesis unfolding r_def by blast
  next
    case False
    then obtain sp where "map_of m i = Some sp" "o_type sp = START_POS" "r' = - o_x sp"
      by (auto simp: r'_def clampStep_def split: option.splits if_splits)
    then have "sp \<in> S (ids @ [i])" by (auto simp: S_def)
    with \<open>r' = - o_x sp\<close> show ?thesis by blast
  qed
  show ?case unfolding f using p1 p2 p3 by blast
qed

lemma roundCents_zero [simp]: "roundCents 0 = 0"
  by (simp add: roundCents_def js_round_def)

lemma roundCents_nonneg: "0 \<le> v \<Longrightarrow> 0 \<le> roundCents v"
  by (simp add: roundCents_def js_round_def)

lemma moveObj_nonneg: "0 \<le> o_x sp + adx \<Longrightarrow> 0 \<le> o_x (moveObj adx dy sp)"
  by (simp add: moveObj_def roundCents_nonneg)

lemma adjustedDx_props:
  assumes "distinct (map o_id (levelData s))"
  shows "dx \<le> adjustedDx s dx"
    and "selStartPos s sp \<Longrightarrow> 0 \<le> o_x sp + adjustedDx s dx"
    and "adjustedDx s dx = dx \<or> (\<exists>sp. selStartPos s sp \<and> adjustedDx s dx = - o_x sp)"
proof -
  let ?m = "newIdMap (levelData s)"
  let ?S = "{sp. o_type sp = START_POS \<and> (\<exists>i \<in> set (selectedObjects s). map_of ?m i = Some sp)}"
  have S: "sp \<in> ?S \<longleftrightarrow> selStartPos s sp" for sp
    using map_of_idMap [OF assms] by (auto simp: newIdMap_distinct [OF assms] selStartPos_def)
  note c = clamp_fold [of dx ?m "selectedObjects s", folded adjustedDx_def]
  show "dx \<le> adjustedDx s dx" using c by blast
  show "selStartPos s sp \<Longrightarrow> 0 \<le> o_x sp + adjustedDx s dx" using c S by blast
  show "adjustedDx s dx = dx \<or> (\<exists>sp. selStartPos s sp \<and> adjustedDx s dx = - o_x sp)"
    using c S by blast
qed

lemma adjustedDx_leftmost:
  assumes "distinct (map o_id (levelData s))" and "selStartPos s sp" and "o_x sp + dx < 0"
  shows "\<exists>sp0. selStartPos s sp0 \<and> (\<forall>sp'. selStartPos s sp' \<longrightarrow> o_x sp0 \<le> o_x sp')
               \<and> adjustedDx s dx = - o_x sp0"
proof -
  note p = adjustedDx_props [OF assms(1), where dx = dx]
  from p(2) [OF assms(2)] assms(3) have "adjustedDx s dx \<noteq> dx" by auto
  with p(3) obtain sp0 where s0: "selStartPos s sp0" "adjustedDx s dx = - o_x sp0" by blast
  have "o_x sp0 \<le> o_x sp'" if "selStartPos s sp'" for sp'
    using p(2) [OF that] s0(2) by simp
  with s0 show ?thesis by blast
qed


lemma isFinite_small: "\<bar>v\<bar> \<le> 1000 \<Longrightarrow> isFinite v"
  by (rule safe_isFinite) (simp add: MAX_SAFE_INTEGER_def)



section \<open>Start position chosen by a playtest reset\<close>

lemma insert_by_set [simp]: "set (insert_by cmp a xs) = insert a (set xs)"
  by (induction xs) auto

lemma js_sort_set [simp]: "set (js_sort cmp xs) = set xs"
proof -
  have "set (foldl (\<lambda>acc a. insert_by cmp a acc) acc xs) = set acc \<union> set xs" for acc
    by (induction xs arbitrary: acc) auto
  then show ?thesis by (simp add: js_sort_def)
qed

lemma insert_by_sorted:
  assumes tr: "\<And>a b c. a \<in> A \<Longrightarrow> b \<in> A \<Longrightarrow> c \<in> A \<Longrightarrow> cmp a b < 0 \<Longrightarrow> cmp b c < 0 \<Longrightarrow> cmp a c < 0"
    and asym: "\<And>a b. a \<in> A \<Longrightarrow> b \<in> A \<Longrightarrow> cmp a b < 0 \<Longrightarrow> \<not> cmp b a < 0"
    and "a \<in> A" and "set xs \<subseteq> A"
    and "sorted_wrt (\<lambda>u v. \<not> cmp v u < 0) xs"
  shows "sorted_wrt (\<lambda>u v. \<not> cmp v u < 0) (insert_by cmp a xs)"
  using assms(4,5)
proof (induction xs)
  case Nil
  then show ?case by simp
next
  case (Cons b bs)
  show ?case
  proof (cases "cmp a b < 0")
    case True
    have "\<not> cmp c a < 0" if "c \<in> set bs" for c
    proof
      assume "cmp c a < 0"
      with True have "cmp c b < 0" using tr [of c a b] that Cons.prems(1) assms(3) by auto
      moreover have "\<not> cmp c b < 0" using Cons.prems(2) that by auto
      ultimately show False by contradiction
    qed
    moreover have "\<not> cmp b a < 0" using asym [of a b] True assms(3) Cons.prems(1) by auto
    ultimately show ?thesis using True Cons.prems(2) by auto
  next
    case False
    then show ?thesis using Cons by auto
  qed
qed

lemma js_sort_sorted:
  assumes tr: "\<And>a b c. a \<in> A \<Longrightarrow> b \<in> A \<Longrightarrow> c \<in> A \<Longrightarrow> cmp a b < 0 \<Longrightarrow> cmp b c < 0 \<Longrightarrow> cmp a c < 0"
    and asym: "\<And>a b. a \<in> A \<Longrightarrow> b \<in> A \<Longrightarrow> cmp a b < 0 \<Longrightarrow> \<not> cmp b a < 0"
    and "set xs \<subseteq> A"
  shows "sorted_wrt (\<lambda>u v. \<not> cmp v u < 0) (js_sort cmp xs)"
proof -
  have "sorted_wrt (\<lambda>u v. \<not> cmp v u < 0) (foldl (\<lambda>acc a. insert_by cmp a acc) acc xs)
        \<and> set (foldl (\<lambda>acc a. insert_by cmp a acc) acc xs) \<subseteq> A"
    if "sorted_wrt (\<lambda>u v. \<not> cmp v u < 0) acc" "set acc \<subseteq> A" "set xs \<subseteq> A" for acc
    using that
  proof (induction xs arbitrary: acc)
    case Nil
    then show ?case by simp
  next
    case (Cons x xs)
    have xa: "x \<in> A" using Cons.prems by simp
    have "sorted_wrt (\<lambda>u v. \<not> cmp v u < 0) (insert_by cmp x acc)"
      by (rule insert_by_sorted [where A = A, OF tr asym xa Cons.prems(2) Cons.prems(1)])
    moreover have "set (insert_by cmp x acc) \<subseteq> A" using Cons.prems by simp
    moreover have "set xs \<subseteq> A" using Cons.prems by simp
    ultimately have "sorted_wrt (\<lambda>u v. \<not> cmp v u < 0)
                       (foldl (\<lambda>acc a. insert_by cmp a acc) (insert_by cmp x acc) xs)
        \<and> set (foldl (\<lambda>acc a. insert_by cmp a acc) (insert_by cmp x acc) xs) \<subseteq> A"
      by (rule Cons.IH)
    then show ?case by (simp only: foldl.simps)
  qed
  from this [of "[]"] assms(3) show ?thesis by (simp add: js_sort_def)
qed

lemma startPositions_iff:
  "(p \<in> set (startPositions objs))
     = (snd p < length objs \<and> fst p = objs ! snd p \<and> isEnabledStartPos (fst p))"
  by (cases p) (auto simp: startPositions_def in_set_zip)

lemma startPosCompare_lt:
  assumes "o_x (fst a) = o_x (fst b) \<or> \<bar>o_x (fst a) - o_x (fst b)\<bar> > 1 / 100"
  shows "(startPosCompare a b < 0)
         = (o_x (fst a) < o_x (fst b) \<or> (o_x (fst a) = o_x (fst b) \<and> snd b < snd a))"
  using assms by (auto simp: startPosCompare_def)

lemma bestStartPos_least:
  assumes sep: "\<forall>a \<in> set objs. \<forall>b \<in> set objs. isEnabledStartPos a \<and> isEnabledStartPos b
                  \<longrightarrow> o_x a = o_x b \<or> \<bar>o_x a - o_x b\<bar> > 1 / 100"
    and ne: "\<exists>ob \<in> set objs. isEnabledStartPos ob"
  shows "\<exists>j < length objs. bestStartPos objs = Some (objs ! j) \<and> isEnabledStartPos (objs ! j)
           \<and> (\<forall>i < length objs. isEnabledStartPos (objs ! i)
                  \<longrightarrow> o_x (objs ! j) < o_x (objs ! i)
                      \<or> (o_x (objs ! j) = o_x (objs ! i) \<and> i \<le> j))"
proof -
  define A where "A = set (startPositions objs)"
  have mem: "p \<in> A \<longleftrightarrow> snd p < length objs \<and> fst p = objs ! snd p \<and> isEnabledStartPos (fst p)" for p
    by (simp add: A_def startPositions_iff)
  have lt: "(startPosCompare a b < 0)
         = (o_x (fst a) < o_x (fst b) \<or> (o_x (fst a) = o_x (fst b) \<and> snd b < snd a))"
    if "a \<in> A" "b \<in> A" for a b
  proof (rule startPosCompare_lt)
    from that have "fst a \<in> set objs" "fst b \<in> set objs"
      "isEnabledStartPos (fst a)" "isEnabledStartPos (fst b)"
      by (auto simp: mem)
    with sep show "o_x (fst a) = o_x (fst b) \<or> \<bar>o_x (fst a) - o_x (fst b)\<bar> > 1 / 100"
      by blast
  qed
  have tr: "startPosCompare a c < 0"
    if "a \<in> A" "b \<in> A" "c \<in> A" "startPosCompare a b < 0" "startPosCompare b c < 0" for a b c
    using that by (auto simp: lt)
  have asym: "\<not> startPosCompare b a < 0" if "a \<in> A" "b \<in> A" "startPosCompare a b < 0" for a b
    using that by (auto simp: lt)
  have srt: "sorted_wrt (\<lambda>u v. \<not> startPosCompare v u < 0) (js_sort startPosCompare (startPositions objs))"
    by (rule js_sort_sorted [where A = A, OF tr asym]) (simp_all add: A_def)
  from ne obtain k where "k < length objs" "isEnabledStartPos (objs ! k)"
    by (auto simp: in_set_conv_nth)
  then have "(objs ! k, k) \<in> A" by (simp add: mem)
  then have "js_sort startPosCompare (startPositions objs) \<noteq> []"
    using js_sort_set [of startPosCompare "startPositions objs"] unfolding A_def by force
  then obtain h rest where hr: "js_sort startPosCompare (startPositions objs) = h # rest"
    by (cases "js_sort startPosCompare (startPositions objs)") auto
  have hA: "h \<in> A" and restA: "set rest \<subseteq> A"
    using js_sort_set [of startPosCompare "startPositions objs"] hr unfolding A_def by auto
  have all: "A = insert h (set rest)"
    using js_sort_set [of startPosCompare "startPositions objs"] hr unfolding A_def by auto
  have least: "\<not> startPosCompare b h < 0" if "b \<in> A" for b
  proof (cases "b = h")
    case True
    then show ?thesis using lt [OF hA hA] by simp
  next
    case False
    with that all have "b \<in> set rest" by auto
    with srt hr show ?thesis by simp
  qed
  have best: "bestStartPos objs = Some (fst h)"
    by (simp add: bestStartPos_def hr)
  show ?thesis
  proof (intro exI conjI allI impI)
    show "snd h < length objs" using hA by (simp add: mem)
    show "bestStartPos objs = Some (objs ! snd h)" using best hA by (auto simp: mem)
    show "isEnabledStartPos (objs ! snd h)" using hA by (auto simp: mem)
  next
    fix i assume i: "i < length objs" "isEnabledStartPos (objs ! i)"
    then have iA: "(objs ! i, i) \<in> A" by (simp add: mem)
    from least [OF iA] lt [OF iA hA] hA
    show "o_x (objs ! snd h) < o_x (objs ! i)
          \<or> (o_x (objs ! snd h) = o_x (objs ! i) \<and> i \<le> snd h)"
      by (auto simp: mem)
  qed
qed

lemma resetPlayer_spawn:
  assumes "bestStartPos (levelData s) = Some b" and "o_startPosData b = Some d"
  shows "p_x (player (resetPlayerInternal w False s)) = o_x b * TILE_SIZE"
    and "p_y (player (resetPlayerInternal w False s)) = o_y b * TILE_SIZE"
    and "p_vehicle (player (resetPlayerInternal w False s)) = spmode d"
    and "p_gravityReversed (player (resetPlayerInternal w False s)) = (reverseGravity d = Some True)"
  using assms by (simp_all add: resetPlayerInternal_def Let_def)

lemma separated_iff:
  "separated objs
   = (\<forall>a \<in> set objs. \<forall>b \<in> set objs. isEnabledStartPos a \<and> isEnabledStartPos b
                  \<longrightarrow> o_x a = o_x b \<or> \<bar>o_x a - o_x b\<bar> > 1 / 100)"
  by (auto simp: separated_def list_all_iff)

lemma leftmostLatest_iff:
  "leftmostLatest objs j
   = (j < length objs \<and> isEnabledStartPos (objs ! j)
      \<and> (\<forall>i < length objs. isEnabledStartPos (objs ! i)
            \<longrightarrow> o_x (objs ! j) < o_x (objs ! i)
                \<or> (o_x (objs ! j) = o_x (objs ! i) \<and> i \<le> j)))"
  by (auto simp: leftmostLatest_def list_all_iff)

lemma leftmostLatest_unique:
  assumes "leftmostLatest objs j" and "leftmostLatest objs k"
  shows "j = k"
proof -
  from assms have a: "j < length objs" "isEnabledStartPos (objs ! j)"
    "k < length objs" "isEnabledStartPos (objs ! k)"
    by (simp_all add: leftmostLatest_iff)
  from assms(1) a(3,4) have "o_x (objs ! j) < o_x (objs ! k)
      \<or> (o_x (objs ! j) = o_x (objs ! k) \<and> k \<le> j)"
    by (simp add: leftmostLatest_iff)
  moreover from assms(2) a(1,2) have "o_x (objs ! k) < o_x (objs ! j)
      \<or> (o_x (objs ! k) = o_x (objs ! j) \<and> j \<le> k)"
    by (simp add: leftmostLatest_iff)
  ultimately show ?thesis by auto
qed

lemma bestStartPos_leftmostLatest:
  assumes "separated objs" and "leftmostLatest objs j"
  shows "bestStartPos objs = Some (objs ! j)"
proof -
  have sep: "\<forall>a \<in> set objs. \<forall>b \<in> set objs. isEnabledStartPos a \<and> isEnabledStartPos b
                  \<longrightarrow> o_x a = o_x b \<or> \<bar>o_x a - o_x b\<bar> > 1 / 100"
    using assms(1) by (simp add: separated_iff)
  have ne: "\<exists>ob \<in> set objs. isEnabledStartPos ob"
    using assms(2) by (auto simp: leftmostLatest_iff)
  from bestStartPos_least [OF sep ne] obtain k where
    k: "k < length objs" "bestStartPos objs = Some (objs ! k)" "isEnabledStartPos (objs ! k)"
       "\<forall>i < length objs. isEnabledStartPos (objs ! i)
            \<longrightarrow> o_x (objs ! k) < o_x (objs ! i)
                \<or> (o_x (objs ! k) = o_x (objs ! i) \<and> i \<le> k)"
    by blast
  then have "leftmostLatest objs k" by (simp add: leftmostLatest_iff)
  with assms(2) have "j = k" by (rule leftmostLatest_unique)
  with k(2) show ?thesis by simp
qed

lemma leftmostLatest_exists:
  assumes "separated objs" and "list_ex isEnabledStartPos objs"
  shows "\<exists>j. leftmostLatest objs j"
proof -
  have sep: "\<forall>a \<in> set objs. \<forall>b \<in> set objs. isEnabledStartPos a \<and> isEnabledStartPos b
                  \<longrightarrow> o_x a = o_x b \<or> \<bar>o_x a - o_x b\<bar> > 1 / 100"
    using assms(1) by (simp add: separated_iff)
  have ne: "\<exists>ob \<in> set objs. isEnabledStartPos ob"
    using assms(2) by (simp add: list_ex_iff)
  from bestStartPos_least [OF sep ne] show ?thesis
    unfolding leftmostLatest_iff by blast
qed

text \<open>
  Claim C7, as amended. When the x values of any two enabled StartPos objects are equal
  or more than 0.01 apart, \<open>resetPlayer(false)\<close> selects the enabled StartPos with the
  smallest grid-x and, among those at that x, the one with the largest insertion index:
  such an object exists as soon as some StartPos is enabled, the reset selects it, and
  the player gets its position, its vehicle mode and its gravity. So of two enabled
  StartPos objects at the same x the one placed later is selected.
\<close>

theorem reset_spawns_at_leftmost_latest:
  assumes "separated (levelData s)"
  shows "(list_ex isEnabledStartPos (levelData s) \<longrightarrow> (\<exists>j. leftmostLatest (levelData s) j))
         \<and> (\<forall>j. leftmostLatest (levelData s) j \<longrightarrow>
               bestStartPos (levelData s) = Some (levelData s ! j)
               \<and> p_x (player (resetPlayerInternal w False s)) = o_x (levelData s ! j) * TILE_SIZE
               \<and> p_y (player (resetPlayerInternal w False s)) = o_y (levelData s ! j) * TILE_SIZE
               \<and> (\<exists>d. o_startPosData (levelData s ! j) = Some d
                      \<and> p_vehicle (player (resetPlayerInternal w False s)) = spmode d
                      \<and> p_gravityReversed (player (resetPlayerInternal w False s))
                          = (reverseGravity d = Some True)))"
proof (intro conjI allI impI)
  assume "list_ex isEnabledStartPos (levelData s)"
  with assms show "\<exists>j. leftmostLatest (levelData s) j" by (rule leftmostLatest_exists)
next
  fix j
  assume j: "leftmostLatest (levelData s) j"
  show b: "bestStartPos (levelData s) = Some (levelData s ! j)"
    using assms j by (rule bestStartPos_leftmostLatest)
  from j have "isEnabledStartPos (levelData s ! j)" by (simp add: leftmostLatest_iff)
  then obtain d where d: "o_startPosData (levelData s ! j) = Some d"
    by (auto simp: isEnabledStartPos_def split: option.splits)
  show "p_x (player (resetPlayerInternal w False s)) = o_x (levelData s ! j) * TILE_SIZE"
    and "p_y (player (resetPlayerInternal w False s)) = o_y (levelData s ! j) * TILE_SIZE"
    by (rule resetPlayer_spawn [OF b d])+
  show "\<exists>d. o_startPosData (levelData s ! j) = Some d
            \<and> p_vehicle (player (resetPlayerInternal w False s)) = spmode d
            \<and> p_gravityReversed (player (resetPlayerInternal w False s))
                = (reverseGravity d = Some True)"
    using d resetPlayer_spawn(3,4) [OF b d] by blast
qed

lemmas start_defs =
  isEnabledStartPos_def sampleStartPos_def sampleShipStart_def defaultStartPosData_def

text \<open>Two enabled StartPos objects on the cell (3, 5), a cube start and, placed later, a
  start for a ship in reversed gravity: the reset selects the second.\<close>

theorem reset_spawns_at_leftmost_latest_witness:
  "separated (levelData twoStartTie)
   \<and> map isEnabledStartPos (levelData twoStartTie) = [True, True]
   \<and> map o_x (levelData twoStartTie) = [3, 3]
   \<and> leftmostLatest (levelData twoStartTie) 1
   \<and> bestStartPos (levelData twoStartTie) = Some (sampleShipStart ''b'' 3 5)
   \<and> p_vehicle (player (resetPlayerInternal 1000 False twoStartTie)) = Some SHIP
   \<and> p_gravityReversed (player (resetPlayerInternal 1000 False twoStartTie))
   \<and> p_x (player (resetPlayerInternal 1000 False twoStartTie)) = 3 * TILE_SIZE"
proof -
  have l: "levelData twoStartTie = [sampleStartPos ''a'' 3 5, sampleShipStart ''b'' 3 5]"
    by (simp add: twoStartTie_def)
  have sep: "separated (levelData twoStartTie)"
    by (simp add: l separated_def start_defs)
  have en: "map isEnabledStartPos (levelData twoStartTie) = [True, True]"
    "map o_x (levelData twoStartTie) = [3, 3]"
    by (simp_all add: l start_defs)
  have ll: "leftmostLatest (levelData twoStartTie) 1"
    by (simp add: l leftmostLatest_def start_defs upt_rec)
  from reset_spawns_at_leftmost_latest [OF sep, of 1000] ll obtain d where
    t: "bestStartPos (levelData twoStartTie) = Some (levelData twoStartTie ! 1)"
       "p_x (player (resetPlayerInternal 1000 False twoStartTie))
          = o_x (levelData twoStartTie ! 1) * TILE_SIZE"
       "o_startPosData (levelData twoStartTie ! 1) = Some d"
       "p_vehicle (player (resetPlayerInternal 1000 False twoStartTie)) = spmode d"
       "p_gravityReversed (player (resetPlayerInternal 1000 False twoStartTie))
          = (reverseGravity d = Some True)"
    by blast
  from t(3) have d: "d = \<lparr> spmode = Some SHIP, reverseGravity = Some True, enabled = Some True \<rparr>"
    by (simp add: l sampleShipStart_def)
  from t(1,2,4,5) sep en ll show ?thesis
    by (simp add: d l sampleShipStart_def)
qed

text \<open>Claim C7 as stated fails for x values within the tolerance of the comparator: with
  an enabled StartPos at x = 3 and, placed later, one at x = 3.005, the reset selects the
  later one, whose grid-x is not the smallest.\<close>

theorem reset_spawn_counterexample:
  "map isEnabledStartPos (levelData twoStartNear) = [True, True]
   \<and> o_x (levelData twoStartNear ! 0) < o_x (levelData twoStartNear ! 1)
   \<and> bestStartPos (levelData twoStartNear) = Some (levelData twoStartNear ! 1)
   \<and> p_x (player (resetPlayerInternal 1000 False twoStartNear))
       = o_x (levelData twoStartNear ! 1) * TILE_SIZE
   \<and> p_vehicle (player (resetPlayerInternal 1000 False twoStartNear)) = Some SHIP"
proof -
  have b: "bestStartPos (levelData twoStartNear) = Some (levelData twoStartNear ! 1)"
    by (simp add: twoStartNear_def bestStartPos_def startPositions_def start_defs
          js_sort_def startPosCompare_def upt_rec)
  have d: "o_startPosData (levelData twoStartNear ! 1)
           = Some \<lparr> spmode = Some SHIP, reverseGravity = Some True, enabled = Some True \<rparr>"
    by (simp add: twoStartNear_def sampleShipStart_def)
  have "map isEnabledStartPos (levelData twoStartNear) = [True, True]"
    "o_x (levelData twoStartNear ! 0) < o_x (levelData twoStartNear ! 1)"
    by (simp_all add: twoStartNear_def start_defs)
  with b resetPlayer_spawn(1,3) [OF b d, of 1000] show ?thesis by simp
qed

section \<open>Trigger data sits on Trigger objects\<close>

lemma triggersOnly_simps [simp]:
  "triggersOnly []"
  "triggersOnly (ob # objs) = (triggerDataOk ob \<and> triggersOnly objs)"
  "triggersOnly (xs @ ys) = (triggersOnly xs \<and> triggersOnly ys)"
  by (auto simp: triggersOnly_def)

lemma triggersOnly_filter: "triggersOnly objs \<Longrightarrow> triggersOnly (filter P objs)"
  by (auto simp: triggersOnly_def)

lemma triggersOnly_map:
  "triggersOnly objs \<Longrightarrow> (\<And>ob. triggerDataOk ob \<Longrightarrow> triggerDataOk (f ob)) \<Longrightarrow>
   triggersOnly (map f objs)"
  by (auto simp: triggersOnly_def)

lemma triggersOnly_subset: "triggersOnly objs \<Longrightarrow> set objs' \<subseteq> set objs \<Longrightarrow> triggersOnly objs'"
  by (auto simp: triggersOnly_def)

lemma triggersOnly_update:
  "triggersOnly objs \<Longrightarrow> triggerDataOk ob \<Longrightarrow> triggersOnly (objs[k := ob])"
  using set_update_subset_insert [of objs k ob] by (auto simp: triggersOnly_def)

lemma triggerDataOk_fields [simp]:
  "triggerDataOk (ob\<lparr> o_id := i \<rparr>) = triggerDataOk ob"
  "triggerDataOk (ob\<lparr> o_rotation := r \<rparr>) = triggerDataOk ob"
  "triggerDataOk (ob\<lparr> o_startPosData := d \<rparr>) = triggerDataOk ob"
  "triggerDataOk (moveObj adx dy ob) = triggerDataOk ob"
  "triggerDataOk (multiRotate cx cy a ob) = triggerDataOk ob"
  by (simp_all add: triggerDataOk_def moveObj_def multiRotate_def Let_def)

lemma deleteTopmost_subset: "deleteTopmost r objs = Some objs' \<Longrightarrow> set objs' \<subseteq> set objs"
  by (induction objs arbitrary: objs') (auto split: option.splits if_splits)

lemma map_set_values: "snd ` set (map_set m kv) \<subseteq> insert (snd kv) (snd ` set m)"
  by (auto simp: map_set_def)

lemma newIdMap_values: "snd ` set (newIdMap objs) \<subseteq> set objs"
proof -
  have "snd ` set (foldl map_set acc (map (\<lambda>ob. (o_id ob, ob)) objs)) \<subseteq> snd ` set acc \<union> set objs"
    for acc
  proof (induction objs arbitrary: acc)
    case Nil
    then show ?case by simp
  next
    case (Cons ob objs)
    from Cons [of "map_set acc (o_id ob, ob)"] map_set_values [of acc "(o_id ob, ob)"]
    show ?case by auto
  qed
  from this [of "[]"] show ?thesis by (simp add: newIdMap_def)
qed

lemma triggersOnly_moved:
  assumes "triggersOnly objs"
  shows "triggersOnly (map (\<lambda>(k, ob). if k \<in> S then moveObj adx dy ob else ob) (newIdMap objs))"
proof -
  have "triggerDataOk ob" if "(k, ob) \<in> set (newIdMap objs)" for k ob
  proof -
    from that have "ob \<in> snd ` set (newIdMap objs)" by force
    with newIdMap_values assms show ?thesis by (auto simp: triggersOnly_def)
  qed
  then show ?thesis by (auto simp: triggersOnly_def)
qed

lemma triggersOnly_pasted:
  "triggersOnly objs \<Longrightarrow>
   triggersOnly (map (\<lambda>(i, obj). obj\<lparr> o_id := g i \<rparr>) (enumerate n objs))"
  by (auto simp: triggersOnly_def in_set_enumerate_eq)

lemma triggerDataOk_json [simp]:
  "triggerDataOk (parseObject (stringifyObject ob)) = triggerDataOk ob"
  by (cases "o_triggerData ob")
     (simp_all add: triggerDataOk_def parseObject_def stringifyObject_def)

lemma triggersOnly_json:
  "triggersOnly (map parseObject (map stringifyObject objs)) = triggersOnly objs"
  by (simp add: triggersOnly_def)

lemma history_addToHistory_subset:
  "set (history (addToHistory t)) \<subseteq> insert (getCurrentState t) (set (history t))"
proof -
  define h0 where "h0 = (if historyIndex t < int (length (history t)) - 1
                then js_slice0 (history t) (historyIndex t + 1) else history t)"
  have s0: "set h0 \<subseteq> set (history t)"
    by (auto simp: h0_def js_slice0_def Let_def dest: in_set_takeD)
  have tl: "set (tl xs) \<subseteq> set xs" for xs :: "Snapshot list"
    by (cases xs) auto
  have "history (addToHistory t) = (if length (h0 @ [getCurrentState t]) > 50
          then tl (h0 @ [getCurrentState t]) else h0 @ [getCurrentState t])"
    by (simp add: addToHistory_def Let_def h0_def)
  then have "set (history (addToHistory t)) \<subseteq> set (h0 @ [getCurrentState t])"
    using tl [of "h0 @ [getCurrentState t]"] by (simp split: if_splits)
  with s0 show ?thesis by auto
qed

lemma histTriggersOnly_addToHistory:
  assumes "histTriggersOnly (history t)" and "triggersOnly (levelData t)"
  shows "histTriggersOnly (history (addToHistory t))"
proof -
  have "triggersOnly (map parseObject (snap_objects (getCurrentState t)))"
    using assms(2) by (simp add: getCurrentState_def triggersOnly_json del: map_map)
  with history_addToHistory_subset [of t] assms(1) show ?thesis
    by (auto simp: histTriggersOnly_def)
qed

lemma js_index_mem: "js_index h i = Some e \<Longrightarrow> e \<in> set h"
  by (auto simp: js_index_def split: if_splits)

lemma restoreState_triggersOnly:
  assumes "histTriggersOnly h" and "triggersOnly (levelData s)"
  shows "triggersOnly (levelData (restoreState (js_index h i) s))"
  using assms js_index_mem [of h i]
  by (auto simp: restoreState_def histTriggersOnly_def split: option.splits)

lemma restoreState_other [simp]:
  "clipboard (restoreState e s) = clipboard s"
  by (simp add: restoreState_def split: option.splits)

lemma triggerDataOk_newObject:
  "triggerDataOk \<lparr> o_id = i, o_x = gx, o_y = gy, o_type = t, o_subtype = st, o_rotation = r,
       o_triggerData = (if t = TRIGGER then Some d else None), o_startPosData = sp \<rparr>"
  by (simp add: triggerDataOk_def)

lemma triggersOnly_nth: "triggersOnly objs \<Longrightarrow> k < length objs \<Longrightarrow> triggerDataOk (objs ! k)"
  by (simp add: triggersOnly_def)

lemma findIndex_bound: "findIndex i objs = Some k \<Longrightarrow> k < length objs"
  by (induction objs arbitrary: k) (auto split: if_splits option.splits)

lemma store_addToHistory: "storeTriggersOnly t \<Longrightarrow> storeTriggersOnly (addToHistory t)"
  using histTriggersOnly_addToHistory [of t]
  by (simp add: storeTriggersOnly_def histTriggersOnly_def [symmetric])

lemma store_levelData:
  "storeTriggersOnly s \<Longrightarrow> triggersOnly d \<Longrightarrow> storeTriggersOnly (s\<lparr> levelData := d \<rparr>)"
  by (simp add: storeTriggersOnly_def)

lemma store_restoreState:
  "storeTriggersOnly s \<Longrightarrow> storeTriggersOnly (restoreState (js_index (history s) i) s)"
  using js_index_mem [of "history s" i]
  by (auto simp: storeTriggersOnly_def restoreState_def split: option.splits)

lemma store_undo: "storeTriggersOnly s \<Longrightarrow> storeTriggersOnly (undo s)"
proof -
  assume a: "storeTriggersOnly s"
  have "storeTriggersOnly (s\<lparr> historyIndex := j \<rparr>)" for j
    using a by (simp add: storeTriggersOnly_def)
  from store_restoreState [OF this] show ?thesis using a by (simp add: undo_def Let_def)
qed

lemma store_redo: "storeTriggersOnly s \<Longrightarrow> storeTriggersOnly (redo s)"
proof -
  assume a: "storeTriggersOnly s"
  have "storeTriggersOnly (s\<lparr> historyIndex := j \<rparr>)" for j
    using a by (simp add: storeTriggersOnly_def)
  from store_restoreState [OF this] show ?thesis using a by (simp add: redo_def Let_def)
qed

lemma store_placeClick: "storeTriggersOnly s \<Longrightarrow> storeTriggersOnly (placeClick gx gy nid s)"
proof -
  assume a: "storeTriggersOnly s"
  have "storeTriggersOnly
          (addToHistory (s\<lparr> levelData := levelData s @ [ob], selectedObjects := x \<rparr>))"
    if "triggerDataOk ob" for ob x
    by (rule store_addToHistory) (use a that in \<open>simp add: storeTriggersOnly_def\<close>)
  then show ?thesis
    using a by (simp add: placeClick_def Let_def triggerDataOk_def)
qed

lemma store_deleteClick: "storeTriggersOnly s \<Longrightarrow> storeTriggersOnly (deleteClick gx gy dr s)"
proof -
  assume a: "storeTriggersOnly s"
  have "storeTriggersOnly ((addToHistory (s\<lparr> levelData := objs \<rparr>))\<lparr> lastDeletePos := x \<rparr>)"
    if "deleteTopmost r (levelData s) = Some objs" for r objs x
  proof -
    have "triggersOnly objs"
      using deleteTopmost_subset [OF that] a
      by (auto simp: storeTriggersOnly_def intro: triggersOnly_subset)
    from store_addToHistory [OF store_levelData [OF a this]]
    show ?thesis by (simp add: storeTriggersOnly_def)
  qed
  with a show ?thesis by (simp add: deleteClick_def Let_def split: option.splits)
qed

lemma store_selectRelease: "storeTriggersOnly s \<Longrightarrow> storeTriggersOnly (selectRelease wx wy sh s)"
  by (simp add: selectRelease_def Let_def storeTriggersOnly_def split: option.splits prod.splits)

lemma store_handleEditorClick:
  "storeTriggersOnly s \<Longrightarrow> storeTriggersOnly (handleEditorClick cx cy sh dr nid s)"
proof -
  assume a: "storeTriggersOnly s"
  then have "storeTriggersOnly (s\<lparr> isPastedSelection := False \<rparr>)"
    by (simp add: storeTriggersOnly_def)
  with a show ?thesis
    by (simp add: handleEditorClick_def Let_def store_placeClick store_deleteClick
          store_selectRelease)
qed

lemma store_onMouseDown:
  "storeTriggersOnly s \<Longrightarrow> storeTriggersOnly (onMouseDown cx cy sh nid s)"
proof -
  assume a: "storeTriggersOnly s"
  then have b: "storeTriggersOnly (s\<lparr> mouseIsDown := True, lastDeletePos := None \<rparr>)"
    by (simp add: storeTriggersOnly_def)
  have "storeTriggersOnly (t\<lparr> boxSelectStart := x \<rparr>)" if "storeTriggersOnly t" for t x
    using that by (simp add: storeTriggersOnly_def)
  with b show ?thesis
    by (simp add: onMouseDown_def Let_def store_handleEditorClick)
qed

lemma store_move: "storeTriggersOnly s \<Longrightarrow> storeTriggersOnly (moveSelectionInternal dx dy s)"
proof -
  assume a: "storeTriggersOnly s"
  then have "triggersOnly (levelData s)" by (simp add: storeTriggersOnly_def)
  from store_addToHistory [OF store_levelData [OF a triggersOnly_moved [OF this]]] a
  show ?thesis by (simp add: moveSelectionInternal_def Let_def)
qed

lemma store_rotate: "storeTriggersOnly s \<Longrightarrow> storeTriggersOnly (rotateSelection a r s)"
proof -
  assume a: "storeTriggersOnly s"
  then have d: "triggersOnly (levelData s)" by (simp add: storeTriggersOnly_def)
  have m: "triggersOnly (map (\<lambda>obj. if P obj then obj\<lparr> o_rotation := f obj \<rparr> else obj) (levelData s))"
    for P f
    using d by (intro triggersOnly_map) auto
  have m2: "triggersOnly (map (\<lambda>obj. if P obj then multiRotate cx cy a obj else obj) (levelData s))"
    for P cx cy
    using d by (intro triggersOnly_map) auto
  have u: "storeTriggersOnly (t\<lparr> levelData := x \<rparr>)"
    if "triggersOnly x" "clipboard t = clipboard s" "history t = history s" for t x
    using that a by (simp add: storeTriggersOnly_def)
  show ?thesis
    unfolding rotateSelection_def Let_def
    using a
    by (auto intro!: store_addToHistory u m m2 split: option.splits list.splits)
qed

lemma store_paste: "storeTriggersOnly s \<Longrightarrow> storeTriggersOnly (pasteSelection g s)"
proof -
  assume a: "storeTriggersOnly s"
  have "storeTriggersOnly
          (addToHistory (s\<lparr> levelData := levelData s @ objs, selectedObjects := x,
                           isPastedSelection := True \<rparr>))"
    if "triggersOnly objs" for objs x
    by (rule store_addToHistory) (use a that in \<open>simp add: storeTriggersOnly_def\<close>)
  moreover have "triggersOnly (map (\<lambda>(i, obj). obj\<lparr> o_id := g i \<rparr>) (enumerate 0 (clipboard s)))"
    using a by (intro triggersOnly_pasted) (simp add: storeTriggersOnly_def)
  ultimately show ?thesis using a by (simp add: pasteSelection_def Let_def)
qed

lemma store_copy: "storeTriggersOnly s \<Longrightarrow> storeTriggersOnly (copySelection s)"
proof -
  assume a: "storeTriggersOnly s"
  have "triggersOnly (map (\<lambda>ob. parseObject (stringifyObject ob))
          (filter (\<lambda>ob. o_id ob \<in> set (selectedObjects s)) (levelData s)))"
    using a triggersOnly_filter [of "levelData s" "\<lambda>ob. o_id ob \<in> set (selectedObjects s)"]
    by (simp add: triggersOnly_def storeTriggersOnly_def)
  with a show ?thesis by (simp add: copySelection_def storeTriggersOnly_def)
qed

lemma store_setLevel:
  assumes "storeTriggersOnly s" and "opAllowed (SetLevel data keep) s"
  shows "storeTriggersOnly (setLevel data keep s)"
proof -
  have k: "storeTriggersOnly
          (addToHistory (s\<lparr> levelData := objs, levelSettings := st,
                           displaySettings := displayOf st,
                           selectedObjects := [], isPastedSelection := False \<rparr>))"
    if "triggersOnly objs" for objs st
    by (rule store_addToHistory) (use assms(1) that in \<open>simp add: storeTriggersOnly_def\<close>)
  have r: "storeTriggersOnly
          (s\<lparr> levelData := objs, levelSettings := st, displaySettings := displayOf st,
              selectedObjects := [], isPastedSelection := False,
              history := [\<lparr> snap_settings = st, snap_objects = map stringifyObject objs \<rparr>],
              historyIndex := 0 \<rparr>)"
    if "triggersOnly objs" for objs st
    using assms(1) that by (simp add: storeTriggersOnly_def triggersOnly_def)
  show ?thesis
    using assms(2)
    by (cases data)
       (simp_all add: setLevel_def Let_def opAllowed_def getCurrentState_def k r
             r [of "[]", simplified] split: option.splits)
qed

lemma store_updateTrigger:
  assumes "storeTriggersOnly s" and "opAllowed (UpdateSelectedTrigger d) s"
  shows "storeTriggersOnly (updateSelectedTrigger d s)"
proof (cases "findIndex (set_first (selectedObjects s)) (levelData s)")
  case None
  then show ?thesis using assms(1) by (simp add: updateSelectedTrigger_def)
next
  case (Some k)
  with assms(2) have t: "o_type (levelData s ! k) = TRIGGER" by (simp add: opAllowed_def)
  have "triggersOnly ((levelData s)[k := (levelData s ! k)\<lparr> o_triggerData := x \<rparr>])" for x
    using assms(1) t
    by (intro triggersOnly_update) (simp_all add: triggerDataOk_def storeTriggersOnly_def)
  from store_addToHistory [OF store_levelData [OF assms(1) this]] Some
  show ?thesis by (simp add: updateSelectedTrigger_def)
qed

lemma store_updateStartPos:
  assumes "storeTriggersOnly s"
  shows "storeTriggersOnly (updateSelectedStartPos d s)"
proof (cases "findIndex (set_first (selectedObjects s)) (levelData s)")
  case None
  then show ?thesis using assms by (simp add: updateSelectedStartPos_def)
next
  case (Some k)
  have "triggersOnly ((levelData s)[k := (levelData s ! k)\<lparr> o_startPosData := x \<rparr>])" for x
    using assms findIndex_bound [OF Some]
    by (intro triggersOnly_update) (simp_all add: triggersOnly_nth storeTriggersOnly_def)
  from store_addToHistory [OF store_levelData [OF assms this]] Some
  show ?thesis by (simp add: updateSelectedStartPos_def)
qed

lemma store_simple:
  assumes "storeTriggersOnly s"
  shows "storeTriggersOnly (syncSelectedTool tool s)"
    and "storeTriggersOnly (syncMode m s)"
    and "storeTriggersOnly (deleteSelection s)"
    and "storeTriggersOnly (deselectAll s)"
    and "storeTriggersOnly (clearLevel s)"
    and "storeTriggersOnly (updateSettings n s)"
    and "storeTriggersOnly (resetPlayerInternal w v s)"
proof -
  show "storeTriggersOnly (syncSelectedTool tool s)" "storeTriggersOnly (syncMode m s)"
    "storeTriggersOnly (deselectAll s)"
    using assms by (simp_all add: syncSelectedTool_def syncMode_def deselectAll_def storeTriggersOnly_def)
  show "storeTriggersOnly (deleteSelection s)"
    unfolding deleteSelection_def using assms
    by (intro store_addToHistory) (simp add: storeTriggersOnly_def triggersOnly_filter)
  show "storeTriggersOnly (clearLevel s)"
    unfolding clearLevel_def using assms
    by (intro store_addToHistory) (simp add: storeTriggersOnly_def)
  show "storeTriggersOnly (updateSettings n s)"
    unfolding updateSettings_def using assms
    by (intro store_addToHistory) (simp add: storeTriggersOnly_def)
  show "storeTriggersOnly (resetPlayerInternal w v s)"
    using assms by (simp add: resetPlayerInternal_def Let_def storeTriggersOnly_def)
qed

lemma step_storeTriggersOnly:
  assumes "storeTriggersOnly s" and "opAllowed op s"
  shows "storeTriggersOnly (step op s)"
  using assms
  by (cases op)
     (simp_all add: store_onMouseDown store_handleEditorClick store_simple store_move
        store_rotate store_copy store_paste duplicateSelection_def store_setLevel
        store_updateTrigger store_updateStartPos store_undo store_redo)

lemma run_storeTriggersOnly:
  "storeTriggersOnly s \<Longrightarrow> runAllowed ops s \<Longrightarrow> storeTriggersOnly (run ops s)"
  by (induction ops arbitrary: s) (simp_all add: run_Cons step_storeTriggersOnly)

lemma store_initial: "storeTriggersOnly initialEngine"
  by (simp add: storeTriggersOnly_def initialEngine_def)

text \<open>
  Claim C10, as amended. Starting from the mounted engine, after any sequence of
  operations in which every loaded document carries trigger data on Trigger objects only
  and \<open>updateSelectedTrigger\<close> is called only while the first selected object, if it is
  in the document, is a Trigger, only objects of type Trigger carry \<open>triggerData\<close>.
  Placement attaches the default trigger data to Trigger objects alone; move, rotate,
  delete, paste, clear, the start-pos update, undo and redo never attach any.
\<close>

theorem trigger_data_only_on_triggers:
  assumes "runAllowed ops initialEngine"
  shows "triggersOnly (levelData (run ops initialEngine))"
  using run_storeTriggersOnly [OF store_initial assms] by (simp add: storeTriggersOnly_def)

theorem trigger_data_only_on_triggers_witness:
  "runAllowed [SelectTool (TRIGGER, 1), EditorClick 10 10 False False ''t'',
               UpdateSelectedTrigger (colorPatch ''#00ff00''),
               SelectTool (BLOCK, 1), EditorClick 60 10 False False ''b''] initialEngine
   \<and> triggersOnly (levelData (run [SelectTool (TRIGGER, 1), EditorClick 10 10 False False ''t'',
               UpdateSelectedTrigger (colorPatch ''#00ff00''),
               SelectTool (BLOCK, 1), EditorClick 60 10 False False ''b''] initialEngine))
   \<and> map o_type (levelData (run [SelectTool (TRIGGER, 1), EditorClick 10 10 False False ''t'',
               UpdateSelectedTrigger (colorPatch ''#00ff00''),
               SelectTool (BLOCK, 1), EditorClick 60 10 False False ''b''] initialEngine))
     = [TRIGGER, BLOCK]"
proof -
  have a: "runAllowed [SelectTool (TRIGGER, 1), EditorClick 10 10 False False ''t'',
               UpdateSelectedTrigger (colorPatch ''#00ff00''),
               SelectTool (BLOCK, 1), EditorClick 60 10 False False ''b''] initialEngine"
    by (simp add: opAllowed_def eval_defs set_first_def)
  have b: "map o_type (levelData (run [SelectTool (TRIGGER, 1), EditorClick 10 10 False False ''t'',
               UpdateSelectedTrigger (colorPatch ''#00ff00''),
               SelectTool (BLOCK, 1), EditorClick 60 10 False False ''b''] initialEngine))
     = [TRIGGER, BLOCK]"
    by (simp add: eval_defs set_first_def)
  from a b trigger_data_only_on_triggers [OF a] show ?thesis by blast
qed



section \<open>Point deletion and the selection; trigger data on other objects\<close>

lemmas geom_defs =
  hitboxOverlaps_def getLocalHitbox_def deleteTopmost.simps

text \<open>
  Claim C9 at a concrete input: a Block is placed (and thereby selected), the delete tool
  is chosen and the same cell is clicked. The object is gone and its id is still
  selected; \<open>deleteSelection\<close> on the same selection clears it.
\<close>

theorem point_delete_keeps_selection:
  "levelData (run [EditorClick 10 10 False False ''a'', SelectTool (DELETE, 0),
                   EditorClick 10 10 False False ''b''] initialEngine) = []
   \<and> selectedObjects (run [EditorClick 10 10 False False ''a'', SelectTool (DELETE, 0),
                          EditorClick 10 10 False False ''b''] initialEngine) = [''a'']
   \<and> selectedObjects (run [EditorClick 10 10 False False ''a'', DeleteSelection] initialEngine) = []"
  by (simp add: eval_defs geom_defs)

text \<open>Claim C10 as stated fails: \<open>updateSelectedTrigger\<close> with a Block selected attaches
  trigger data to the Block.\<close>

theorem stray_trigger_data_counterexample:
  "map (\<lambda>ob. (o_type ob, o_triggerData ob))
       (levelData (run [EditorClick 10 10 False False ''a'',
                        UpdateSelectedTrigger (colorPatch ''#ffffff'')] initialEngine))
   = [(BLOCK, Some (colorPatch ''#ffffff''))]"
  by (simp add: eval_defs set_first_def mergeTrigger_def colorPatch_def)

section \<open>A cube meeting a Block\<close>

lemma maxProj_fold:
  "\<exists>q \<in> insert q0 (set ps).
     foldl (\<lambda>m p. case m of None \<Rightarrow> Some (proj n p)
                   | Some u \<Rightarrow> if proj n p > u then Some (proj n p) else Some u)
       (Some (proj n q0)) ps = Some (proj n q)"
proof (induction ps arbitrary: q0)
  case Nil
  then show ?case by simp
next
  case (Cons p ps)
  show ?case
  proof (cases "proj n p > proj n q0")
    case True
    with Cons [of p] show ?thesis by auto
  next
    case False
    with Cons [of q0] show ?thesis by auto
  qed
qed

lemma minProj_fold:
  "\<exists>q \<in> insert q0 (set ps).
     foldl (\<lambda>m p. case m of None \<Rightarrow> Some (proj n p)
                   | Some u \<Rightarrow> if proj n p < u then Some (proj n p) else Some u)
       (Some (proj n q0)) ps = Some (proj n q)"
proof (induction ps arbitrary: q0)
  case Nil
  then show ?case by simp
next
  case (Cons p ps)
  show ?case
  proof (cases "proj n p < proj n q0")
    case True
    with Cons [of p] show ?thesis by auto
  next
    case False
    with Cons [of q0] show ?thesis by auto
  qed
qed

lemma maxProj_in: "ps \<noteq> [] \<Longrightarrow> \<exists>q \<in> set ps. maxProj n ps = Some (proj n q)"
  using maxProj_fold [of "hd ps" "tl ps" n] by (cases ps) (auto simp: maxProj_def)

lemma minProj_in: "ps \<noteq> [] \<Longrightarrow> \<exists>q \<in> set ps. minProj n ps = Some (proj n q)"
  using minProj_fold [of "hd ps" "tl ps" n] by (cases ps) (auto simp: minProj_def)

lemma sat_axis:
  assumes "checkPolygonInteract poly1 r" and "n \<in> set (normals (rectPoly r))" and "poly1 \<noteq> []"
  shows "\<exists>qa \<in> set poly1. \<exists>qb \<in> set (rectPoly r). proj n qb \<le> proj n qa"
    and "\<exists>qa \<in> set poly1. \<exists>qb \<in> set (rectPoly r). proj n qa \<le> proj n qb"
proof -
  from assms(1,2) have a: "\<not> max_lt_min (maxProj n poly1) (minProj n (rectPoly r))"
    and b: "\<not> max_lt_min (maxProj n (rectPoly r)) (minProj n poly1)"
    by (auto simp: checkPolygonInteract_def Let_def list_all_iff)
  have ne: "rectPoly r \<noteq> []" by (simp add: rectPoly_def)
  from maxProj_in [OF assms(3), of n] obtain qa where
    qa: "qa \<in> set poly1" "maxProj n poly1 = Some (proj n qa)" by blast
  from minProj_in [OF ne, of n] obtain qb where
    qb: "qb \<in> set (rectPoly r)" "minProj n (rectPoly r) = Some (proj n qb)" by blast
  from a qa(2) qb(2) have "proj n qb \<le> proj n qa" by (simp add: max_lt_min_def)
  with qa(1) qb(1)
  show "\<exists>qa \<in> set poly1. \<exists>qb \<in> set (rectPoly r). proj n qb \<le> proj n qa" by blast
  from maxProj_in [OF ne, of n] obtain qd where
    qd: "qd \<in> set (rectPoly r)" "maxProj n (rectPoly r) = Some (proj n qd)" by blast
  from minProj_in [OF assms(3), of n] obtain qc where
    qc: "qc \<in> set poly1" "minProj n poly1 = Some (proj n qc)" by blast
  from b qd(2) qc(2) have "proj n qc \<le> proj n qd" by (simp add: max_lt_min_def)
  with qc(1) qd(1)
  show "\<exists>qa \<in> set poly1. \<exists>qb \<in> set (rectPoly r). proj n qa \<le> proj n qb" by blast
qed

lemma rect_normal: "(r_h r, 0) \<in> set (normals (rectPoly r))"
  by (simp add: normals_def rectPoly_def)

lemma rot_bound:
  fixes lx ly a :: real
  assumes "\<bar>lx\<bar> \<le> 20" and "\<bar>ly\<bar> \<le> 20"
  shows "\<bar>lx * cos a - ly * sin a\<bar> \<le> 40"
proof -
  have "\<bar>lx * cos a\<bar> \<le> 20 * 1"
    unfolding abs_mult using assms(1) abs_cos_le_one [of a] by (intro mult_mono) simp_all
  moreover have "\<bar>ly * sin a\<bar> \<le> 20 * 1"
    unfolding abs_mult using assms(2) abs_sin_le_one [of a] by (intro mult_mono) simp_all
  ultimately show ?thesis using abs_triangle_ineq4 [of "lx * cos a" "ly * sin a"] by linarith
qed

lemma worldPoints_x:
  assumes "q \<in> set (worldPoints obj rot)" and "o_type obj = BLOCK"
  shows "o_x obj * TILE_SIZE - 20 \<le> fst q \<and> fst q \<le> o_x obj * TILE_SIZE + 60"
proof -
  define a where "a = rot * (pi / 180)"
  define g :: "Pt \<Rightarrow> Pt" where
    "g = (\<lambda>pt. (o_x obj * TILE_SIZE + 20 + ((fst pt - 20) * cos a - (snd pt - 20) * sin a),
                o_y obj * TILE_SIZE + 20 + ((fst pt - 20) * sin a + (snd pt - 20) * cos a)))"
  have w: "worldPoints obj rot = map g (rectPoly (getLocalHitbox (o_type obj) (o_subtype obj)))"
    by (simp add: worldPoints_def Let_def g_def a_def TILE_SIZE_def)
  from assms(1) obtain pt where pt: "pt \<in> set (rectPoly (getLocalHitbox BLOCK (o_subtype obj)))"
    and q: "q = g pt"
    unfolding w assms(2) by auto
  from pt have "\<bar>fst pt - 20\<bar> \<le> 20" "\<bar>snd pt - 20\<bar> \<le> 20"
    by (auto simp: rectPoly_def getLocalHitbox_def split: if_splits)
  from rot_bound [OF this, of a] show ?thesis
    by (simp add: q g_def abs_le_iff)
qed

lemma collision_within_margin:
  assumes "checkCollision p obj" and "o_type obj = BLOCK" and "0 \<le> p_w p" and "0 < p_h p"
  shows "\<not> (o_x obj * TILE_SIZE > p_x p + p_w p + TILE_SIZE * 2
            \<or> o_x obj * TILE_SIZE + TILE_SIZE < p_x p - TILE_SIZE * 2)"
proof (cases "o_rotation obj = None \<or> o_rotation obj = Some 0")
  case True
  with assms(1,2) show ?thesis
    by (auto simp: checkCollision_def hitboxOverlaps_def playerRect_def getLocalHitbox_def
                   TILE_SIZE_def Let_def split: if_splits)
next
  case False
  then obtain rot where rot: "o_rotation obj = Some rot" "rot \<noteq> 0" by auto
  let ?r = "playerRect p"
  let ?n = "(r_h ?r, 0 :: real)"
  from assms(1) rot have c: "checkPolygonInteract (worldPoints obj rot) ?r"
    by (simp add: checkCollision_def hitboxOverlaps_def Let_def)
  have ne: "worldPoints obj rot \<noteq> []" by (simp add: worldPoints_def Let_def rectPoly_def)
  have h: "0 < r_h ?r" using assms(4) by (simp add: playerRect_def)
  from sat_axis(1) [OF c rect_normal ne] obtain qa qb where
    1: "qa \<in> set (worldPoints obj rot)" "qb \<in> set (rectPoly ?r)" "proj ?n qb \<le> proj ?n qa"
    by blast
  from sat_axis(2) [OF c rect_normal ne] obtain qa' qb' where
    2: "qa' \<in> set (worldPoints obj rot)" "qb' \<in> set (rectPoly ?r)" "proj ?n qa' \<le> proj ?n qb'"
    by blast
  from 1(3) h have x1: "fst qb \<le> fst qa" by (simp add: proj_def)
  from 2(3) h have x2: "fst qa' \<le> fst qb'" by (simp add: proj_def)
  from 1(2) assms(3) have b1: "p_x p \<le> fst qb" by (auto simp: rectPoly_def playerRect_def)
  from 2(2) assms(3) have b2: "fst qb' \<le> p_x p + p_w p" by (auto simp: rectPoly_def playerRect_def)
  from worldPoints_x [OF 1(1) assms(2)] worldPoints_x [OF 2(1) assms(2)] x1 x2 b1 b2
  show ?thesis by (simp add: TILE_SIZE_def)
qed

lemma processObject_block:
  assumes "p_vehicle (player t) = Some CUBE" and "\<not> p_gravityReversed (player t)"
    and "0 \<le> p_w (player t)" and "0 < p_h (player t)"
    and "o_type obj = BLOCK" and "o_subtype obj \<noteq> 3" and "checkCollision (player t) obj"
  shows "processObject i j obj t
         = (if landsOn (player t) obj then Next (t\<lparr> player := landed (player t) obj \<rparr>)
            else Return (die t))"
proof -
  note m = collision_within_margin [OF assms(7,5,3,4)]
  have "processObject i j obj t = resolveBlock obj t"
    using assms(5,7) m by (simp add: processObject_def Let_def)
  also have "\<dots> = (if landsOn (player t) obj then Next (t\<lparr> player := landed (player t) obj \<rparr>)
            else Return (die t))"
  proof -
    have v: "p_vehicle (player t) \<noteq> Some SHIP" using assms(1) by simp
    show ?thesis
      unfolding resolveBlock_def Let_def landsOn_def landed_def
      by (simp only: if_not_P [OF v] if_not_P [OF assms(6)] if_P [OF assms(2)])
  qed
  finally show ?thesis .
qed

lemma activateTrigger_player [simp]: "player (activateTrigger ob td s) = player s"
  by (simp add: activateTrigger_def Let_def split: option.splits)

lemma processObject_inert:
  assumes "inert (player s) ob"
  shows "\<exists>s'. processObject i j ob s = Next s' \<and> player s' = player s"
proof (cases "o_type ob = TRIGGER \<and> o_triggerData ob \<noteq> None")
  case True
  then show ?thesis by (auto simp: processObject_def Let_def)
next
  case False
  then have n: "(if o_type ob = TRIGGER then o_triggerData ob else None) = None" by auto
  from assms show ?thesis
    unfolding processObject_def Let_def n
    by (auto simp: inert_def)
qed

lemma objectLoop_inert:
  "inertAll (player s) objs \<Longrightarrow> \<exists>s'. objectLoop i j objs s = Next s' \<and> player s' = player s"
proof (induction objs arbitrary: s)
  case Nil
  then show ?case by simp
next
  case (Cons ob objs)
  then have "inert (player s) ob" and r: "inertAll (player s) objs"
    by (simp_all add: inertAll_def)
  from processObject_inert [OF this(1), of i j] obtain s1 where
    s1: "processObject i j ob s = Next s1" "player s1 = player s" by blast
  from Cons.IH [of s1] r s1(2) obtain s' where
    "objectLoop i j objs s1 = Next s'" "player s' = player s1" by auto
  with s1 show ?case by simp
qed

lemma objectLoop_append:
  "objectLoop i j (xs @ ys) s
   = (case objectLoop i j xs s of Return s' \<Rightarrow> Return s' | Next s' \<Rightarrow> objectLoop i j ys s')"
  by (induction xs arbitrary: s) (auto split: Flow.splits)

lemma die_player:
  "p_dead (player (die s))"
  "p_y (player (die s)) = p_y (player s)" "p_vy (player (die s)) = p_vy (player s)"
  "p_onGround (player (die s)) = p_onGround (player s)"
  "p_rotation (player (die s)) = p_rotation (player s)"
  by (simp_all add: die_def)

lemma finishStep_idle:
  assumes "\<not> isInputDown"
  shows "p_y (player (finishStep isInputDown s)) = p_y (player s)"
    and "p_vy (player (finishStep isInputDown s)) = p_vy (player s)"
    and "p_onGround (player (finishStep isInputDown s)) = p_onGround (player s)"
    and "p_rotation (player (finishStep isInputDown s)) = p_rotation (player s)"
  using assms by (simp_all add: finishStep_def Let_def die_player)

lemma finishStep_jump:
  assumes "isInputDown" and "p_vehicle (player s) = Some CUBE" and "p_onGround (player s)"
    and "\<not> p_gravityReversed (player s)"
  shows "p_vy (player (finishStep isInputDown s)) = JUMP_FORCE"
    and "\<not> p_onGround (player (finishStep isInputDown s))"
    and "p_y (player (finishStep isInputDown s)) = p_y (player s)"
  using assms by (simp_all add: finishStep_def Let_def die_player jump_def)

text \<open>The whole step around a Block that the cube touches after its motion.\<close>

lemma landing_step:
  assumes run: "\<not> p_dead (player s)" "\<not> (p_finished (player s) \<and> modeRef s = VERIFY)"
      "\<not> (modeRef s = VERIFY \<and> p_x (player s) > finishWallX s)"
    and pre: "preLoop s = Next s1"
    and cube: "p_vehicle (player s1) = Some CUBE" "\<not> p_gravityReversed (player s1)"
    and size: "0 \<le> p_w (player s1)" "0 < p_h (player s1)"
    and lvl: "levelData s1 = before @ [obj] @ after"
    and blk: "o_type obj = BLOCK" "o_subtype obj \<noteq> 3" "checkCollision (player s1) obj"
    and bef: "inertAll (player s1) before"
  shows "\<exists>t. objectLoop i j before s1 = Next t \<and> player t = player s1
             \<and> processObject i j obj t
                 = (if landsOn (player s1) obj
                    then Next (t\<lparr> player := landed (player s1) obj \<rparr>) else Return (die t))"
    and "landsOn (player s1) obj \<Longrightarrow> inertAll (landed (player s1) obj) after \<Longrightarrow>
         \<not> inputDown s \<Longrightarrow>
         p_y (player (updatePhysics s)) = o_y obj * TILE_SIZE - p_h (player s1)
         \<and> p_vy (player (updatePhysics s)) = 0
         \<and> p_onGround (player (updatePhysics s))
         \<and> p_rotation (player (updatePhysics s)) = 0"
    and "landsOn (player s1) obj \<Longrightarrow> inertAll (landed (player s1) obj) after \<Longrightarrow>
         inputDown s \<Longrightarrow>
         p_y (player (updatePhysics s)) = o_y obj * TILE_SIZE - p_h (player s1)
         \<and> p_vy (player (updatePhysics s)) = JUMP_FORCE
         \<and> \<not> p_onGround (player (updatePhysics s))"
    and "\<not> landsOn (player s1) obj \<Longrightarrow> p_dead (player (updatePhysics s))"
proof -
  have core: "\<exists>t. objectLoop i j before s1 = Next t \<and> player t = player s1
             \<and> processObject i j obj t
                 = (if landsOn (player s1) obj
                    then Next (t\<lparr> player := landed (player s1) obj \<rparr>) else Return (die t))"
    for i j
  proof -
    from objectLoop_inert [OF bef, of i j] obtain t where
      t: "objectLoop i j before s1 = Next t" "player t = player s1" by blast
    from processObject_block [of t obj i j] cube size blk t(2)
    have "processObject i j obj t
                 = (if landsOn (player s1) obj
                    then Next (t\<lparr> player := landed (player s1) obj \<rparr>) else Return (die t))"
      by simp
    with t show ?thesis by blast
  qed
  show "\<exists>t. objectLoop i j before s1 = Next t \<and> player t = player s1
             \<and> processObject i j obj t
                 = (if landsOn (player s1) obj
                    then Next (t\<lparr> player := landed (player s1) obj \<rparr>) else Return (die t))"
    by (rule core)
  let ?i = "inputDown s" and ?j = "inputDown s \<and> \<not> prevInputState s"
  have up: "updatePhysics s
            = (case objectLoop ?i ?j (levelData s1) s1 of
                 Return s3 \<Rightarrow> s3 | Next s3 \<Rightarrow> finishStep ?i s3)"
    unfolding updatePhysics_def Let_def
    by (simp only: if_not_P [OF run(1)] if_not_P [OF run(2)] if_not_P [OF run(3)] pre Flow.case)
  from core [of ?i ?j] obtain t where
    t: "objectLoop ?i ?j before s1 = Next t" "player t = player s1"
       "processObject ?i ?j obj t
          = (if landsOn (player s1) obj
             then Next (t\<lparr> player := landed (player s1) obj \<rparr>) else Return (die t))"
    by blast
  have loop: "objectLoop ?i ?j (levelData s1) s1
        = (case processObject ?i ?j obj t of
             Return s' \<Rightarrow> Return s' | Next s' \<Rightarrow> objectLoop ?i ?j after s')"
    unfolding lvl by (simp add: objectLoop_append t(1))
  {
    assume l: "landsOn (player s1) obj" and a: "inertAll (landed (player s1) obj) after"
    let ?t' = "t\<lparr> player := landed (player s1) obj \<rparr>"
    from a have "inertAll (player ?t') after" by simp
    from objectLoop_inert [OF this, of ?i ?j] obtain s3 where
      s3: "objectLoop ?i ?j after ?t' = Next s3" "player s3 = landed (player s1) obj" by auto
    have u: "updatePhysics s = finishStep ?i s3"
      by (simp add: up loop t(3) l s3(1))
    {
      assume "\<not> inputDown s"
      from finishStep_idle [OF this, of s3]
      show "p_y (player (updatePhysics s)) = o_y obj * TILE_SIZE - p_h (player s1)
         \<and> p_vy (player (updatePhysics s)) = 0
         \<and> p_onGround (player (updatePhysics s))
         \<and> p_rotation (player (updatePhysics s)) = 0"
        by (simp add: u s3(2) landed_def)
    }
    {
      assume d: "inputDown s"
      have "p_vehicle (player s3) = Some CUBE" "p_onGround (player s3)"
        "\<not> p_gravityReversed (player s3)"
        using cube by (simp_all add: s3(2) landed_def)
      from finishStep_jump [OF d this]
      show "p_y (player (updatePhysics s)) = o_y obj * TILE_SIZE - p_h (player s1)
         \<and> p_vy (player (updatePhysics s)) = JUMP_FORCE
         \<and> \<not> p_onGround (player (updatePhysics s))"
        by (simp add: u s3(2) landed_def)
    }
  }
  {
    assume "\<not> landsOn (player s1) obj"
    then have "updatePhysics s = die t" by (simp add: up loop t(3))
    then show "p_dead (player (updatePhysics s))" by (simp add: die_player)
  }
qed

text \<open>
  Claim C1, as amended. A Cube in normal gravity that, after its motion, collides with a
  full Block, every earlier object of the level leaving it alone: the object loop reaches
  the Block with the player unchanged, and there the Block either snaps the cube onto its
  top face (when the previous-frame bottom edge was at or above the top plus a tolerance of
  \<open>max |vy| 5\<close> and the cube is not rising) or kills it. When the cube is snapped and no later
  object touches it, the step ends on the top face with \<open>onGround\<close>, vertical velocity 0
  and rotation 0 provided no jump input is held; with a jump input held the step ends on the
  same height with the jump already started, vertical velocity \<open>JUMP_FORCE\<close> and
  \<open>onGround\<close> false. An approach from the side or from below ends the step with the player
  dead.
\<close>

theorem cube_lands_on_block:
  assumes "\<not> p_dead (player s)" and "\<not> (p_finished (player s) \<and> modeRef s = VERIFY)"
    and "\<not> (modeRef s = VERIFY \<and> p_x (player s) > finishWallX s)"
    and "preLoop s = Next s1"
    and "p_vehicle (player s1) = Some CUBE" and "\<not> p_gravityReversed (player s1)"
    and "0 \<le> p_w (player s1)" and "0 < p_h (player s1)"
    and "levelData s1 = before @ [obj] @ after"
    and "o_type obj = BLOCK" and "o_subtype obj \<noteq> 3" and "checkCollision (player s1) obj"
    and "inertAll (player s1) before"
  shows "(\<exists>t. objectLoop i j before s1 = Next t \<and> player t = player s1
             \<and> processObject i j obj t
                 = (if landsOn (player s1) obj
                    then Next (t\<lparr> player := landed (player s1) obj \<rparr>) else Return (die t)))
       \<and> (landsOn (player s1) obj \<and> inertAll (landed (player s1) obj) after \<and> \<not> inputDown s
            \<longrightarrow> p_y (player (updatePhysics s)) = o_y obj * TILE_SIZE - p_h (player s1)
                \<and> p_vy (player (updatePhysics s)) = 0
                \<and> p_onGround (player (updatePhysics s))
                \<and> p_rotation (player (updatePhysics s)) = 0)
       \<and> (landsOn (player s1) obj \<and> inertAll (landed (player s1) obj) after \<and> inputDown s
            \<longrightarrow> p_y (player (updatePhysics s)) = o_y obj * TILE_SIZE - p_h (player s1)
                \<and> p_vy (player (updatePhysics s)) = JUMP_FORCE
                \<and> \<not> p_onGround (player (updatePhysics s)))
       \<and> (\<not> landsOn (player s1) obj \<longrightarrow> p_dead (player (updatePhysics s)))"
  using landing_step(1) [OF assms, of i j] landing_step(2-4) [OF assms] by blast

lemmas motion_defs =
  preLoop_def inputDown_def cubeMotion_def initialEngine_def Let_def
  GRAVITY_def TERMINAL_VELOCITY_def PLAYER_SPEED_def FLOOR_Y_def FLOOR_LEVEL_GRID_def
  TILE_SIZE_def js_round_def

lemma fallingCube_motion:
  "preLoop fallingCube
   = Next (fallingCube\<lparr> player := (player fallingCube)
             \<lparr> p_x := 764 / 10, p_vy := 895 / 100, p_y := 40495 / 100,
               p_rotation := pi / 2 * (15 / 100), p_onGround := False \<rparr> \<rparr>)"
  by (simp add: fallingCube_def motion_defs)

lemma fallingCubeHeld_motion:
  "preLoop fallingCubeHeld
   = Next (fallingCubeHeld\<lparr> prevInputState := True, player := (player fallingCubeHeld)
             \<lparr> p_x := 764 / 10, p_vy := 895 / 100, p_y := 40495 / 100,
               p_rotation := pi / 2 * (15 / 100), p_onGround := False \<rparr> \<rparr>)"
  by (simp add: fallingCubeHeld_def fallingCube_def motion_defs)

lemma runningCube_motion:
  "preLoop runningCube
   = Next (runningCube\<lparr> player := (player runningCube)
             \<lparr> p_x := 764 / 10, p_vy := 0, p_y := 444, p_rotation := 0, p_onGround := True \<rparr> \<rparr>)"
  by (simp add: runningCube_def motion_defs)

lemmas box_defs =
  checkCollision_def playerRect_def hitboxOverlaps_def getLocalHitbox_def sampleBlock_def
  TILE_SIZE_def Let_def

text \<open>A falling cube lands on the Block below it; a cube running into the side of the
  same Block dies.\<close>

theorem cube_lands_on_block_witness:
  "checkCollision (player (afterMotion fallingCube)) (sampleBlock ''b'' 2 11)
   \<and> landsOn (player (afterMotion fallingCube)) (sampleBlock ''b'' 2 11)
   \<and> p_y (player (updatePhysics fallingCube)) = 11 * TILE_SIZE - 36
   \<and> p_vy (player (updatePhysics fallingCube)) = 0
   \<and> p_onGround (player (updatePhysics fallingCube))
   \<and> p_rotation (player (updatePhysics fallingCube)) = 0
   \<and> checkCollision (player (afterMotion runningCube)) (sampleBlock ''b'' 2 11)
   \<and> p_dead (player (updatePhysics runningCube))"
proof -
  let ?b = "sampleBlock ''b'' 2 11"
  let ?s1 = "fallingCube\<lparr> player := (player fallingCube)
             \<lparr> p_x := 764 / 10, p_vy := 895 / 100, p_y := 40495 / 100,
               p_rotation := pi / 2 * (15 / 100), p_onGround := False \<rparr> \<rparr>"
  let ?r1 = "runningCube\<lparr> player := (player runningCube)
             \<lparr> p_x := 764 / 10, p_vy := 0, p_y := 444, p_rotation := 0, p_onGround := True \<rparr> \<rparr>"
  have am: "afterMotion fallingCube = ?s1" "afterMotion runningCube = ?r1"
    by (simp_all add: afterMotion_def fallingCube_motion runningCube_motion)
  have f: "\<not> p_dead (player fallingCube)"
    "\<not> (p_finished (player fallingCube) \<and> modeRef fallingCube = VERIFY)"
    "\<not> (modeRef fallingCube = VERIFY \<and> p_x (player fallingCube) > finishWallX fallingCube)"
    "p_vehicle (player ?s1) = Some CUBE" "\<not> p_gravityReversed (player ?s1)"
    "0 \<le> p_w (player ?s1)" "0 < p_h (player ?s1)"
    "levelData ?s1 = [] @ [?b] @ []"
    "o_type ?b = BLOCK" "o_subtype ?b \<noteq> 3"
    "inertAll (player ?s1) []" "inertAll (landed (player ?s1) ?b) []"
    "\<not> inputDown fallingCube"
    by (simp_all add: fallingCube_def initialEngine_def sampleBlock_def inertAll_def inputDown_def)
  have fc: "checkCollision (player ?s1) ?b"
    by (simp add: fallingCube_def box_defs)
  have fl: "landsOn (player ?s1) ?b"
    by (simp add: fallingCube_def landsOn_def sampleBlock_def TILE_SIZE_def)
  have r: "\<not> p_dead (player runningCube)"
    "\<not> (p_finished (player runningCube) \<and> modeRef runningCube = VERIFY)"
    "\<not> (modeRef runningCube = VERIFY \<and> p_x (player runningCube) > finishWallX runningCube)"
    "p_vehicle (player ?r1) = Some CUBE" "\<not> p_gravityReversed (player ?r1)"
    "0 \<le> p_w (player ?r1)" "0 < p_h (player ?r1)"
    "levelData ?r1 = [] @ [?b] @ []"
    "inertAll (player ?r1) []"
    by (simp_all add: runningCube_def initialEngine_def sampleBlock_def inertAll_def)
  have rc: "checkCollision (player ?r1) ?b"
    by (simp add: runningCube_def box_defs)
  have rl: "\<not> landsOn (player ?r1) ?b"
    by (simp add: runningCube_def landsOn_def sampleBlock_def TILE_SIZE_def)
  note t1 = cube_lands_on_block [OF f(1-3) fallingCube_motion f(4-10) fc f(11), of False False]
  note t2 = cube_lands_on_block [OF r(1-3) runningCube_motion r(4-8) f(9,10) rc r(9), of False False]
  have h: "p_h (player ?s1) = 36" "o_y ?b = 11"
    by (simp_all add: fallingCube_def sampleBlock_def)
  from t1 fl f(12,13) have
    "p_y (player (updatePhysics fallingCube)) = o_y ?b * TILE_SIZE - p_h (player ?s1)
     \<and> p_vy (player (updatePhysics fallingCube)) = 0
     \<and> p_onGround (player (updatePhysics fallingCube))
     \<and> p_rotation (player (updatePhysics fallingCube)) = 0"
    by blast
  moreover from t2 rl have "p_dead (player (updatePhysics runningCube))" by blast
  ultimately show ?thesis
    unfolding am h using fc fl rc by simp
qed

text \<open>Claim C1 as stated fails: a cube that lands squarely on a Block while the jump key
  is held ends the step in the air with the jump velocity, not on the ground with
  velocity 0.\<close>

theorem cube_landing_counterexample:
  "checkCollision (player (afterMotion fallingCubeHeld)) (sampleBlock ''b'' 2 11)
   \<and> landsOn (player (afterMotion fallingCubeHeld)) (sampleBlock ''b'' 2 11)
   \<and> p_vy (player (updatePhysics fallingCubeHeld)) = JUMP_FORCE
   \<and> \<not> p_onGround (player (updatePhysics fallingCubeHeld))"
proof -
  let ?b = "sampleBlock ''b'' 2 11"
  let ?s1 = "fallingCubeHeld\<lparr> prevInputState := True, player := (player fallingCubeHeld)
             \<lparr> p_x := 764 / 10, p_vy := 895 / 100, p_y := 40495 / 100,
               p_rotation := pi / 2 * (15 / 100), p_onGround := False \<rparr> \<rparr>"
  have am: "afterMotion fallingCubeHeld = ?s1"
    by (simp add: afterMotion_def fallingCubeHeld_motion)
  have f: "\<not> p_dead (player fallingCubeHeld)"
    "\<not> (p_finished (player fallingCubeHeld) \<and> modeRef fallingCubeHeld = VERIFY)"
    "\<not> (modeRef fallingCubeHeld = VERIFY
        \<and> p_x (player fallingCubeHeld) > finishWallX fallingCubeHeld)"
    "p_vehicle (player ?s1) = Some CUBE" "\<not> p_gravityReversed (player ?s1)"
    "0 \<le> p_w (player ?s1)" "0 < p_h (player ?s1)"
    "levelData ?s1 = [] @ [?b] @ []"
    "o_type ?b = BLOCK" "o_subtype ?b \<noteq> 3"
    "inertAll (player ?s1) []" "inertAll (landed (player ?s1) ?b) []"
    "inputDown fallingCubeHeld"
    by (simp_all add: fallingCubeHeld_def fallingCube_def initialEngine_def sampleBlock_def
          inertAll_def inputDown_def)
  have fc: "checkCollision (player ?s1) ?b"
    by (simp add: fallingCubeHeld_def fallingCube_def box_defs)
  have fl: "landsOn (player ?s1) ?b"
    by (simp add: fallingCubeHeld_def fallingCube_def landsOn_def sampleBlock_def TILE_SIZE_def)
  from landing_step(3) [OF f(1-3) fallingCubeHeld_motion f(4-10) fc f(11) fl f(12,13)]
  show ?thesis unfolding am using fc fl by simp
qed

end
